(* ===== verification/Fused_Prelude.thy ===== *)
theory Fused_Prelude
  imports Main "HOL-Library.Word"
begin

text \<open>
  Shared vocabulary of the development: machine integer types, C arrays as index functions,
  the loops the C code uses on arrays (first match, shift left), C strings and the few
  \<^verbatim>\<open>string.h\<close>/\<^verbatim>\<open>stdio.h\<close> functions the sources call, and C integer conversions.
  Everything here is generic; the components are in the theories that import this one.
\<close>

unbundle bit_operations_syntax

section \<open>Types\<close>

type_synonym byte = "8 word"
type_synonym u16 = "16 word"
type_synonym u32 = "32 word"
type_synonym u64 = "64 word"

text \<open>\<^verbatim>\<open>time_t\<close> and \<^verbatim>\<open>off_t\<close> are signed 64-bit; they are kept as \<^typ>\<open>int\<close> and every
  conversion the code makes is written out with the functions below.\<close>

type_synonym time_t = int
type_synonym off_t = int

text \<open>A C array is a function from its index; the bounds the code keeps are stated as
  invariants, never assumed by the representation.\<close>

type_synonym 'a arr = "nat \<Rightarrow> 'a"

named_theorems arr_simps \<open>array loops rewritten to list operations on the used prefix\<close>
named_theorems codec_simps \<open>lengths and round trips of byte encodings\<close>
named_theorems path_simps \<open>C path and string functions\<close>

section \<open>Definitions\<close>

subsection \<open>C integer conversions\<close>

definition to_u64 :: "int \<Rightarrow> int" where
  "to_u64 x = x mod 2 ^ 64"

definition to_s64 :: "int \<Rightarrow> int" where
  "to_s64 x = (x + 2 ^ 63) mod 2 ^ 64 - 2 ^ 63"

definition to_s32 :: "int \<Rightarrow> int" where
  "to_s32 x = (x + 2 ^ 31) mod 2 ^ 32 - 2 ^ 31"

subsection \<open>Array loops\<close>

text \<open>\<^verbatim>\<open>for (i = 0; i < n; i++) if (P(i)) return i;\<close>\<close>

definition find_idx :: "nat \<Rightarrow> (nat \<Rightarrow> bool) \<Rightarrow> nat option" where
  "find_idx n P = find P [0..<n]"

text \<open>\<^verbatim>\<open>for (j = i; j < n - 1; j++) a[j] = a[j + 1];\<close>\<close>

definition shift_left :: "nat \<Rightarrow> nat \<Rightarrow> 'a arr \<Rightarrow> 'a arr" where
  "shift_left i n a = fold (\<lambda>j b. b(j := b (Suc j))) [i..<n - 1] a"

definition arr_take :: "nat \<Rightarrow> 'a arr \<Rightarrow> 'a list" where
  "arr_take n a = map a [0..<n]"

definition remove_nth :: "nat \<Rightarrow> 'a list \<Rightarrow> 'a list" where
  "remove_nth i xs = take i xs @ drop (Suc i) xs"

subsection \<open>C strings\<close>

text \<open>A C string is the \<^typ>\<open>string\<close> before its terminator. \<^verbatim>\<open>strncpy(dst, src, n)\<close> followed
  by a zero at \<^verbatim>\<open>dst[n]\<close> (or into zeroed memory longer than \<open>n\<close>) keeps the first \<open>n\<close>
  characters.\<close>

definition strncpy0 :: "string \<Rightarrow> nat \<Rightarrow> string" where
  "strncpy0 src n = take n src"

text \<open>The tokens that repeated calls of \<^verbatim>\<open>strtok_r(s, "/", ..)\<close> return.\<close>

function tokens :: "string \<Rightarrow> string list" where
  "tokens [] = []"
| "tokens (c # cs) =
     (if c = CHR ''/'' then tokens cs
      else (c # takeWhile (\<lambda>x. x \<noteq> CHR ''/'') cs)
             # tokens (dropWhile (\<lambda>x. x \<noteq> CHR ''/'') cs))"
  by pat_completeness auto
termination
  by (relation "measure length") (auto simp: le_imp_less_Suc length_dropWhile_le)

text \<open>\<^verbatim>\<open>strrchr(s, c)\<close> as the index of the last occurrence.\<close>

definition strrchr :: "string \<Rightarrow> char \<Rightarrow> nat option" where
  "strrchr s c = find (\<lambda>i. s ! i = c) (rev [0..<length s])"

text \<open>\<^verbatim>\<open>%lu\<close>: an unsigned number in decimal.\<close>

fun dec_str :: "nat \<Rightarrow> string" where
  "dec_str n =
     (if n < 10 then [char_of (48 + n)] else dec_str (n div 10) @ [char_of (48 + n mod 10)])"

declare dec_str.simps [simp del]

definition int_str :: "int \<Rightarrow> string" where
  "int_str i = (if i < 0 then ''-'' @ dec_str (nat (- i)) else dec_str (nat i))"

section \<open>Lemmas\<close>

subsection \<open>Searching\<close>

lemma find_append: "find P (xs @ ys) = (case find P xs of None \<Rightarrow> find P ys | Some x \<Rightarrow> Some x)"
  by (induction xs) auto

lemma find_idx_0 [simp]: "find_idx 0 P = None"
  by (simp add: find_idx_def)

lemma find_idx_Some_iff:
  "find_idx n P = Some i \<longleftrightarrow> i < n \<and> P i \<and> (\<forall>j<i. \<not> P j)"
  by (auto simp: find_idx_def find_Some_iff)

lemma find_idx_None_iff: "find_idx n P = None \<longleftrightarrow> (\<forall>i<n. \<not> P i)"
  by (auto simp: find_idx_def find_None_iff)

lemma find_idx_SomeD: "find_idx n P = Some i \<Longrightarrow> i < n \<and> P i"
  by (simp add: find_idx_Some_iff)

lemma find_idx_unique:
  assumes "i < n" "P i" "\<And>j. j < n \<Longrightarrow> P j \<Longrightarrow> j = i"
  shows "find_idx n P = Some i"
proof -
  have "\<not> P j" if "j < i" for j
    using assms(1) assms(3) [of j] that by auto
  with assms(1,2) show ?thesis by (simp add: find_idx_Some_iff)
qed

lemma find_idx_cong:
  assumes "n = m" "\<And>i. i < m \<Longrightarrow> P i = Q i"
  shows "find_idx n P = find_idx m Q"
  unfolding find_idx_def using assms by (intro find_cong) auto

lemma find_idx_Suc:
  "find_idx (Suc n) P =
     (case find_idx n P of Some i \<Rightarrow> Some i | None \<Rightarrow> if P n then Some n else None)"
proof (cases "find_idx n P")
  case None
  then have "\<forall>i<n. \<not> P i" by (simp add: find_idx_None_iff)
  then have "find_idx (Suc n) P = (if P n then Some n else None)"
    by (auto simp: find_idx_None_iff find_idx_Some_iff less_Suc_eq)
  with None show ?thesis by simp
next
  case (Some i)
  then have "find_idx (Suc n) P = Some i" by (auto simp: find_idx_Some_iff)
  with Some show ?thesis by simp
qed

subsection \<open>Arrays as lists\<close>

lemma length_arr_take [simp]: "length (arr_take n a) = n"
  by (simp add: arr_take_def)

lemma nth_arr_take [simp]: "i < n \<Longrightarrow> arr_take n a ! i = a i"
  by (simp add: arr_take_def)

lemma arr_take_0 [simp]: "arr_take 0 a = []"
  by (simp add: arr_take_def)

lemma set_arr_take: "set (arr_take n a) = a ` {..<n}"
  by (auto simp: arr_take_def)

lemma arr_take_Suc [arr_simps]: "arr_take (Suc n) (a(n := v)) = arr_take n a @ [v]"
  by (simp add: arr_take_def)

lemma arr_take_upd_outside [arr_simps]: "n \<le> k \<Longrightarrow> arr_take n (a(k := v)) = arr_take n a"
  by (simp add: arr_take_def)

lemma arr_take_upd [arr_simps]: "k < n \<Longrightarrow> arr_take n (a(k := v)) = (arr_take n a)[k := v]"
  by (rule nth_equalityI) (auto simp: nth_list_update)

lemma arr_take_cong: "(\<And>i. i < n \<Longrightarrow> a i = b i) \<Longrightarrow> arr_take n a = arr_take n b"
  by (simp add: arr_take_def)

lemma length_remove_nth [simp]: "i < length xs \<Longrightarrow> length (remove_nth i xs) = length xs - 1"
  by (simp add: remove_nth_def)

lemma nth_remove_nth:
  "i < length xs \<Longrightarrow> j < length xs - 1 \<Longrightarrow>
     remove_nth i xs ! j = (if j < i then xs ! j else xs ! Suc j)"
  by (auto simp: remove_nth_def nth_append min_def)

lemma shift_left_loop:
  "fold (\<lambda>j b. b(j := b (Suc j))) [i..<i + k] a =
     (\<lambda>j. if i \<le> j \<and> j < i + k then a (Suc j) else a j)"
proof (induction k)
  case 0
  then show ?case by (auto simp: fun_eq_iff)
next
  case (Suc k)
  then show ?case by (auto simp: fun_eq_iff)
qed

lemma shift_left_apply:
  "shift_left i n a j = (if i \<le> j \<and> j < n - 1 then a (Suc j) else a j)"
proof (cases "i \<le> n - 1")
  case True
  then have "i + (n - 1 - i) = n - 1" by simp
  then have "shift_left i n a = (\<lambda>j. if i \<le> j \<and> j < n - 1 then a (Suc j) else a j)"
    using shift_left_loop [of i "n - 1 - i" a] by (simp only: shift_left_def)
  then show ?thesis by simp
next
  case False
  then show ?thesis by (auto simp: shift_left_def)
qed

lemma arr_take_shift_left [arr_simps]:
  assumes "i < n"
  shows "arr_take (n - 1) (shift_left i n a) = remove_nth i (arr_take n a)"
  by (rule nth_equalityI) (use assms in \<open>auto simp: shift_left_apply nth_remove_nth\<close>)

lemma remove_nth_append [simp]: "remove_nth (length xs) (xs @ [x]) = xs"
  by (simp add: remove_nth_def)

lemma map_remove_nth: "map f (remove_nth i xs) = remove_nth i (map f xs)"
  by (simp add: remove_nth_def take_map drop_map)

lemma zip_remove_nth: "zip (remove_nth i xs) (remove_nth i ys) = remove_nth i (zip xs ys)"
  if "length xs = length ys" for xs :: "'a list" and ys :: "'b list"
  using that by (simp add: remove_nth_def zip_append drop_zip take_zip)

lemma set_remove_nth_subset: "set (remove_nth i xs) \<subseteq> set xs"
  using set_take_subset [of i xs] set_drop_subset [of "Suc i" xs] by (auto simp: remove_nth_def)

lemma distinct_remove_nth [simp]: "distinct xs \<Longrightarrow> distinct (remove_nth i xs)"
  by (metis distinct_append distinct_drop distinct_take remove_nth_def
      set_take_disj_set_drop_if_distinct lessI less_imp_le)

lemma set_remove_nth:
  assumes "distinct xs" "i < length xs"
  shows "set (remove_nth i xs) = set xs - {xs ! i}"
proof -
  from assms(2) have xs: "xs = take i xs @ xs ! i # drop (Suc i) xs"
    by (rule id_take_nth_drop)
  have "xs ! i \<notin> set (take i xs)" "xs ! i \<notin> set (drop (Suc i) xs)"
    using assms(1) xs by (metis distinct_append distinct.simps(2) disjoint_iff list.set_intros(1))+
  then show ?thesis
    by (subst (2) xs) (auto simp: remove_nth_def)
qed

subsection \<open>Tokens and path splitting\<close>

lemma tokens_slash [path_simps]: "tokens (CHR ''/'' # cs) = tokens cs"
  by simp

lemma takeWhile_until: "c \<notin> set cs \<Longrightarrow> takeWhile (\<lambda>x. x \<noteq> c) (cs @ c # b) = cs"
  by (induction cs) auto

lemma dropWhile_until: "c \<notin> set cs \<Longrightarrow> dropWhile (\<lambda>x. x \<noteq> c) (cs @ c # b) = c # b"
  by (induction cs) auto

lemma takeWhile_all: "c \<notin> set cs \<Longrightarrow> takeWhile (\<lambda>x. x \<noteq> c) cs = cs"
  by (induction cs) auto

lemma dropWhile_all: "c \<notin> set cs \<Longrightarrow> dropWhile (\<lambda>x. x \<noteq> c) cs = []"
  by (induction cs) auto

lemmas while_until = takeWhile_until dropWhile_until takeWhile_all dropWhile_all

lemma tokens_append_slash [path_simps]: "tokens (a @ CHR ''/'' # b) = tokens a @ tokens b"
proof (induction a rule: tokens.induct)
  case 1
  then show ?case by simp
next
  case (2 c cs)
  show ?case
  proof (cases "c = CHR ''/''")
    case True
    with 2 show ?thesis by simp
  next
    case False
    show ?thesis
    proof (cases "CHR ''/'' \<in> set cs")
      case True
      then have "takeWhile (\<lambda>x. x \<noteq> CHR ''/'') (cs @ CHR ''/'' # b) = takeWhile (\<lambda>x. x \<noteq> CHR ''/'') cs"
        and "dropWhile (\<lambda>x. x \<noteq> CHR ''/'') (cs @ CHR ''/'' # b)
               = dropWhile (\<lambda>x. x \<noteq> CHR ''/'') cs @ CHR ''/'' # b"
        by auto
      with False 2 show ?thesis by simp
    next
      case no: False
      with False show ?thesis by (simp add: while_until)
    qed
  qed
qed

lemma tokens_single [path_simps]:
  "CHR ''/'' \<notin> set s \<Longrightarrow> tokens s = (if s = [] then [] else [s])"
  by (cases s) (auto simp: while_until)

lemma tokens_no_slash: "t \<in> set (tokens s) \<Longrightarrow> t \<noteq> [] \<and> CHR ''/'' \<notin> set t"
  by (induction s rule: tokens.induct) (auto split: if_splits dest: set_takeWhileD)

lemma strrchr_Some_iff:
  "strrchr s c = Some i \<longleftrightarrow> i < length s \<and> s ! i = c \<and> c \<notin> set (drop (Suc i) s)"
proof -
  have "strrchr s c = Some i \<longleftrightarrow>
    (\<exists>k<length s. s ! (length s - Suc k) = c \<and> i = length s - Suc k \<and>
       (\<forall>j<k. s ! (length s - Suc j) \<noteq> c))"
    by (auto simp: strrchr_def find_Some_iff rev_nth)
  also have "\<dots> \<longleftrightarrow> i < length s \<and> s ! i = c \<and> (\<forall>m. i < m \<longrightarrow> m < length s \<longrightarrow> s ! m \<noteq> c)"
  proof safe
    fix k m
    assume "k < length s" "i = length s - Suc k" "\<forall>j<k. s ! (length s - Suc j) \<noteq> s ! (length s - Suc k)"
      "length s - Suc k < m" "m < length s" "s ! m = s ! (length s - Suc k)"
    then show False
      by (auto dest: spec [of _ "length s - Suc m"])
  next
    assume "i < length s" "\<forall>m. i < m \<longrightarrow> m < length s \<longrightarrow> s ! m \<noteq> s ! i"
    then show "\<exists>k<length s. s ! (length s - Suc k) = s ! i \<and> i = length s - Suc k \<and>
       (\<forall>j<k. s ! (length s - Suc j) \<noteq> s ! i)"
      by (intro exI [of _ "length s - Suc i"]) (auto)
  qed auto
  also have "\<dots> \<longleftrightarrow> i < length s \<and> s ! i = c \<and> c \<notin> set (drop (Suc i) s)"
  proof -
    have "(\<forall>m. i < m \<longrightarrow> m < length s \<longrightarrow> s ! m \<noteq> c) \<longleftrightarrow> c \<notin> set (drop (Suc i) s)" if "i < length s"
    proof
      assume a: "\<forall>m. i < m \<longrightarrow> m < length s \<longrightarrow> s ! m \<noteq> c"
      show "c \<notin> set (drop (Suc i) s)"
        using a by (auto simp: in_set_conv_nth)
    next
      assume a: "c \<notin> set (drop (Suc i) s)"
      show "\<forall>m. i < m \<longrightarrow> m < length s \<longrightarrow> s ! m \<noteq> c"
      proof (intro allI impI notI)
        fix m
        assume m: "i < m" "m < length s" "s ! m = c"
        then have "drop (Suc i) s ! (m - Suc i) = c" "m - Suc i < length (drop (Suc i) s)"
          by auto
        with a show False by (metis nth_mem)
      qed
    qed
    then show ?thesis by blast
  qed
  finally show ?thesis .
qed

lemma strrchr_None_iff: "strrchr s c = None \<longleftrightarrow> c \<notin> set s"
  by (auto simp: strrchr_def find_None_iff in_set_conv_nth)

lemma strrchr_split:
  assumes "strrchr s c = Some i"
  shows "s = take i s @ c # drop (Suc i) s"
  using assms id_take_nth_drop [of i s] by (simp add: strrchr_Some_iff)

subsection \<open>Decimal numbers\<close>

lemma dec_digit_inj: "m < 10 \<Longrightarrow> n < 10 \<Longrightarrow> char_of (48 + m) = (char_of (48 + n) :: char) \<Longrightarrow> m = n"
  for m n :: nat
  by (drule arg_cong [where f = "of_char :: char \<Rightarrow> nat"]) (simp add: take_bit_nat_eq_self)

lemma concat_map_singletons: "(\<And>i. i < n \<Longrightarrow> f i = [g i]) \<Longrightarrow> concat (map f [0..<n]) = map g [0..<n]"
  by (induction n) simp_all

lemma dec_str_ne [simp]: "dec_str n \<noteq> []"
  by (subst dec_str.simps) simp

lemma dec_str_snoc:
  "dec_str n = (if n < 10 then [] else dec_str (n div 10)) @ [char_of (48 + n mod 10)]"
  by (subst dec_str.simps) simp

lemma dec_str_inject: "dec_str m = dec_str n \<longleftrightarrow> m = n"
proof
  show "dec_str m = dec_str n \<Longrightarrow> m = n"
  proof (induction m arbitrary: n rule: dec_str.induct)
    case (1 m)
    from "1.prems" have eq: "(if m < 10 then [] else dec_str (m div 10)) @ [char_of (48 + m mod 10)]
        = (if n < 10 then [] else dec_str (n div 10)) @ [char_of (48 + n mod 10)]"
      by (simp only: dec_str_snoc [of m, symmetric] dec_str_snoc [of n, symmetric])
    then have digit: "m mod 10 = n mod 10"
      by (intro dec_digit_inj) simp_all
    from eq have rest:
      "(if m < 10 then [] else dec_str (m div 10)) = (if n < 10 then [] else dec_str (n div 10))"
      by simp
    show ?case
    proof (cases "m < 10")
      case True
      with rest have "n < 10" by (metis dec_str_ne)
      with True digit show ?thesis by simp
    next
      case False
      with rest have "\<not> n < 10" "dec_str (m div 10) = dec_str (n div 10)"
        by (auto split: if_splits)
      with 1 False have "m div 10 = n div 10" by simp
      with digit show ?thesis by (metis div_mult_mod_eq)
    qed
  qed
qed simp

lemma dec_str_length: "n < 10 ^ k \<Longrightarrow> 0 < k \<Longrightarrow> length (dec_str n) \<le> k"
proof (induction n arbitrary: k rule: dec_str.induct)
  case (1 n)
  show ?case
  proof (cases "n < 10")
    case True
    with 1 show ?thesis by (subst dec_str.simps) simp
  next
    case False
    with 1 obtain k' where k: "k = Suc k'" "0 < k'"
      by (cases k; cases "k - 1") auto
    with 1 False have "n div 10 < 10 ^ k'" by (simp add: less_mult_imp_div_less mult.commute)
    with 1 False k show ?thesis by (subst dec_str.simps) auto
  qed
qed

subsection \<open>Integer conversions\<close>

lemma to_u64_id [simp]: "0 \<le> x \<Longrightarrow> x < 2 ^ 64 \<Longrightarrow> to_u64 x = x"
  by (simp add: to_u64_def)

lemma to_s64_id [simp]: "- (2 ^ 63) \<le> x \<Longrightarrow> x < 2 ^ 63 \<Longrightarrow> to_s64 x = x"
  by (simp add: to_s64_def)

lemma to_s32_id [simp]: "- (2 ^ 31) \<le> x \<Longrightarrow> x < 2 ^ 31 \<Longrightarrow> to_s32 x = x"
  by (simp add: to_s32_def)

section \<open>Results that may be missing\<close>

text \<open>A result, if there is one, satisfies \<open>P\<close>: one rule for each construct that operations with an optional
  result are built from.\<close>

definition returns :: "('a \<Rightarrow> bool) \<Rightarrow> 'a option \<Rightarrow> bool" where
  "returns P q \<longleftrightarrow> (\<forall>x. q = Some x \<longrightarrow> P x)"

lemma returns_rules:
  "P x \<Longrightarrow> returns P (Some x)"
  "(\<And>x. o1 = Some x \<Longrightarrow> returns P (f x)) \<Longrightarrow> returns P (Option.bind o1 f)"
  "(\<And>x. o2 = Some x \<Longrightarrow> P (g x)) \<Longrightarrow> returns P (map_option g o2)"
  "(b \<Longrightarrow> returns P q) \<Longrightarrow> (\<not> b \<Longrightarrow> returns P q') \<Longrightarrow> returns P (if b then q else q')"
  "(o1 = None \<Longrightarrow> returns P q) \<Longrightarrow> (\<And>x. o1 = Some x \<Longrightarrow> returns P (f x)) \<Longrightarrow> returns P (case o1 of None \<Rightarrow> q | Some x \<Rightarrow> f x)"
  "(\<And>x y. z = (x, y) \<Longrightarrow> returns P (h x y)) \<Longrightarrow> returns P (case z of (x, y) \<Rightarrow> h x y)"
  by (auto simp: returns_def bind_eq_Some_conv split: option.splits prod.splits)

lemma returnsD: "returns P q \<Longrightarrow> q = Some x \<Longrightarrow> P x"
  by (simp add: returns_def)

text \<open>The same with the claim that there is a result.\<close>

definition completes :: "('a \<Rightarrow> bool) \<Rightarrow> 'a option \<Rightarrow> bool" where
  "completes P q \<longleftrightarrow> (\<exists>x. q = Some x \<and> P x)"

lemma completes_Some [simp]: "completes P (Some x) = P x"
  by (simp add: completes_def)

lemma completes_bind: "completes Q o1 \<Longrightarrow> (\<And>x. Q x \<Longrightarrow> completes P (f x)) \<Longrightarrow> completes P (Option.bind o1 f)"
  by (auto simp: completes_def)

lemma completes_map [simp]: "completes P (map_option g q) = completes (\<lambda>x. P (g x)) q"
  by (auto simp: completes_def)

lemma completes_mono: "completes P q \<Longrightarrow> (\<And>x. P x \<Longrightarrow> Q x) \<Longrightarrow> completes Q q"
  by (auto simp: completes_def)

lemma completes_conj: "completes P q \<Longrightarrow> (\<And>x. q = Some x \<Longrightarrow> Q x) \<Longrightarrow> completes (\<lambda>x. P x \<and> Q x) q"
  by (auto simp: completes_def)

lemma completes_not_None: "completes (\<lambda>_. True) q \<longleftrightarrow> q \<noteq> None"
  by (auto simp: completes_def)

end
