(* ===== verification/Fused_Ops.thy ===== *)
theory Fused_Ops
  imports Fused_Prelude "HOL-Library.Signed_Division"
begin

text \<open>
  The storage-node file system: \<^verbatim>\<open>include/fused_fs.h\<close>, \<^verbatim>\<open>src/fused_ops.c\<close> and the dispatch
  table of \<^verbatim>\<open>src/fused_main.c\<close>. Every FUSE callback is one definition over the global state
  (\<open>fused_world\<close>: \<^verbatim>\<open>*g_state\<close> and the host directory that holds the backing files); a pointer
  to an inode is the index of its slot in the inode table, and \<^verbatim>\<open>NULL\<close> is \<^term>\<open>None\<close>.
  What the callbacks get from the host (clock, credentials, failures of \<^verbatim>\<open>stdio\<close> calls) is
  the argument \<open>fs_env\<close>. This theory holds the definitions only.
\<close>

section \<open>Data\<close>

abbreviation MAX_PATH :: nat where "MAX_PATH \<equiv> 256"
abbreviation MAX_NAME :: nat where "MAX_NAME \<equiv> 256"
abbreviation MAX_CHILDREN :: nat where "MAX_CHILDREN \<equiv> 256"
abbreviation MAX_INODES :: nat where "MAX_INODES \<equiv> 1024"
abbreviation FUSE_ROOT_ID :: u64 where "FUSE_ROOT_ID \<equiv> 1"

abbreviation S_IFMT :: u32 where "S_IFMT \<equiv> 0xF000"
abbreviation S_IFDIR :: u32 where "S_IFDIR \<equiv> 0x4000"
abbreviation S_IFREG :: u32 where "S_IFREG \<equiv> 0x8000"

definition S_ISDIR :: "u32 \<Rightarrow> bool" where
  "S_ISDIR m \<longleftrightarrow> m AND S_IFMT = S_IFDIR"

abbreviation O_ACCMODE :: u32 where "O_ACCMODE \<equiv> 3"
abbreviation O_WRONLY :: u32 where "O_WRONLY \<equiv> 1"
abbreviation O_RDWR :: u32 where "O_RDWR \<equiv> 2"
abbreviation O_APPEND :: u32 where "O_APPEND \<equiv> 0x400"

abbreviation UTIME_NOW :: int where "UTIME_NOW \<equiv> 0x3FFFFFFF"
abbreviation UTIME_OMIT :: int where "UTIME_OMIT \<equiv> 0x3FFFFFFE"

text \<open>The errors the callbacks return (as \<^verbatim>\<open>-ENOENT\<close>, ...); \<open>SIGSEGV\<close> is a dereference of
  \<^verbatim>\<open>NULL\<close>.\<close>

datatype errno = ENOENT | EEXIST | ENOTDIR | EISDIR | EPERM | EIO | ENOMEM | ENOSPC | ENOTEMPTY
  | EBUSY | SIGSEGV

type_synonym 'a res = "errno + 'a"

record fused_inode =
  ino :: u64
  mode :: u32
  uid :: u32
  gid :: u32
  isize :: off_t
  atime :: time_t
  mtime :: time_t
  ctime :: time_t
  n_children :: nat
  child_names :: "string arr"
  child_inodes :: "u64 arr"
  backing_path :: string

record fused_state =
  inodes :: "fused_inode arr"
  n_inodes :: nat
  backing_dir :: string

type_synonym host_files = "string \<rightharpoonup> byte list"

record fused_world = fused_state +
  files :: host_files

text \<open>\<open>time_at e k\<close> is the value the \<open>k\<close>-th call site of \<^verbatim>\<open>time(NULL)\<close> of an operation returns;
  \<open>fwrite_accepts e k n\<close> bounds what the \<open>k\<close>-th \<^verbatim>\<open>fwrite\<close> of \<open>n\<close> bytes takes. \<^verbatim>\<open>stdio\<close> buffers: of the \<open>n\<close>
  bytes added since the file was opened, \<open>fclose_keeps e n\<close> bounds how many are in it after \<^verbatim>\<open>fclose\<close>.\<close>

record fs_env =
  time_at :: "nat \<Rightarrow> time_t"
  fuse_ctx :: "(u32 \<times> u32) option"
  host_uid :: u32
  host_gid :: u32
  fopen_fails :: "string \<Rightarrow> bool"
  fseek_fails :: bool
  fread_accepts :: "nat \<Rightarrow> nat"
  fwrite_accepts :: "nat \<Rightarrow> nat \<Rightarrow> nat"
  fclose_keeps :: "nat \<Rightarrow> nat"
  unlink_fails :: "string \<Rightarrow> bool"

record stat =
  st_ino :: u64
  st_mode :: u32
  st_nlink :: nat
  st_uid :: u32
  st_gid :: u32
  st_size :: off_t
  st_atime :: time_t
  st_mtime :: time_t
  st_ctime :: time_t
  st_blksize :: nat
  st_blocks :: int

section \<open>Host files (stdio and unlink)\<close>

definition fopen_rb :: "fs_env \<Rightarrow> string \<Rightarrow> host_files \<Rightarrow> byte list option" where
  "fopen_rb e p fs = (if p = [] \<or> fopen_fails e p then None else fs p)"

definition fopen_ab :: "fs_env \<Rightarrow> string \<Rightarrow> host_files \<Rightarrow> host_files option" where
  "fopen_ab e p fs =
     (if p = [] \<or> fopen_fails e p then None
      else Some (fs(p \<mapsto> (case fs p of None \<Rightarrow> [] | Some bs \<Rightarrow> bs))))"

definition fopen_wb :: "fs_env \<Rightarrow> string \<Rightarrow> host_files \<Rightarrow> host_files option" where
  "fopen_wb e p fs = (if p = [] \<or> fopen_fails e p then None else Some (fs(p \<mapsto> [])))"

definition fwrite_count :: "fs_env \<Rightarrow> nat \<Rightarrow> byte list \<Rightarrow> nat" where
  "fwrite_count e k bs = min (length bs) (fwrite_accepts e k (length bs))"

definition fwrite_append :: "fs_env \<Rightarrow> nat \<Rightarrow> byte list \<Rightarrow> string \<Rightarrow> host_files \<Rightarrow> host_files" where
  "fwrite_append e k bs p fs =
     fs(p \<mapsto> (case fs p of None \<Rightarrow> [] | Some old \<Rightarrow> old) @ take (fwrite_count e k bs) bs)"

definition fclose_ab :: "fs_env \<Rightarrow> string \<Rightarrow> host_files \<Rightarrow> host_files \<Rightarrow> host_files" where
  "fclose_ab e p opened fs =
     (case (opened p, fs p) of
        (Some old, Some bs) \<Rightarrow> fs(p \<mapsto> take (length old + fclose_keeps e (length bs - length old)) bs)
      | _ \<Rightarrow> fs)"

definition host_unlink :: "fs_env \<Rightarrow> string \<Rightarrow> host_files \<Rightarrow> host_files" where
  "host_unlink e p fs = (if unlink_fails e p then fs else fs(p := None))"

section \<open>Inode table and path helpers\<close>

definition zero_inode :: fused_inode where
  "zero_inode = \<lparr>ino = 0, mode = 0, uid = 0, gid = 0, isize = 0, atime = 0, mtime = 0, ctime = 0,
     n_children = 0, child_names = (\<lambda>_. []), child_inodes = (\<lambda>_. 0), backing_path = []\<rparr>"

definition upd_inode :: "nat \<Rightarrow> (fused_inode \<Rightarrow> fused_inode) \<Rightarrow> fused_world \<Rightarrow> fused_world" where
  "upd_inode i f w = w\<lparr>inodes := (inodes w)(i := f (inodes w i))\<rparr>"

definition init_root_inode :: "fs_env \<Rightarrow> fused_world \<Rightarrow> fused_world" where
  "init_root_inode e w =
     (upd_inode 0 (\<lambda>r. r\<lparr>ino := FUSE_ROOT_ID, mode := S_IFDIR OR 0x1ED, uid := host_uid e,
        gid := host_gid e, isize := 4096, atime := time_at e 0, mtime := time_at e 0,
        ctime := time_at e 0, n_children := 0\<rparr>) w)\<lparr>n_inodes := 1\<rparr>"

definition fused_init :: "fs_env \<Rightarrow> bool \<Rightarrow> host_files \<Rightarrow> fused_world option" where
  "fused_init e calloc_ok fs =
     (if \<not> calloc_ok then None
      else Some (init_root_inode e
        \<lparr>inodes = (\<lambda>_. zero_inode), n_inodes = 0, backing_dir = ''/tmp/fused_backing'',
         files = fs\<rparr>))"

definition fused_destroy :: "fs_env \<Rightarrow> fused_world option \<Rightarrow> host_files \<Rightarrow> host_files" where
  "fused_destroy e g fs =
     (case g of None \<Rightarrow> fs
      | Some w \<Rightarrow> fold (\<lambda>i fs. if backing_path (inodes w i) \<noteq> []
                               then host_unlink e (backing_path (inodes w i)) fs else fs)
                  [0..<n_inodes w] (files w))"

definition lookup_inode :: "fused_world \<Rightarrow> u64 \<Rightarrow> nat option" where
  "lookup_inode w k = find_idx (n_inodes w) (\<lambda>i. ino (inodes w i) = k)"

text \<open>\<^verbatim>\<open>snprintf(.., MAX_PATH, "%s/inode_%lu", backing_dir, ino)\<close>.\<close>

definition generate_backing_path :: "fused_world \<Rightarrow> u64 \<Rightarrow> string" where
  "generate_backing_path w k =
     strncpy0 (backing_dir w @ ''/inode_'' @ dec_str (unat k)) (MAX_PATH - 1)"

definition find_child :: "fused_inode \<Rightarrow> string \<Rightarrow> nat option" where
  "find_child d name = find_idx (n_children d) (\<lambda>i. child_names d i = name)"

fun walk_path :: "fused_world \<Rightarrow> nat \<Rightarrow> string list \<Rightarrow> nat option" where
  "walk_path w cur [] = Some cur"
| "walk_path w cur (t # ts) =
     (if \<not> S_ISDIR (mode (inodes w cur)) then None
      else case find_child (inodes w cur) t of
             None \<Rightarrow> None
           | Some i \<Rightarrow> (case lookup_inode w (child_inodes (inodes w cur) i) of
                          None \<Rightarrow> None
                        | Some k \<Rightarrow> walk_path w k ts))"

definition path_to_inode :: "fused_world \<Rightarrow> string \<Rightarrow> nat option" where
  "path_to_inode w path =
     (if path = ''/'' then lookup_inode w FUSE_ROOT_ID
      else case lookup_inode w FUSE_ROOT_ID of
             None \<Rightarrow> None
           | Some r \<Rightarrow> walk_path w r (tokens (drop 1 (strncpy0 path (MAX_PATH - 1)))))"

definition alloc_inode :: "fused_world \<Rightarrow> nat option \<times> fused_world" where
  "alloc_inode w =
     (if n_inodes w \<ge> MAX_INODES then (None, w)
      else let i = n_inodes w; k = of_nat (n_inodes w + 1) in
        (Some i, (upd_inode i (\<lambda>_. zero_inode\<lparr>ino := k,
                    backing_path := generate_backing_path w k\<rparr>) w)\<lparr>n_inodes := i + 1\<rparr>))"

definition free_inode :: "fs_env \<Rightarrow> nat \<Rightarrow> fused_world \<Rightarrow> fused_world" where
  "free_inode e i w =
     (let fs = (if backing_path (inodes w i) \<noteq> []
                then host_unlink e (backing_path (inodes w i)) (files w) else files w);
          n = (if i = n_inodes w - 1 then n_inodes w - 1 else n_inodes w)
      in upd_inode i (\<lambda>_. zero_inode) (w\<lparr>files := fs, n_inodes := n\<rparr>))"

definition split_path :: "string \<Rightarrow> string \<times> string" where
  "split_path path =
     (if path = ''/'' then (''/'', [])
      else let temp = strncpy0 path (MAX_PATH - 1) in
        case strrchr temp CHR ''/'' of
          None \<Rightarrow> (''/'', temp)
        | Some i \<Rightarrow> if i = 0 then (''/'', drop (Suc i) temp)
                    else (take i temp, drop (Suc i) temp))"

definition dir_add_entry ::
  "time_t \<Rightarrow> nat option \<Rightarrow> string \<Rightarrow> nat \<Rightarrow> fused_world \<Rightarrow> unit res \<times> fused_world" where
  "dir_add_entry t dir name child w =
     (case dir of
        None \<Rightarrow> (Inl ENOTDIR, w)
      | Some d \<Rightarrow>
         if \<not> S_ISDIR (mode (inodes w d)) then (Inl ENOTDIR, w)
         else if n_children (inodes w d) \<ge> MAX_CHILDREN then (Inl ENOSPC, w)
         else if find_child (inodes w d) name \<noteq> None then (Inl EEXIST, w)
         else (Inr (), upd_inode d (\<lambda>x.
                x\<lparr>child_names := (child_names x)(n_children x := strncpy0 name (MAX_NAME - 1)),
                  child_inodes := (child_inodes x)(n_children x := ino (inodes w child)),
                  n_children := n_children x + 1, mtime := t, ctime := t\<rparr>) w))"

text \<open>The loop both removals run: entry \<open>i\<close> goes, the rest moves one place left.\<close>

definition remove_child :: "nat \<Rightarrow> time_t \<Rightarrow> fused_inode \<Rightarrow> fused_inode" where
  "remove_child i t x =
     x\<lparr>child_names := shift_left i (n_children x) (child_names x),
       child_inodes := shift_left i (n_children x) (child_inodes x),
       n_children := n_children x - 1, mtime := t, ctime := t\<rparr>"

definition dir_rm_entry ::
  "time_t \<Rightarrow> nat option \<Rightarrow> string \<Rightarrow> nat \<Rightarrow> fused_world \<Rightarrow> unit res \<times> fused_world" where
  "dir_rm_entry t dir name child w =
     (case dir of
        None \<Rightarrow> (Inl ENOTDIR, w)
      | Some d \<Rightarrow>
         if \<not> S_ISDIR (mode (inodes w d)) then (Inl ENOTDIR, w)
         else case find_idx (n_children (inodes w d))
                     (\<lambda>i. child_names (inodes w d) i = name \<and>
                          child_inodes (inodes w d) i = ino (inodes w child)) of
                None \<Rightarrow> (Inl ENOENT, w)
              | Some i \<Rightarrow> (Inr (), upd_inode d (remove_child i t) w))"

section \<open>FUSE callbacks\<close>

definition fused_getattr :: "string \<Rightarrow> fused_world \<Rightarrow> stat res" where
  "fused_getattr path w =
     (case path_to_inode w path of
        None \<Rightarrow> Inl ENOENT
      | Some i \<Rightarrow> let x = inodes w i in
          Inr \<lparr>st_ino = ino x, st_mode = mode x, st_nlink = (if S_ISDIR (mode x) then 2 else 1),
               st_uid = uid x, st_gid = gid x, st_size = isize x, st_atime = atime x,
               st_mtime = mtime x, st_ctime = ctime x, st_blksize = 4096,
               st_blocks = (isize x + 511) sdiv 512\<rparr>)"

definition fused_readdir :: "string \<Rightarrow> fused_world \<Rightarrow> string list res" where
  "fused_readdir path w =
     (case path_to_inode w path of
        None \<Rightarrow> Inl ENOENT
      | Some i \<Rightarrow> if \<not> S_ISDIR (mode (inodes w i)) then Inl ENOTDIR
                  else Inr (''.'' # ''..'' #
                    arr_take (n_children (inodes w i)) (child_names (inodes w i))))"

definition fused_open :: "fs_env \<Rightarrow> string \<Rightarrow> u32 \<Rightarrow> fused_world \<Rightarrow> u64 res \<times> fused_world" where
  "fused_open e path flags w =
     (case path_to_inode w path of
        None \<Rightarrow> (Inl ENOENT, w)
      | Some i \<Rightarrow>
         if S_ISDIR (mode (inodes w i)) then (Inl EISDIR, w)
         else if (flags AND O_ACCMODE = O_WRONLY \<or> flags AND O_ACCMODE = O_RDWR)
                 \<and> flags AND O_APPEND = 0 then (Inl EPERM, w)
         else (Inr (ino (inodes w i)), upd_inode i (\<lambda>x. x\<lparr>atime := time_at e 0\<rparr>) w))"

text \<open>\<^verbatim>\<open>offset + to_read > (size_t)inode->size\<close> is computed in unsigned 64-bit arithmetic.\<close>

definition read_amount :: "off_t \<Rightarrow> nat \<Rightarrow> off_t \<Rightarrow> nat" where
  "read_amount offset sz len =
     (if to_u64 (offset + int sz) > to_u64 len then nat (to_u64 (len - offset)) else sz)"

definition fused_read ::
  "fs_env \<Rightarrow> u64 \<Rightarrow> nat \<Rightarrow> off_t \<Rightarrow> fused_world \<Rightarrow> (int \<times> byte list) res \<times> fused_world" where
  "fused_read e fh sz offset w =
     (case lookup_inode w fh of
        None \<Rightarrow> (Inl ENOENT, w)
      | Some i \<Rightarrow>
         if offset \<ge> isize (inodes w i) then (Inr (0, []), w)
         else let to_read = read_amount offset sz (isize (inodes w i)) in
           case fopen_rb e (backing_path (inodes w i)) (files w) of
             None \<Rightarrow> (Inl EIO, w)
           | Some bs \<Rightarrow>
               if offset < 0 \<or> fseek_fails e then (Inl EIO, w)
               else let got = take (min to_read (fread_accepts e to_read)) (drop (nat offset) bs) in
                 (Inr (to_s32 (int (length got)), got),
                  upd_inode i (\<lambda>x. x\<lparr>atime := time_at e 0\<rparr>) w))"

text \<open>The zero-fill loop of \<^verbatim>\<open>fused_write\<close>; \<open>k\<close> counts the \<^verbatim>\<open>fwrite\<close> calls made so far.\<close>

function write_gap ::
  "fs_env \<Rightarrow> nat \<Rightarrow> nat \<Rightarrow> string \<Rightarrow> host_files \<Rightarrow> nat \<times> host_files" where
  "write_gap e k gap p fs =
     (if gap = 0 then (k, fs)
      else let write_size = (if gap > 4096 then 4096 else gap) in
        write_gap e (Suc k) (gap - write_size) p
          (fwrite_append e k (replicate write_size 0) p fs))"
  by pat_completeness auto
termination
  by (relation "measure (\<lambda>(e, k, gap, p, fs). gap)") auto

declare write_gap.simps [simp del]

definition fused_write ::
  "fs_env \<Rightarrow> u64 \<Rightarrow> byte list \<Rightarrow> off_t \<Rightarrow> fused_world \<Rightarrow> int res \<times> fused_world" where
  "fused_write e fh buf offset w =
     (case lookup_inode w fh of
        None \<Rightarrow> (Inl ENOENT, w)
      | Some i \<Rightarrow>
         let len = isize (inodes w i); p = backing_path (inodes w i) in
         if offset < len then (Inl EPERM, w)
         else case fopen_ab e p (files w) of
                None \<Rightarrow> (Inl EIO, w)
              | Some fs \<Rightarrow>
                  let (k, fs1) = (if offset > len then write_gap e 0 (nat (to_u64 (offset - len))) p fs
                                  else (0, fs));
                      n = fwrite_count e k buf;
                      w1 = w\<lparr>files := fclose_ab e p fs (fwrite_append e k buf p fs1)\<rparr>
                  in if n \<noteq> length buf then (Inl EIO, w1)
                     else (Inr (to_s32 (int n)),
                           upd_inode i (\<lambda>x. x\<lparr>isize := to_s64 (offset + int n),
                             mtime := time_at e 0, ctime := time_at e 1\<rparr>) w1))"

definition owner_of :: "fs_env \<Rightarrow> u32 \<times> u32" where
  "owner_of e = (case fuse_ctx e of Some c \<Rightarrow> c | None \<Rightarrow> (host_uid e, host_gid e))"

definition fused_create :: "fs_env \<Rightarrow> string \<Rightarrow> u32 \<Rightarrow> fused_world \<Rightarrow> u64 res \<times> fused_world" where
  "fused_create e path md w =
     (if path_to_inode w path \<noteq> None then (Inl EEXIST, w)
      else let (parent_path, child_name) = split_path path; parent = path_to_inode w parent_path in
        case parent of
          None \<Rightarrow> (Inl ENOENT, w)
        | Some d \<Rightarrow>
          if \<not> S_ISDIR (mode (inodes w d)) then (Inl ENOENT, w)
          else case alloc_inode w of
            (None, w1) \<Rightarrow> (Inl ENOMEM, w1)
          | (Some i, w1) \<Rightarrow>
             let w2 = upd_inode i (\<lambda>x. x\<lparr>mode := S_IFREG OR (md AND 0x1FF),
                        uid := fst (owner_of e), gid := snd (owner_of e), isize := 0,
                        atime := time_at e 0, mtime := time_at e 0, ctime := time_at e 0\<rparr>) w1
             in case fopen_wb e (backing_path (inodes w2 i)) (files w2) of
                  None \<Rightarrow> (Inl EIO, free_inode e i w2)
                | Some fs \<Rightarrow>
                    (case dir_add_entry (time_at e 1) parent child_name i (w2\<lparr>files := fs\<rparr>) of
                       (Inl err, w3) \<Rightarrow> (Inl err, free_inode e i w3)
                     | (Inr _, w3) \<Rightarrow> (Inr (ino (inodes w3 i)), w3)))"

definition fused_utimens ::
  "fs_env \<Rightarrow> string \<Rightarrow> time_t \<times> int \<Rightarrow> time_t \<times> int \<Rightarrow> fused_world \<Rightarrow> unit res \<times> fused_world" where
  "fused_utimens e path tv0 tv1 w =
     (case path_to_inode w path of
        None \<Rightarrow> (Inl ENOENT, w)
      | Some i \<Rightarrow>
         (Inr (), upd_inode i (\<lambda>x. x\<lparr>
            atime := (if snd tv0 = UTIME_NOW then time_at e 0
                      else if snd tv0 \<noteq> UTIME_OMIT then fst tv0 else atime x),
            mtime := (if snd tv1 = UTIME_NOW then time_at e 1
                      else if snd tv1 \<noteq> UTIME_OMIT then fst tv1 else mtime x),
            ctime := time_at e 2\<rparr>) w))"

definition fused_mkdir :: "fs_env \<Rightarrow> string \<Rightarrow> u32 \<Rightarrow> fused_world \<Rightarrow> unit res \<times> fused_world" where
  "fused_mkdir e path md w =
     (if path_to_inode w path \<noteq> None then (Inl EEXIST, w)
      else let (parent_path, dir_name) = split_path path; parent = path_to_inode w parent_path in
        case parent of
          None \<Rightarrow> (Inl ENOENT, w)
        | Some d \<Rightarrow>
          if \<not> S_ISDIR (mode (inodes w d)) then (Inl ENOENT, w)
          else case alloc_inode w of
            (None, w1) \<Rightarrow> (Inl ENOMEM, w1)
          | (Some i, w1) \<Rightarrow>
             let w2 = upd_inode i (\<lambda>x. x\<lparr>mode := S_IFDIR OR (md AND 0x1FF),
                        uid := fst (owner_of e), gid := snd (owner_of e), isize := 4096,
                        atime := time_at e 0, mtime := time_at e 0, ctime := time_at e 0,
                        n_children := 0\<rparr>) w1
             in case dir_add_entry (time_at e 1) parent dir_name i w2 of
                  (Inl err, w3) \<Rightarrow> (Inl err, free_inode e i w3)
                | (Inr _, w3) \<Rightarrow> (Inr (), w3))"

definition fused_rmdir :: "fs_env \<Rightarrow> string \<Rightarrow> fused_world \<Rightarrow> unit res \<times> fused_world" where
  "fused_rmdir e path w =
     (if path = ''/'' then (Inl EBUSY, w)
      else case path_to_inode w path of
        None \<Rightarrow> (Inl ENOENT, w)
      | Some i \<Rightarrow>
         if \<not> S_ISDIR (mode (inodes w i)) then (Inl ENOTDIR, w)
         else if n_children (inodes w i) > 0 then (Inl ENOTEMPTY, w)
         else let path_copy = strncpy0 path (MAX_PATH - 1) in
           case strrchr path_copy CHR ''/'' of
             None \<Rightarrow> (Inl SIGSEGV, w)
           | Some s \<Rightarrow>
              let parent_path = (if s = 0 then ''/'' else take s path_copy);
                  dir_name = drop (Suc s) path_copy
              in case path_to_inode w parent_path of
                   None \<Rightarrow> (Inl ENOENT, w)
                 | Some d \<Rightarrow>
                    (case find_child (inodes w d) dir_name of
                       None \<Rightarrow> (Inl ENOENT, w)
                     | Some j \<Rightarrow>
                        (Inr (), upd_inode i (\<lambda>_. zero_inode)
                                   (upd_inode d (remove_child j (time_at e 0)) w))))"

definition fused_rename :: "fs_env \<Rightarrow> string \<Rightarrow> string \<Rightarrow> fused_world \<Rightarrow> unit res \<times> fused_world" where
  "fused_rename e from to w =
     (if from = to then (Inr (), w)
      else case path_to_inode w from of
        None \<Rightarrow> (Inl ENOENT, w)
      | Some i \<Rightarrow>
         if path_to_inode w to \<noteq> None then (Inl EEXIST, w)
         else let (src_path, src_name) = split_path from; (dest_path, dest_name) = split_path to;
                  src_parent = path_to_inode w src_path; dest_parent = path_to_inode w dest_path
           in case dir_add_entry (time_at e 0) dest_parent dest_name i w of
                (Inl err, w1) \<Rightarrow> (Inl err, w1)
              | (Inr _, w1) \<Rightarrow>
                 (case dir_rm_entry (time_at e 1) src_parent src_name i w1 of
                    (Inl err, w2) \<Rightarrow>
                      (Inl err, snd (dir_rm_entry (time_at e 1) dest_parent dest_name i w2))
                  | (Inr _, w2) \<Rightarrow>
                      (Inr (), upd_inode i (\<lambda>x. x\<lparr>atime := time_at e 2, mtime := time_at e 2\<rparr>) w2)))"

definition fused_unlink :: "fs_env \<Rightarrow> string \<Rightarrow> fused_world \<Rightarrow> unit res \<times> fused_world" where
  "fused_unlink e path w =
     (case path_to_inode w path of
        None \<Rightarrow> (Inl ENOENT, w)
      | Some i \<Rightarrow>
         let (parent_path, child_name) = split_path path; parent = path_to_inode w parent_path in
         case parent of
           None \<Rightarrow> (Inl ENOENT, w)
         | Some d \<Rightarrow>
            if \<not> S_ISDIR (mode (inodes w d)) then (Inl ENOENT, w)
            else case dir_rm_entry (time_at e 0) parent child_name i w of
                   (Inl err, w1) \<Rightarrow> (Inl err, w1)
                 | (Inr _, w1) \<Rightarrow> (Inr (), free_inode e i w1))"

section \<open>The dispatch table\<close>

datatype fs_op =
    Getattr string
  | Readdir string
  | Open string u32
  | Read u64 nat off_t
  | Write u64 "byte list" off_t
  | Create string u32
  | Mkdir string u32
  | Rmdir string
  | Rename string string
  | Utimens string "time_t \<times> int" "time_t \<times> int"
  | Unlink string

datatype fs_reply =
    RStat "stat res" | RNames "string list res" | RHandle "u64 res" | RData "(int \<times> byte list) res"
  | RCount "int res" | RUnit "unit res"

fun fused_oper :: "fs_env \<Rightarrow> fs_op \<Rightarrow> fused_world \<Rightarrow> fs_reply \<times> fused_world" where
  "fused_oper e (Getattr p) w = (RStat (fused_getattr p w), w)"
| "fused_oper e (Readdir p) w = (RNames (fused_readdir p w), w)"
| "fused_oper e (Open p fl) w = (let (r, w1) = fused_open e p fl w in (RHandle r, w1))"
| "fused_oper e (Read fh n off) w = (let (r, w1) = fused_read e fh n off w in (RData r, w1))"
| "fused_oper e (Write fh bs off) w = (let (r, w1) = fused_write e fh bs off w in (RCount r, w1))"
| "fused_oper e (Create p md) w = (let (r, w1) = fused_create e p md w in (RHandle r, w1))"
| "fused_oper e (Mkdir p md) w = (let (r, w1) = fused_mkdir e p md w in (RUnit r, w1))"
| "fused_oper e (Rmdir p) w = (let (r, w1) = fused_rmdir e p w in (RUnit r, w1))"
| "fused_oper e (Rename p q) w = (let (r, w1) = fused_rename e p q w in (RUnit r, w1))"
| "fused_oper e (Utimens p t0 t1) w = (let (r, w1) = fused_utimens e p t0 t1 w in (RUnit r, w1))"
| "fused_oper e (Unlink p) w = (let (r, w1) = fused_unlink e p w in (RUnit r, w1))"

text \<open>The states a mounted file system passes through: a successful \<^verbatim>\<open>fused_init\<close>, then
  callbacks in any order, each with its own answers from the host.\<close>

inductive fs_reachable :: "fused_world \<Rightarrow> bool" where
  mounted: "fused_init e True fs = Some w \<Longrightarrow> fs_reachable w"
| callback: "fs_reachable w \<Longrightarrow> fs_reachable (snd (fused_oper e opr w))"

end
