(* ===== verification/Rpc_Server.thy ===== *)
theory Rpc_Server
  imports Fused_Ops
begin

text \<open>
  The RPC server of a storage node, \<^verbatim>\<open>src/fused_rpc_server.cpp\<close>: each handler of
  \<^verbatim>\<open>FileSystemServiceImpl\<close> is a definition over the file system of \<open>Fused_Ops\<close>, composed of the same
  callbacks. A handler returns the fields of its response message; the error text is a definition of its own
  (\<open>rpc_Write_text\<close> and the others, over the host's \<^verbatim>\<open>strerror\<close>). gRPC itself is not modelled.
  \<open>e k\<close> is what the host answers to the \<open>k\<close>-th callback of a request.
\<close>

section \<open>Data\<close>

text \<open>The error numbers the handlers put in a response. \<^const>\<open>SIGSEGV\<close> is not one: only
  \<^verbatim>\<open>fused_rmdir\<close> dereferences \<^verbatim>\<open>NULL\<close>, which the server does not offer.\<close>

fun errno_code :: "errno \<Rightarrow> int" where
  "errno_code EPERM = 1" | "errno_code ENOENT = 2" | "errno_code EIO = 5" | "errno_code ENOMEM = 12"
| "errno_code EBUSY = 16" | "errno_code EEXIST = 17" | "errno_code ENOTDIR = 20" | "errno_code EISDIR = 21"
| "errno_code ENOSPC = 28" | "errno_code ENOTEMPTY = 39" | "errno_code SIGSEGV = 139"

record write_reply =
  w_status :: int
  w_bytes :: int

record get_reply =
  g_status :: int
  g_data :: "byte list"
  g_bytes :: int

record file_entry =
  e_name :: string
  e_is_directory :: bool
  e_size :: int
  e_mtime :: int

text \<open>\<^verbatim>\<open>s.c_str()\<close> as the C code sees it.\<close>

definition c_str :: "string \<Rightarrow> string" where
  "c_str s = takeWhile (\<lambda>c. c \<noteq> CHR 0x00) s"

section \<open>Paths\<close>

definition rpc_normalize_path :: "string \<Rightarrow> string" where
  "rpc_normalize_path path =
     (if take 10 path = ''/mnt/fused'' then (if drop 10 path = [] then ''/'' else drop 10 path)
      else if path = [] then ''/''
      else if hd path \<noteq> CHR ''/'' then CHR ''/'' # path
      else path)"

definition rpc_full_path :: "string \<Rightarrow> string \<Rightarrow> string" where
  "rpc_full_path parent name = (if last parent \<noteq> CHR ''/'' then parent @ ''/'' else parent) @ name"

section \<open>Start\<close>

definition rpc_start :: "fs_env \<Rightarrow> bool \<Rightarrow> bool \<Rightarrow> host_files \<Rightarrow> fused_world option" where
  "rpc_start e calloc_ok mkdir_ok fs =
     (if \<not> calloc_ok \<or> \<not> mkdir_ok then None
      else Some (init_root_inode e
        \<lparr>inodes = (\<lambda>_. zero_inode), n_inodes = 0, backing_dir = ''/tmp/fused_backing'', files = fs\<rparr>))"

section \<open>Handlers\<close>

definition rpc_write_inode :: "fs_env \<Rightarrow> nat \<Rightarrow> byte list \<Rightarrow> off_t \<Rightarrow> fused_world \<Rightarrow> write_reply \<times> fused_world" where
  "rpc_write_inode e i data offset w =
     (case fused_write e (ino (inodes w i)) data offset w of
        (Inl err, w1) \<Rightarrow> (\<lparr>w_status = - errno_code err, w_bytes = 0\<rparr>, w1)
      | (Inr result, w1) \<Rightarrow>
          (if result < 0 then \<lparr>w_status = result, w_bytes = 0\<rparr> else \<lparr>w_status = 0, w_bytes = result\<rparr>, w1))"

definition rpc_Write ::
  "(nat \<Rightarrow> fs_env) \<Rightarrow> string \<Rightarrow> byte list \<Rightarrow> off_t \<Rightarrow> fused_world \<Rightarrow> write_reply \<times> fused_world" where
  "rpc_Write e pathname data offset w =
     (let path = c_str (rpc_normalize_path pathname) in
      case path_to_inode w path of
        Some i \<Rightarrow> rpc_write_inode (e 1) i data offset w
      | None \<Rightarrow>
          (case fused_create (e 0) path 0x1A4 w of
             (Inl err, w1) \<Rightarrow> (\<lparr>w_status = - errno_code err, w_bytes = 0\<rparr>, w1)
           | (Inr fh, w1) \<Rightarrow>
               (case path_to_inode w1 path of
                  None \<Rightarrow> (\<lparr>w_status = - errno_code EIO, w_bytes = 0\<rparr>, w1)
                | Some i \<Rightarrow> rpc_write_inode (e 1) i data offset w1)))"

text \<open>\<^term>\<open>None\<close>: the buffer cannot be allocated and the call fails with an exception. \<open>size\<close> is
  the request's \<^verbatim>\<open>int64\<close>.\<close>

definition rpc_Get ::
  "(nat \<Rightarrow> fs_env) \<Rightarrow> (nat \<Rightarrow> bool) \<Rightarrow> string \<Rightarrow> off_t \<Rightarrow> int \<Rightarrow> fused_world \<Rightarrow> (get_reply \<times> fused_world) option" where
  "rpc_Get e alloc_ok pathname offset sz w =
     (case path_to_inode w (c_str (rpc_normalize_path pathname)) of
        None \<Rightarrow> Some (\<lparr>g_status = - errno_code ENOENT, g_data = [], g_bytes = 0\<rparr>, w)
      | Some i \<Rightarrow>
         let len = isize (inodes w i);
             n = (if sz = 0 then if offset < len then nat (to_u64 (len - offset)) else 0 else nat (to_u64 sz))
         in if \<not> alloc_ok n then None
            else Some (case fused_read (e 0) (ino (inodes w i)) n offset w of
                   (Inl err, w1) \<Rightarrow> (\<lparr>g_status = - errno_code err, g_data = [], g_bytes = 0\<rparr>, w1)
                 | (Inr (result, bs), w1) \<Rightarrow>
                     (if result < 0 then \<lparr>g_status = result, g_data = [], g_bytes = 0\<rparr>
                      else \<lparr>g_status = 0, g_data = take (nat result) bs, g_bytes = result\<rparr>, w1)))"

definition rpc_ReadDirectory :: "string \<Rightarrow> fused_world \<Rightarrow> int \<times> file_entry list" where
  "rpc_ReadDirectory pathname w =
     (case path_to_inode w (c_str (rpc_normalize_path pathname)) of
        None \<Rightarrow> (- errno_code ENOENT, [])
      | Some d \<Rightarrow>
         if \<not> S_ISDIR (mode (inodes w d)) then (- errno_code ENOTDIR, [])
         else (0, concat (map (\<lambda>i. case lookup_inode w (child_inodes (inodes w d) i) of
                                     None \<Rightarrow> []
                                   | Some c \<Rightarrow> [\<lparr>e_name = child_names (inodes w d) i, e_is_directory = S_ISDIR (mode (inodes w c)),
                                                 e_size = isize (inodes w c), e_mtime = mtime (inodes w c)\<rparr>])
                      [0..<n_children (inodes w d)])))"

definition res_status :: "'a res \<Rightarrow> int" where
  "res_status r = (case r of Inl err \<Rightarrow> - errno_code err | Inr _ \<Rightarrow> 0)"

definition rpc_Remove :: "(nat \<Rightarrow> fs_env) \<Rightarrow> string \<Rightarrow> fused_world \<Rightarrow> int \<times> fused_world" where
  "rpc_Remove e pathname w =
     (let (r, w1) = fused_unlink (e 0) (c_str (rpc_normalize_path pathname)) w in (res_status r, w1))"

definition rpc_Create :: "(nat \<Rightarrow> fs_env) \<Rightarrow> string \<Rightarrow> string \<Rightarrow> u32 \<Rightarrow> fused_world \<Rightarrow> int \<times> fused_world" where
  "rpc_Create e pathname filename md w =
     (let (r, w1) = fused_create (e 0) (c_str (rpc_full_path (rpc_normalize_path pathname) filename)) md w
      in (res_status r, w1))"

definition rpc_Mkdir :: "(nat \<Rightarrow> fs_env) \<Rightarrow> string \<Rightarrow> string \<Rightarrow> u32 \<Rightarrow> fused_world \<Rightarrow> int \<times> fused_world" where
  "rpc_Mkdir e pathname dirname md w =
     (let (r, w1) = fused_mkdir (e 0) (c_str (rpc_full_path (rpc_normalize_path pathname) dirname)) md w
      in (res_status r, w1))"

section \<open>Error texts\<close>

text \<open>\<^verbatim>\<open>error_message\<close> of a response with the status \<open>st\<close>; the text is empty unless the handler sets it.\<close>

definition rpc_error_text :: "(int \<Rightarrow> string) \<Rightarrow> int \<Rightarrow> string" where
  "rpc_error_text strerror st = (if st < 0 then strerror (- st) else [])"

definition rpc_Write_text :: "(int \<Rightarrow> string) \<Rightarrow> (nat \<Rightarrow> fs_env) \<Rightarrow> string \<Rightarrow> fused_world \<Rightarrow> int \<Rightarrow> string" where
  "rpc_Write_text strerror e pathname w st =
     (let path = c_str (rpc_normalize_path pathname) in
      case path_to_inode w path of
        Some i \<Rightarrow> rpc_error_text strerror st
      | None \<Rightarrow>
          (case fused_create (e 0) path 0x1A4 w of
             (Inl err, w1) \<Rightarrow> ''Failed to create file''
           | (Inr fh, w1) \<Rightarrow>
               (case path_to_inode w1 path of
                  None \<Rightarrow> ''Failed to get inode after creation''
                | Some i \<Rightarrow> rpc_error_text strerror st)))"

definition rpc_Get_text :: "(int \<Rightarrow> string) \<Rightarrow> string \<Rightarrow> fused_world \<Rightarrow> int \<Rightarrow> string" where
  "rpc_Get_text strerror pathname w st =
     (if path_to_inode w (c_str (rpc_normalize_path pathname)) = None then ''File not found''
      else rpc_error_text strerror st)"

definition rpc_ReadDirectory_text :: "string \<Rightarrow> fused_world \<Rightarrow> string" where
  "rpc_ReadDirectory_text pathname w =
     (case path_to_inode w (c_str (rpc_normalize_path pathname)) of
        None \<Rightarrow> ''Directory not found''
      | Some d \<Rightarrow> if \<not> S_ISDIR (mode (inodes w d)) then ''Not a directory'' else [])"

section \<open>Requests\<close>

datatype rpc_request =
    RpcWrite string "byte list" off_t
  | RpcGet string off_t int
  | RpcReadDirectory string
  | RpcRemove string
  | RpcCreate string string u32
  | RpcMkdir string string u32

text \<open>The state after a request.\<close>

fun rpc_serve :: "(nat \<Rightarrow> fs_env) \<Rightarrow> (nat \<Rightarrow> bool) \<Rightarrow> rpc_request \<Rightarrow> fused_world \<Rightarrow> fused_world" where
  "rpc_serve e al (RpcWrite p d off) w = snd (rpc_Write e p d off w)"
| "rpc_serve e al (RpcGet p off n) w = (case rpc_Get e al p off n w of None \<Rightarrow> w | Some (r, w1) \<Rightarrow> w1)"
| "rpc_serve e al (RpcReadDirectory p) w = w"
| "rpc_serve e al (RpcRemove p) w = snd (rpc_Remove e p w)"
| "rpc_serve e al (RpcCreate p n md) w = snd (rpc_Create e p n md w)"
| "rpc_serve e al (RpcMkdir p n md) w = snd (rpc_Mkdir e p n md w)"

inductive rpc_reachable :: "fused_world \<Rightarrow> bool" where
  started: "rpc_start e True True fs = Some w \<Longrightarrow> rpc_reachable w"
| served: "rpc_reachable w \<Longrightarrow> rpc_reachable (rpc_serve e al req w)"

end
