(* ===== verification/Byte_Codec.thy ===== *)
theory Byte_Codec
  imports Fused_Prelude
begin

text \<open>
  Object representations. The sources write structs to sockets and to the write-ahead log with
  \<^verbatim>\<open>memcpy\<close>/\<^verbatim>\<open>write\<close> of the struct's bytes, so their wire formats are the x86-64 System V
  layouts of the structs: little-endian scalars at the ABI's offsets, padding between them, char
  arrays padded with zeros. This theory holds the scalar and array encodings and the interface
  \<open>fixed_codec\<close> they all satisfy: a value of fixed width that decodes to itself.
\<close>

section \<open>Definitions\<close>

definition le_bytes :: "nat \<Rightarrow> 'a::len word \<Rightarrow> byte list" where
  "le_bytes n w = map (\<lambda>i. ucast (drop_bit (8 * i) w)) [0..<n]"

fun le_word :: "byte list \<Rightarrow> 'a::len word" where
  "le_word [] = 0"
| "le_word (b # bs) = ucast b OR push_bit 8 (le_word bs)"

definition u16_enc :: "u16 \<Rightarrow> byte list" where "u16_enc = le_bytes 2"
definition u32_enc :: "u32 \<Rightarrow> byte list" where "u32_enc = le_bytes 4"
definition u64_enc :: "u64 \<Rightarrow> byte list" where "u64_enc = le_bytes 8"
definition u16_dec :: "byte list \<Rightarrow> u16" where "u16_dec = le_word"
definition u32_dec :: "byte list \<Rightarrow> u32" where "u32_dec = le_word"
definition u64_dec :: "byte list \<Rightarrow> u64" where "u64_dec = le_word"

text \<open>A \<^verbatim>\<open>char[n]\<close> that holds a C string in zeroed memory.\<close>

definition byte_of_char :: "char \<Rightarrow> byte" where
  "byte_of_char c = of_nat (of_char c)"

definition char_of_byte :: "byte \<Rightarrow> char" where
  "char_of_byte b = char_of (unat b)"

definition str_bytes :: "string \<Rightarrow> byte list" where
  "str_bytes s = map byte_of_char s"

definition cbuf_enc :: "nat \<Rightarrow> string \<Rightarrow> byte list" where
  "cbuf_enc n s = map byte_of_char s @ replicate (n - length s) 0"

definition cbuf_dec :: "byte list \<Rightarrow> string" where
  "cbuf_dec bs = map char_of_byte (takeWhile (\<lambda>b. b \<noteq> 0) bs)"

definition cbuf_ok :: "nat \<Rightarrow> string \<Rightarrow> bool" where
  "cbuf_ok n s \<longleftrightarrow> length s < n \<and> CHR 0x00 \<notin> set s"

text \<open>An array of \<open>n\<close> elements of width \<open>w\<close>, one after the other.\<close>

definition arr_enc :: "('a \<Rightarrow> byte list) \<Rightarrow> 'a list \<Rightarrow> byte list" where
  "arr_enc enc xs = concat (map enc xs)"

fun arr_dec :: "(byte list \<Rightarrow> 'a) \<Rightarrow> nat \<Rightarrow> nat \<Rightarrow> byte list \<Rightarrow> 'a list" where
  "arr_dec dec w 0 bs = []"
| "arr_dec dec w (Suc n) bs = dec (take w bs) # arr_dec dec w n (drop w bs)"

text \<open>The bytes of a field at an offset.\<close>

definition slice :: "nat \<Rightarrow> nat \<Rightarrow> byte list \<Rightarrow> byte list" where
  "slice off n bs = take n (drop off bs)"

text \<open>\<^verbatim>\<open>memcpy(dst, src, n)\<close> at the start of an object whose bytes are \<open>dst\<close>.\<close>

definition overwrite :: "byte list \<Rightarrow> byte list \<Rightarrow> byte list" where
  "overwrite src dst = src @ drop (length src) dst"

section \<open>The interface of a fixed-width encoding\<close>

locale fixed_codec =
  fixes enc :: "'a \<Rightarrow> byte list" and dec :: "byte list \<Rightarrow> 'a" and width :: nat
    and ok :: "'a \<Rightarrow> bool"
  assumes enc_length: "ok x \<Longrightarrow> length (enc x) = width"
    and dec_enc: "ok x \<Longrightarrow> dec (enc x) = x"
begin

lemma dec_take: "ok x \<Longrightarrow> dec (take width (enc x @ rest)) = x"
  by (simp add: enc_length dec_enc)

lemma drop_enc: "ok x \<Longrightarrow> drop width (enc x @ rest) = rest"
  by (simp add: enc_length)

lemma enc_inject: "ok x \<Longrightarrow> ok y \<Longrightarrow> enc x = enc y \<longleftrightarrow> x = y"
  by (metis dec_enc)

text \<open>Fields written one after the other are read back independently.\<close>

lemma enc_append_inject:
  assumes "ok x" "ok y" "enc x @ r = enc y @ s"
  shows "x = y \<and> r = s"
  using assms by (metis dec_take drop_enc)

lemma arr_enc_length: "(\<And>x. x \<in> set xs \<Longrightarrow> ok x) \<Longrightarrow> length (arr_enc enc xs) = width * length xs"
  by (induction xs) (auto simp: arr_enc_def enc_length)

lemma arr_dec_enc:
  "(\<And>x. x \<in> set xs \<Longrightarrow> ok x) \<Longrightarrow> arr_dec dec width (length xs) (arr_enc enc xs @ rest) = xs"
proof (induction xs)
  case Nil
  then show ?case by simp
next
  case (Cons x xs)
  then have "ok x" by simp
  then have "length (enc x) = width" "dec (enc x) = x" by (simp_all add: enc_length dec_enc)
  with Cons show ?case
    by (simp add: arr_enc_def)
qed

end

section \<open>Lemmas\<close>

subsection \<open>Scalars\<close>

lemma length_le_bytes [codec_simps]: "length (le_bytes n w) = n"
  by (simp add: le_bytes_def)

lemma bit_le_word:
  "bit (le_word bs :: 'a::len word) k \<longleftrightarrow>
     k < LENGTH('a) \<and> k div 8 < length bs \<and> bit (bs ! (k div 8)) (k mod 8)"
proof (induction bs arbitrary: k)
  case Nil
  then show ?case by simp
next
  case (Cons b bs)
  show ?case
  proof (cases "k < 8")
    case True
    then show ?thesis
      by (auto simp: bit_or_iff bit_push_bit_iff bit_ucast_iff dest: bit_imp_le_length)
  next
    case False
    then obtain m where m: "k = m + 8" by (metis le_add_diff_inverse2 not_less)
    have "\<not> bit b (m + 8)" by (auto dest: bit_imp_le_length)
    moreover have "(m + 8) div 8 = Suc (m div 8)" by simp
    ultimately show ?thesis
      by (auto simp del: div_add_self2 simp: m bit_or_iff bit_push_bit_iff bit_ucast_iff Cons)
  qed
qed

lemma le_word_le_bytes:
  fixes w :: "'a::len word"
  assumes "LENGTH('a) = 8 * n"
  shows "le_word (le_bytes n w) = w"
proof (rule bit_eqI)
  fix k
  assume "possible_bit TYPE('a word) k"
  then have k: "k < LENGTH('a)" by simp
  with assms have "k div 8 < n" by auto
  then show "bit (le_word (le_bytes n w) :: 'a word) k \<longleftrightarrow> bit w k"
    using k assms
    by (auto simp: bit_le_word length_le_bytes le_bytes_def bit_ucast_iff bit_drop_bit_eq)
qed

interpretation c16: fixed_codec u16_enc u16_dec 2 "\<lambda>_. True"
  by unfold_locales (simp_all add: u16_enc_def u16_dec_def length_le_bytes le_word_le_bytes)

interpretation c32: fixed_codec u32_enc u32_dec 4 "\<lambda>_. True"
  by unfold_locales (simp_all add: u32_enc_def u32_dec_def length_le_bytes le_word_le_bytes)

interpretation c64: fixed_codec u64_enc u64_dec 8 "\<lambda>_. True"
  by unfold_locales (simp_all add: u64_enc_def u64_dec_def length_le_bytes le_word_le_bytes)

lemmas scalar_codecs [codec_simps] =
  c16.enc_length [OF TrueI] c32.enc_length [OF TrueI] c64.enc_length [OF TrueI]
  c16.dec_enc [OF TrueI] c32.dec_enc [OF TrueI] c64.dec_enc [OF TrueI]

subsection \<open>Character buffers\<close>

lemma char_of_byte_of_char [simp]: "char_of_byte (byte_of_char c) = c"
proof -
  have "of_char c < (256 :: nat)" by simp
  then show ?thesis by (simp add: char_of_byte_def byte_of_char_def unat_of_nat)
qed

lemma str_bytes_chars: "map char_of_byte (str_bytes s) = s"
  by (simp add: str_bytes_def o_def)

lemma byte_of_char_eq_0_iff [simp]: "byte_of_char c = 0 \<longleftrightarrow> c = CHR 0x00"
proof
  assume b0: "byte_of_char c = 0"
  have "c = char_of_byte (byte_of_char c)" by (rule char_of_byte_of_char [symmetric])
  also have "\<dots> = CHR 0x00" by (simp only: b0) (simp add: char_of_byte_def char_of_def)
  finally show "c = CHR 0x00" .
qed (simp add: byte_of_char_def)

lemma takeWhile_cbuf:
  "CHR 0x00 \<notin> set s \<Longrightarrow> takeWhile (\<lambda>b. b \<noteq> 0) (map byte_of_char s @ replicate k 0) = map byte_of_char s"
  by (induction s) (auto simp: takeWhile_eq_Nil_iff hd_append)

lemma cbuf_codec: "fixed_codec (cbuf_enc n) cbuf_dec n (cbuf_ok n)"
  by unfold_locales (auto simp: cbuf_enc_def cbuf_dec_def cbuf_ok_def takeWhile_cbuf o_def)

interpretation cbuf: fixed_codec "cbuf_enc n" cbuf_dec n "cbuf_ok n" for n
  by (rule cbuf_codec)

lemmas cbuf_codecs [codec_simps] = cbuf.enc_length cbuf.dec_enc

subsection \<open>Slices of a concatenation\<close>

lemma slice_append1 [codec_simps]:
  "off + n \<le> length xs \<Longrightarrow> slice off n (xs @ ys) = slice off n xs"
  by (simp add: slice_def)

lemma slice_append2 [codec_simps]:
  "length xs \<le> off \<Longrightarrow> slice off n (xs @ ys) = slice (off - length xs) n ys"
  by (simp add: slice_def)

lemma slice_whole [codec_simps]: "length xs = n \<Longrightarrow> slice 0 n xs = xs"
  by (simp add: slice_def)

lemma length_slice [codec_simps]: "off + n \<le> length bs \<Longrightarrow> length (slice off n bs) = n"
  by (simp add: slice_def)

lemma slice_overwrite [codec_simps]:
  "off + n \<le> length src \<Longrightarrow> slice off n (overwrite src dst) = slice off n src"
  by (simp add: overwrite_def slice_append1)

lemma length_overwrite [codec_simps]:
  "length src \<le> length dst \<Longrightarrow> length (overwrite src dst) = length dst"
  by (simp add: overwrite_def)

end
