(* ===== verification/Grpc_Client.thy ===== *)
theory Grpc_Client
  imports Rpc_Server Byte_Codec
begin

text \<open>
  The demonstration client of a storage node, \<^verbatim>\<open>src/proto/grpc_client.cc\<close>: the methods of \<^verbatim>\<open>GrpcClient\<close>
  and the fixed script of \<^verbatim>\<open>main\<close>, with everything they print. The generated stub is an argument: a
  call takes the fields of its request and the state of the service and returns the gRPC status and
  the fields of the response (as the stub leaves them, also when the call fails). At the end the stub
  as a storage node's RPC server answers it.
\<close>

section \<open>The stub\<close>

record call_status =
  status_ok :: bool
  error_details :: string

type_synonym ('r, 's) unary = "'s \<Rightarrow> (call_status \<times> 'r) \<times> 's"

record 's service =
  svc_Create :: "string \<Rightarrow> string \<Rightarrow> u32 \<Rightarrow> (int \<times> string, 's) unary"
  svc_Mkdir :: "string \<Rightarrow> string \<Rightarrow> u32 \<Rightarrow> (int \<times> string, 's) unary"
  svc_Write :: "string \<Rightarrow> byte list \<Rightarrow> int \<Rightarrow> (write_reply \<times> string, 's) unary"
  svc_Get :: "string \<Rightarrow> int \<Rightarrow> int \<Rightarrow> (get_reply \<times> string, 's) unary"
  svc_ReadDirectory :: "string \<Rightarrow> (file_entry list \<times> string, 's) unary"

section \<open>GrpcClient\<close>

type_synonym 's call = "'s \<Rightarrow> call_status \<times> string \<times> 's"

text \<open>\<^verbatim>\<open>cout << s << endl\<close>\<close>

definition endl :: "string \<Rightarrow> string" where
  "endl s = s @ [CHR 0x0A]"

definition grpc_Create :: "'s service \<Rightarrow> string \<Rightarrow> string \<Rightarrow> int \<Rightarrow> 's call" where
  "grpc_Create sv parent_path name md s =
     (let ((status, code, text), s1) = svc_Create sv parent_path name (word_of_int md) s in (status, endl text, s1))"

definition grpc_Mkdir :: "'s service \<Rightarrow> string \<Rightarrow> string \<Rightarrow> int \<Rightarrow> 's call" where
  "grpc_Mkdir sv parent_path name md s =
     (let ((status, code, text), s1) = svc_Mkdir sv parent_path name (word_of_int md) s in (status, endl text, s1))"

definition grpc_Write :: "'s service \<Rightarrow> string \<Rightarrow> string \<Rightarrow> int \<Rightarrow> 's call" where
  "grpc_Write sv path data offset s =
     (let ((status, resp, text), s1) = svc_Write sv path (str_bytes data) offset s
      in (status, endl (''Number of bytes written: '' @ int_str (w_bytes resp)) @ endl text, s1))"

definition grpc_Get :: "'s service \<Rightarrow> string \<Rightarrow> int \<Rightarrow> int \<Rightarrow> 's call" where
  "grpc_Get sv path offset sz s =
     (let ((status, resp, text), s1) = svc_Get sv path offset sz s
      in (status, endl (''The following was read: '' @ map char_of_byte (g_data resp)) @ endl text, s1))"

definition grpc_ReadDirectory :: "'s service \<Rightarrow> string \<Rightarrow> 's call" where
  "grpc_ReadDirectory sv path s =
     (let ((status, entries, text), s1) = svc_ReadDirectory sv path s
      in (status, endl (''Found '' @ int_str (int (length entries)) @ '' items.'') @
            concat (map (\<lambda>x. endl (''Filename: '' @ e_name x)) entries) @ endl text, s1))"

section \<open>main\<close>

text \<open>One step of the script: a heading, the call, the details of its status.\<close>

definition grpc_step :: "string \<Rightarrow> 's call \<Rightarrow> string \<times> 's \<Rightarrow> string \<times> 's" where
  "grpc_step heading call = (\<lambda>(out, s).
     let (status, printed, s1) = call s
     in (out @ endl (''-------------- '' @ heading @ '' --------------'') @ printed @ error_details status, s1))"

definition demo_text :: string where
  "demo_text = ''this message should be written to a file''"

definition grpc_main :: "'s service \<Rightarrow> 's \<Rightarrow> int \<times> string \<times> 's" where
  "grpc_main sv s =
     (let st0 = ([], s);
          st1 = grpc_step ''Creating file'' (grpc_Create sv ''/mnt/fused'' ''test.txt'' 755) st0;
          st2 = grpc_step ''Creating directory'' (grpc_Mkdir sv ''/mnt/fused'' ''testdir'' 755) st1;
          st3 = grpc_step ''Writing to a file'' (grpc_Write sv ''/mnt/fused/test.txt'' demo_text 0) st2;
          st4 = grpc_step ''Reading a file'' (grpc_Get sv ''/mnt/fused/test.txt'' 0 250) st3;
          st5 = grpc_step ''Listing directory'' (grpc_ReadDirectory sv ''/mnt/fused'') st4
      in (0, st5))"

section \<open>On a storage node\<close>

text \<open>The server's world with the number of calls served; \<open>e k\<close> is what the host answers during the \<open>k\<close>-th
  call. A handler that cannot allocate its buffer throws: the call fails and the response stays empty.\<close>

type_synonym served_world = "fused_world \<times> nat"

definition call_ok :: call_status where
  "call_ok = \<lparr>status_ok = True, error_details = []\<rparr>"

definition storage_service :: "(int \<Rightarrow> string) \<Rightarrow> (nat \<Rightarrow> nat \<Rightarrow> fs_env) \<Rightarrow> (nat \<Rightarrow> bool) \<Rightarrow> served_world service" where
  "storage_service strerror e alloc_ok =
     \<lparr>svc_Create = (\<lambda>p n md (w, k). let (st, w1) = rpc_Create (e k) p n md w
        in ((call_ok, st, rpc_error_text strerror st), w1, Suc k)),
      svc_Mkdir = (\<lambda>p n md (w, k). let (st, w1) = rpc_Mkdir (e k) p n md w
        in ((call_ok, st, rpc_error_text strerror st), w1, Suc k)),
      svc_Write = (\<lambda>p d off (w, k). let (r, w1) = rpc_Write (e k) p d off w
        in ((call_ok, r, rpc_Write_text strerror (e k) p w (w_status r)), w1, Suc k)),
      svc_Get = (\<lambda>p off sz (w, k). case rpc_Get (e k) alloc_ok p off sz w of
          None \<Rightarrow> ((\<lparr>status_ok = False, error_details = []\<rparr>, \<lparr>g_status = 0, g_data = [], g_bytes = 0\<rparr>, []), w, Suc k)
        | Some (r, w1) \<Rightarrow> ((call_ok, r, rpc_Get_text strerror p w (g_status r)), w1, Suc k)),
      svc_ReadDirectory = (\<lambda>p (w, k). ((call_ok, snd (rpc_ReadDirectory p w), rpc_ReadDirectory_text p w), w, Suc k))\<rparr>"

end
