(* ===== verification/Fused_Inv.thy ===== *)
theory Fused_Inv
  imports Fused_Ops
begin

text \<open>
  The invariant of the inode table and the view of it the later theories reason with. A
  directory's parallel arrays are read as the list \<open>entries\<close> of its (name, inode number) pairs,
  and the whole table as the set \<open>edges\<close> of (directory slot, name, child slot) triples.
  \<open>fs_base\<close> is what every single table update keeps, \<open>tree_edges\<close> says that the edges never
  lead to the root and never twice to the same inode, and \<open>fs_inv\<close> is both. Each primitive of
  \<^verbatim>\<open>fused_ops.c\<close> is shown to keep \<open>fs_base\<close> and to change \<open>edges\<close> by one element.
\<close>

section \<open>Definitions\<close>

definition slot_ino :: "nat \<Rightarrow> u64" where
  "slot_ino i = of_nat (Suc i)"

definition entries :: "fused_inode \<Rightarrow> (string \<times> u64) list" where
  "entries d = zip (arr_take (n_children d) (child_names d)) (arr_take (n_children d) (child_inodes d))"

definition edges :: "fused_world \<Rightarrow> (nat \<times> string \<times> nat) set" where
  "edges w = {(d, nm, c). d < n_inodes w \<and> c < n_inodes w \<and> (nm, slot_ino c) \<in> set (entries (inodes w d))}"

definition name_ok :: "string \<Rightarrow> bool" where
  "name_ok s \<longleftrightarrow> s \<noteq> [] \<and> length s < MAX_NAME \<and> CHR ''/'' \<notin> set s"

definition backing_of :: "nat \<Rightarrow> string" where
  "backing_of i = ''/tmp/fused_backing/inode_'' @ dec_str (Suc i)"

definition slot_ok :: "fused_world \<Rightarrow> nat \<Rightarrow> bool" where
  "slot_ok w i \<longleftrightarrow>
     (ino (inodes w i) = 0 \<or> ino (inodes w i) = slot_ino i) \<and>
     n_children (inodes w i) \<le> MAX_CHILDREN \<and>
     distinct (map fst (entries (inodes w i))) \<and>
     (n_children (inodes w i) > 0 \<longrightarrow> S_ISDIR (mode (inodes w i)) \<and> ino (inodes w i) \<noteq> 0) \<and>
     (\<forall>nm k. (nm, k) \<in> set (entries (inodes w i)) \<longrightarrow>
        name_ok nm \<and> (\<exists>c<n_inodes w. k = slot_ino c \<and> ino (inodes w c) = k)) \<and>
     (i \<noteq> 0 \<longrightarrow> backing_path (inodes w i) = (if ino (inodes w i) = 0 then [] else backing_of i))"

definition fs_base :: "fused_world \<Rightarrow> bool" where
  "fs_base w \<longleftrightarrow>
     0 < n_inodes w \<and> n_inodes w \<le> MAX_INODES \<and> backing_dir w = ''/tmp/fused_backing'' \<and>
     ino (inodes w 0) = FUSE_ROOT_ID \<and> S_ISDIR (mode (inodes w 0)) \<and>
     backing_path (inodes w 0) = [] \<and>
     (\<forall>i<n_inodes w. slot_ok w i)"

definition tree_edges :: "(nat \<times> string \<times> nat) set \<Rightarrow> bool" where
  "tree_edges E \<longleftrightarrow>
     (\<forall>d nm c. (d, nm, c) \<in> E \<longrightarrow> c \<noteq> 0) \<and>
     (\<forall>d nm d' nm' c. (d, nm, c) \<in> E \<longrightarrow> (d', nm', c) \<in> E \<longrightarrow> d = d' \<and> nm = nm')"

definition fs_inv :: "fused_world \<Rightarrow> bool" where
  "fs_inv w \<longleftrightarrow> fs_base w \<and> tree_edges (edges w)"

section \<open>Inode numbers\<close>

lemma slot_ino_neq_0: "i < MAX_INODES \<Longrightarrow> slot_ino i \<noteq> 0"
  unfolding slot_ino_def by (simp add: word_of_nat_eq_0_iff nat_dvd_not_less del: of_nat_Suc)

lemma slot_ino_inject: "i < MAX_INODES \<Longrightarrow> j < MAX_INODES \<Longrightarrow> slot_ino i = slot_ino j \<longleftrightarrow> i = j"
  unfolding slot_ino_def by (simp add: word_of_nat_eq_iff take_bit_nat_eq_self del: of_nat_Suc)

lemma slot_ino_0 [simp]: "slot_ino 0 = FUSE_ROOT_ID"
  by (simp add: slot_ino_def)

section \<open>Entries\<close>

lemma length_entries [simp]: "length (entries d) = n_children d"
  by (simp add: entries_def)

lemma nth_entries: "i < n_children d \<Longrightarrow> entries d ! i = (child_names d i, child_inodes d i)"
  by (simp add: entries_def)

lemma set_entries: "set (entries d) = {(child_names d i, child_inodes d i) | i. i < n_children d}"
proof -
  have "x \<in> set (entries d) \<longleftrightarrow> (\<exists>i<n_children d. entries d ! i = x)" for x
    by (auto simp: in_set_conv_nth)
  then have "x \<in> set (entries d) \<longleftrightarrow> (\<exists>i<n_children d. (child_names d i, child_inodes d i) = x)" for x
    using nth_entries [of _ d] by metis
  then show ?thesis by (intro set_eqI) auto
qed

lemma map_fst_entries: "map fst (entries d) = arr_take (n_children d) (child_names d)"
  by (simp add: entries_def)

lemma entries_zero [simp]: "n_children d = 0 \<Longrightarrow> entries d = []"
  by (simp add: entries_def)

lemma find_child_None_iff: "find_child d nm = None \<longleftrightarrow> nm \<notin> fst ` set (entries d)"
  by (auto simp: find_child_def find_idx_None_iff set_entries image_iff)

lemma find_child_SomeD:
  "find_child d nm = Some i \<Longrightarrow> i < n_children d \<and> child_names d i = nm \<and>
     (nm, child_inodes d i) \<in> set (entries d)"
  by (auto simp: find_child_def set_entries dest: find_idx_SomeD)

lemma find_child_Some_iff:
  assumes "distinct (map fst (entries d))"
  shows "find_child d nm = Some i \<longleftrightarrow> i < n_children d \<and> child_names d i = nm"
proof
  assume i: "i < n_children d \<and> child_names d i = nm"
  have "inj_on (child_names d) {0..<n_children d}"
    using assms by (simp add: map_fst_entries arr_take_def distinct_map)
  with i show "find_child d nm = Some i"
    unfolding find_child_def
    by (intro find_idx_unique) (auto dest: inj_onD)
qed (auto dest: find_child_SomeD)

lemma entries_distinct_eq:
  "distinct (map fst (entries d)) \<Longrightarrow> (nm, k) \<in> set (entries d) \<Longrightarrow> (nm, k') \<in> set (entries d) \<Longrightarrow> k = k'"
  by (metis eq_key_imp_eq_value)

text \<open>The array updates of the two entry operations, on the list view.\<close>

lemma entries_add:
  "entries (x\<lparr>child_names := (child_names x)(n_children x := nm),
              child_inodes := (child_inodes x)(n_children x := k),
              n_children := n_children x + 1, mtime := t, ctime := t\<rparr>) = entries x @ [(nm, k)]"
  by (simp add: entries_def arr_simps)

lemma entries_remove_child:
  "i < n_children x \<Longrightarrow> entries (remove_child i t x) = remove_nth i (entries x)"
  by (simp add: entries_def remove_child_def arr_take_shift_left [simplified] zip_remove_nth)

lemma entries_cong:
  "n_children x = n_children y \<Longrightarrow> child_names x = child_names y \<Longrightarrow> child_inodes x = child_inodes y \<Longrightarrow>
     entries x = entries y"
  by (simp add: entries_def)

section \<open>Consequences of the invariant\<close>

lemma fs_baseD:
  assumes "fs_base w"
  shows "0 < n_inodes w" "n_inodes w \<le> MAX_INODES" "ino (inodes w 0) = FUSE_ROOT_ID"
    "S_ISDIR (mode (inodes w 0))" "backing_dir w = ''/tmp/fused_backing''"
    "backing_path (inodes w 0) = []" "\<And>i. i < n_inodes w \<Longrightarrow> slot_ok w i"
  using assms by (auto simp: fs_base_def)

lemma fs_baseI:
  assumes "0 < n_inodes w" "n_inodes w \<le> MAX_INODES" "ino (inodes w 0) = FUSE_ROOT_ID"
    "S_ISDIR (mode (inodes w 0))" "backing_dir w = ''/tmp/fused_backing''"
    "backing_path (inodes w 0) = []" "\<And>i. i < n_inodes w \<Longrightarrow> slot_ok w i"
  shows "fs_base w"
  using assms by (auto simp: fs_base_def)

lemma fs_inv_base [dest]: "fs_inv w \<Longrightarrow> fs_base w"
  by (simp add: fs_inv_def)

lemma fs_inv_tree [dest]: "fs_inv w \<Longrightarrow> tree_edges (edges w)"
  by (simp add: fs_inv_def)

lemma lookup_inode_slot:
  assumes "fs_base w" "c < n_inodes w" "ino (inodes w c) = slot_ino c"
  shows "lookup_inode w (slot_ino c) = Some c"
  unfolding lookup_inode_def
proof (rule find_idx_unique)
  fix j
  assume j: "j < n_inodes w" "ino (inodes w j) = slot_ino c"
  with assms have "slot_ok w j" "c < MAX_INODES" "j < MAX_INODES"
    using fs_baseD(2,7) [OF assms(1)] by auto
  with j show "j = c"
    by (auto simp: slot_ok_def slot_ino_inject slot_ino_neq_0)
qed (use assms in auto)

lemma lookup_inode_SomeD:
  "lookup_inode w k = Some c \<Longrightarrow> c < n_inodes w \<and> ino (inodes w c) = k"
  by (auto simp: lookup_inode_def dest: find_idx_SomeD)

lemma lookup_root: "fs_base w \<Longrightarrow> lookup_inode w FUSE_ROOT_ID = Some 0"
  using lookup_inode_slot [of w 0] fs_baseD(1,3) [of w] by simp

lemma slot_ok_entryD:
  "slot_ok w i \<Longrightarrow> (nm, k) \<in> set (entries (inodes w i)) \<Longrightarrow>
     name_ok nm \<and> (\<exists>c<n_inodes w. k = slot_ino c \<and> ino (inodes w c) = k)"
  unfolding slot_ok_def by blast

lemma edges_live:
  assumes "fs_base w" "(d, nm, c) \<in> edges w"
  shows "d < n_inodes w" "c < n_inodes w" "ino (inodes w c) = slot_ino c" "name_ok nm"
    "S_ISDIR (mode (inodes w d))" "ino (inodes w d) = slot_ino d"
proof -
  from assms(2) show dc: "d < n_inodes w" "c < n_inodes w"
    by (auto simp: edges_def)
  from assms(2) have e: "(nm, slot_ino c) \<in> set (entries (inodes w d))"
    by (simp add: edges_def)
  with fs_baseD(7) [OF assms(1) dc(1)] show "name_ok nm"
    by (simp add: slot_ok_def)
  from e fs_baseD(7) [OF assms(1) dc(1)] obtain c' where
    c': "c' < n_inodes w" "slot_ino c = slot_ino c'" "ino (inodes w c') = slot_ino c"
    using slot_ok_entryD by blast
  with dc(2) fs_baseD(2) [OF assms(1)] have "c' = c" by (auto simp: slot_ino_inject)
  with c' show "ino (inodes w c) = slot_ino c" by simp
  from e have "n_children (inodes w d) > 0" by (auto simp: set_entries)
  with fs_baseD(7) [OF assms(1) dc(1)] show "S_ISDIR (mode (inodes w d))" "ino (inodes w d) = slot_ino d"
    unfolding slot_ok_def by blast+
qed

lemma entry_edge:
  assumes "fs_base w" "d < n_inodes w" "(nm, k) \<in> set (entries (inodes w d))"
  obtains c where "c < n_inodes w" "k = slot_ino c" "(d, nm, c) \<in> edges w"
proof -
  from assms(3) fs_baseD(7) [OF assms(1,2)] obtain c where "c < n_inodes w" "k = slot_ino c"
    using slot_ok_entryD by blast
  with assms that show ?thesis by (auto simp: edges_def)
qed

lemma edges_name_unique:
  assumes "fs_base w" "(d, nm, c) \<in> edges w" "(d, nm, c') \<in> edges w"
  shows "c = c'"
proof -
  from assms have "slot_ino c = slot_ino c'"
    using fs_baseD(7) [OF assms(1), of d]
    by (auto simp: edges_def slot_ok_def intro: entries_distinct_eq)
  moreover from assms have "c < MAX_INODES" "c' < MAX_INODES"
    using fs_baseD(2) [OF assms(1)] by (auto simp: edges_def)
  ultimately show ?thesis by (simp add: slot_ino_inject)
qed

section \<open>Single updates\<close>

lemma inodes_upd [simp]: "inodes (upd_inode i f w) = (inodes w)(i := f (inodes w i))"
  and n_inodes_upd [simp]: "n_inodes (upd_inode i f w) = n_inodes w"
  and files_upd [simp]: "files (upd_inode i f w) = files w"
  and backing_dir_upd [simp]: "backing_dir (upd_inode i f w) = backing_dir w"
  by (simp_all add: upd_inode_def)

text \<open>Updates that keep what the invariant looks at: timestamps, sizes, owners, host files.\<close>

definition same_shape :: "fused_inode \<Rightarrow> fused_inode \<Rightarrow> bool" where
  "same_shape x y \<longleftrightarrow> ino x = ino y \<and> S_ISDIR (mode x) = S_ISDIR (mode y) \<and>
     n_children x = n_children y \<and> entries x = entries y \<and> backing_path x = backing_path y"

definition same_table :: "fused_world \<Rightarrow> fused_world \<Rightarrow> bool" where
  "same_table w v \<longleftrightarrow> n_inodes v = n_inodes w \<and> backing_dir v = backing_dir w \<and>
     (\<forall>i<n_inodes w. same_shape (inodes w i) (inodes v i))"

lemma same_table_slot_ok: "same_table w v \<Longrightarrow> i < n_inodes w \<Longrightarrow> slot_ok w i \<Longrightarrow> slot_ok v i"
  unfolding same_table_def same_shape_def slot_ok_def by metis

lemma same_table_base: "same_table w v \<Longrightarrow> fs_base w \<Longrightarrow> fs_base v"
  by (rule fs_baseI; frule fs_baseD)
    (auto simp: same_table_def same_shape_def dest: fs_baseD intro: same_table_slot_ok [of w])

lemma same_table_edges: "same_table w v \<Longrightarrow> edges v = edges w"
  by (auto simp: edges_def same_table_def same_shape_def)

lemma same_table_inv: "same_table w v \<Longrightarrow> fs_inv w \<Longrightarrow> fs_inv v"
  by (simp add: fs_inv_def same_table_base same_table_edges)

lemma same_shape_refl [simp]: "same_shape x x"
  by (simp add: same_shape_def)

lemma same_table_refl [simp]: "same_table w w"
  by (simp add: same_table_def)

lemma same_table_trans: "same_table u v \<Longrightarrow> same_table v w \<Longrightarrow> same_table u w"
  by (auto simp: same_table_def same_shape_def)

lemma same_table_upd: "same_shape (inodes w i) (f (inodes w i)) \<Longrightarrow> same_table w (upd_inode i f w)"
  by (simp add: same_table_def)

lemma same_table_files [simp]: "same_table w (w\<lparr>files := fs\<rparr>)"
  by (simp add: same_table_def)

text \<open>Allocation of the next slot and its initialisation.\<close>

lemma backing_of_generate:
  assumes "backing_dir w = ''/tmp/fused_backing''" "i < MAX_INODES"
  shows "generate_backing_path w (slot_ino i) = backing_of i"
proof -
  have "length (dec_str (Suc i)) \<le> 4"
    using assms(2) by (intro dec_str_length) simp_all
  moreover have "unat (slot_ino i) = Suc i"
    using assms(2) by (simp add: slot_ino_def unat_of_nat del: of_nat_Suc)
  ultimately show ?thesis
    using assms(1) by (simp add: generate_backing_path_def backing_of_def strncpy0_def)
qed

lemma alloc_inode_None: "alloc_inode w = (None, v) \<Longrightarrow> v = w \<and> MAX_INODES \<le> n_inodes w"
  by (auto simp: alloc_inode_def Let_def split: if_splits)

lemma alloc_inode_Some:
  assumes "fs_base w" "alloc_inode w = (Some i, v)"
  shows "i = n_inodes w" "i < MAX_INODES"
    "v = (upd_inode i (\<lambda>_. zero_inode\<lparr>ino := slot_ino i, backing_path := backing_of i\<rparr>) w)\<lparr>n_inodes := Suc i\<rparr>"
  using assms fs_baseD(5) [OF assms(1)] backing_of_generate [of w "n_inodes w"]
  by (auto simp: alloc_inode_def Let_def slot_ino_def split: if_splits)

lemma extend_slot_ok:
  assumes "slot_ok w i" "i < n_inodes w" "n_inodes v = Suc (n_inodes w)"
    "\<forall>j<n_inodes w. inodes v j = inodes w j"
  shows "slot_ok v i"
proof -
  have "\<exists>c<n_inodes v. k = slot_ino c \<and> ino (inodes v c) = k"
    if "\<exists>c<n_inodes w. k = slot_ino c \<and> ino (inodes w c) = k" for k
    using that assms(3,4) less_SucI by metis
  with assms show ?thesis
    unfolding slot_ok_def by metis
qed

lemma extend_base:
  assumes "fs_base w" "n_inodes w < MAX_INODES" "n_inodes v = Suc (n_inodes w)"
    "\<forall>j<n_inodes w. inodes v j = inodes w j" "backing_dir v = backing_dir w"
    "ino (inodes v (n_inodes w)) = slot_ino (n_inodes w)" "n_children (inodes v (n_inodes w)) = 0"
    "backing_path (inodes v (n_inodes w)) = backing_of (n_inodes w)"
  shows "fs_base v" "edges v = edges w"
proof -
  note w = fs_baseD [OF assms(1)]
  have new: "slot_ok v (n_inodes w)"
    using assms slot_ino_neq_0 [OF assms(2)] by (simp add: slot_ok_def)
  show "fs_base v"
  proof (rule fs_baseI)
    fix i
    assume "i < n_inodes v"
    then show "slot_ok v i"
      using new w(7) assms(3,4) extend_slot_ok [of w i v] by (cases "i = n_inodes w") auto
  qed (use w assms in auto)
  show "edges v = edges w"
  proof (intro set_eqI iffI)
    fix x
    assume "x \<in> edges v"
    then obtain d nm c where x: "x = (d, nm, c)" "d < n_inodes v" "c < n_inodes v"
      "(nm, slot_ino c) \<in> set (entries (inodes v d))"
      by (auto simp: edges_def)
    with assms(7) have d: "d < n_inodes w"
      using assms(3) by (cases "d = n_inodes w") (auto simp: set_entries)
    with x assms(4) have e: "(nm, slot_ino c) \<in> set (entries (inodes w d))" by simp
    then obtain c' where c': "c' < n_inodes w" "slot_ino c = slot_ino c'" "(d, nm, c') \<in> edges w"
      using entry_edge [OF assms(1) d] by metis
    then have "c = c'" using x(3) assms(2,3) by (simp add: slot_ino_inject)
    with c' x show "x \<in> edges w" by simp
  next
    fix x
    assume "x \<in> edges w"
    then show "x \<in> edges v"
      using assms(3,4) by (auto simp: edges_def)
  qed
qed

text \<open>An entry list changed in place: the other slots keep their entries.\<close>

lemma entry_change_base:
  assumes "fs_base w" "d < n_inodes w" "ino (inodes w d) \<noteq> 0" "S_ISDIR (mode (inodes w d))"
    and y: "ino y = ino (inodes w d)" "mode y = mode (inodes w d)"
      "backing_path y = backing_path (inodes w d)" "n_children y \<le> MAX_CHILDREN"
      "distinct (map fst (entries y))"
      "\<And>nm k. (nm, k) \<in> set (entries y) \<Longrightarrow>
         name_ok nm \<and> (\<exists>c<n_inodes w. k = slot_ino c \<and> ino (inodes w c) = k)"
  shows "fs_base (upd_inode d (\<lambda>_. y) w)"
proof (rule fs_baseI)
  note w = fs_baseD [OF assms(1)]
  fix i
  assume "i < n_inodes (upd_inode d (\<lambda>_. y) w)"
  then have i: "i < n_inodes w" by simp
  have same_ino: "ino (inodes (upd_inode d (\<lambda>_. y) w) c) = ino (inodes w c)" for c
    using y(1) by simp
  show "slot_ok (upd_inode d (\<lambda>_. y) w) i"
  proof (cases "i = d")
    case True
    have "slot_ok w d" by (rule w(7) [OF assms(2)])
    with True y assms(3,4) same_ino show ?thesis
      by (auto simp: slot_ok_def)
  next
    case False
    with w(7) [OF i] same_ino show ?thesis by (simp add: slot_ok_def)
  qed
qed (use fs_baseD [OF assms(1)] y in auto)

lemma add_entry_base:
  fixes t :: time_t
  assumes "fs_base w" "d < n_inodes w" "ino (inodes w d) \<noteq> 0" "S_ISDIR (mode (inodes w d))"
    and "n_children (inodes w d) < MAX_CHILDREN" "find_child (inodes w d) nm = None" "name_ok nm"
    and "c < n_inodes w" "ino (inodes w c) = slot_ino c"
  defines "v \<equiv> upd_inode d (\<lambda>x. x\<lparr>child_names := (child_names x)(n_children x := nm),
                 child_inodes := (child_inodes x)(n_children x := slot_ino c),
                 n_children := n_children x + 1, mtime := t, ctime := t\<rparr>) w"
  shows "fs_base v" "edges v = insert (d, nm, c) (edges w)"
proof -
  define y where "y = (\<lambda>x. x\<lparr>child_names := (child_names x)(n_children x := nm),
                 child_inodes := (child_inodes x)(n_children x := slot_ino c),
                 n_children := n_children x + 1, mtime := t, ctime := t\<rparr>) (inodes w d)"
  have v: "v = upd_inode d (\<lambda>_. y) w"
    by (simp add: v_def y_def upd_inode_def)
  have ey: "entries y = entries (inodes w d) @ [(nm, slot_ino c)]"
    unfolding y_def by (rule entries_add)
  have fresh: "nm \<notin> fst ` set (entries (inodes w d))"
    using assms(6) by (simp add: find_child_None_iff)
  have ok: "slot_ok w d" using fs_baseD(7) [OF assms(1,2)] .
  have cl: "\<And>n k. (n, k) \<in> set (entries y) \<Longrightarrow>
      name_ok n \<and> (\<exists>c<n_inodes w. k = slot_ino c \<and> ino (inodes w c) = k)"
    unfolding ey using slot_ok_entryD [OF ok] assms(7,8,9) by auto
  show "fs_base v"
    unfolding v
    by (rule entry_change_base)
      (use assms ok fresh cl in \<open>auto simp: y_def [symmetric] ey slot_ok_def, auto simp: y_def\<close>)
  have "(n, slot_ino c') \<in> set (entries y) \<longleftrightarrow>
      (n, slot_ino c') \<in> set (entries (inodes w d)) \<or> (n = nm \<and> c' = c)" if "c' < n_inodes w" for n c'
    using that assms(8) fs_baseD(2) [OF assms(1)] by (auto simp: ey slot_ino_inject)
  then show "edges v = insert (d, nm, c) (edges w)"
    using assms(2,8) by (auto simp: edges_def v split: if_splits)
qed

lemma remove_entry_base:
  fixes t :: time_t
  assumes "fs_base w" "d < n_inodes w" "j < n_children (inodes w d)"
    and "c < n_inodes w" "child_inodes (inodes w d) j = slot_ino c"
  defines "v \<equiv> upd_inode d (remove_child j t) w"
  shows "fs_base v" "edges v = edges w - {(d, child_names (inodes w d) j, c)}"
proof -
  let ?x = "inodes w d" and ?y = "remove_child j t (inodes w d)"
  have ok: "slot_ok w d" using fs_baseD(7) [OF assms(1,2)] .
  have ey: "entries ?y = remove_nth j (entries ?x)"
    using assms(3) by (rule entries_remove_child)
  have sub: "set (entries ?y) \<subseteq> set (entries ?x)"
    unfolding ey by (rule set_remove_nth_subset)
  have dist: "distinct (entries ?x)"
    using ok by (auto simp: slot_ok_def distinct_map)
  have setey: "set (entries ?y) = set (entries ?x) - {(child_names ?x j, slot_ino c)}"
    unfolding ey using set_remove_nth [OF dist] assms(3,5) by (simp add: nth_entries)
  have fields: "ino ?y = ino ?x" "mode ?y = mode ?x" "backing_path ?y = backing_path ?x"
    "n_children ?y = n_children ?x - 1"
    by (simp_all add: remove_child_def)
  have v: "v = upd_inode d (\<lambda>_. ?y) w"
    by (simp add: v_def upd_inode_def)
  have dn: "distinct (map fst (entries ?y))"
    unfolding ey using ok by (simp add: map_remove_nth slot_ok_def)
  have live: "ino ?x \<noteq> 0" "S_ISDIR (mode ?x)"
    using ok assms(3) by (auto simp: slot_ok_def)
  show "fs_base v"
    unfolding v
  proof (rule entry_change_base [OF assms(1,2) live])
    show "n_children ?y \<le> MAX_CHILDREN" using ok fields unfolding slot_ok_def by linarith
    fix nm k
    assume "(nm, k) \<in> set (entries ?y)"
    with sub show "name_ok nm \<and> (\<exists>c<n_inodes w. k = slot_ino c \<and> ino (inodes w c) = k)"
      by (intro slot_ok_entryD [OF ok]) auto
  qed (use fields dn in auto)
  have "(n, slot_ino c') \<in> set (entries ?y) \<longleftrightarrow>
      (n, slot_ino c') \<in> set (entries ?x) \<and> \<not> (n = child_names ?x j \<and> c' = c)" if "c' < n_inodes w" for n c'
    using that assms(4) fs_baseD(2) [OF assms(1)] by (auto simp: setey slot_ino_inject)
  then show "edges v = edges w - {(d, child_names (inodes w d) j, c)}"
    using assms(2,4) by (auto simp: edges_def v split: if_splits)
qed

text \<open>Clearing a slot no entry refers to, with or without giving up the last slot.\<close>

lemma clear_slot_base:
  assumes "fs_base w" "c < n_inodes w" "c \<noteq> 0" "\<forall>d nm. (d, nm, c) \<notin> edges w"
    and "inodes v = (inodes w)(c := zero_inode)" "backing_dir v = backing_dir w"
    and "n_inodes v = n_inodes w \<or> c = n_inodes w - 1 \<and> n_inodes v = n_inodes w - 1"
  shows "fs_base v" "edges v = {(d, nm, c') \<in> edges w. d \<noteq> c}"
proof -
  note w = fs_baseD [OF assms(1)]
  have z: "n_children zero_inode = 0" "ino zero_inode = 0" "backing_path zero_inode = []" by (simp_all add: zero_inode_def)
  have less: "i < n_inodes w \<and> (i \<noteq> c \<or> n_inodes v = n_inodes w)" if "i < n_inodes v" for i
    using assms(7) that by auto
  have more: "i < n_inodes v" if "i < n_inodes w" "i \<noteq> c" for i
    using assms(7) that by auto
  have ok: "slot_ok v i" if "i < n_inodes v" for i
  proof (cases "i = c")
    case True
    with assms(5) z show ?thesis by (simp add: slot_ok_def)
  next
    case False
    have i: "slot_ok w i" "i < n_inodes w" using w(7) less [OF that] by auto
    have "\<exists>c'<n_inodes v. k = slot_ino c' \<and> ino (inodes v c') = k"
      if e: "(nm, k) \<in> set (entries (inodes w i))" for nm k
    proof -
      from e i obtain c' where c': "c' < n_inodes w" "k = slot_ino c'" "ino (inodes w c') = k"
        "(i, nm, c') \<in> edges w"
        using slot_ok_entryD [OF i(1) e] by (auto simp: edges_def)
      with assms(4) have "c' \<noteq> c" by auto
      with c' more assms(5) show ?thesis by auto
    qed
    moreover have "inodes v i = inodes w i" using False assms(5) by simp
    ultimately show ?thesis
      using i(1) unfolding slot_ok_def by auto
  qed
  show "fs_base v"
    by (rule fs_baseI) (use w assms(3,5,6,7) ok in auto)
  show "edges v = {(d, nm, c') \<in> edges w. d \<noteq> c}"
  proof (intro set_eqI iffI)
    fix x
    assume "x \<in> edges v"
    then show "x \<in> {(d, nm, c') \<in> edges w. d \<noteq> c}"
      using less z assms(5) by (auto simp: edges_def split: if_splits)
  next
    fix x
    assume "x \<in> {(d, nm, c') \<in> edges w. d \<noteq> c}"
    then obtain d nm c' where x: "x = (d, nm, c')" "(d, nm, c') \<in> edges w" "d \<noteq> c" by auto
    with assms(4) have "c' \<noteq> c" by auto
    with x more show "x \<in> edges v"
      using assms(5) by (auto simp: edges_def)
  qed
qed

lemma edges_finite_dir: "(d, nm, c) \<in> edges w \<Longrightarrow> n_children (inodes w d) > 0"
  by (auto simp: edges_def set_entries)

end
