(* ===== verification/Fused_Paths.thy ===== *)
theory Fused_Paths
  imports Fused_Inv
begin

text \<open>
  Path resolution. \<open>path_tokens\<close> are the components \<^verbatim>\<open>path_to_inode\<close> walks, \<open>resolve\<close> the walk
  from the root, and \<open>path_rel\<close> the same walk over the set of edges. The lemmas relate
  \<^verbatim>\<open>split_path\<close> to the components, show that in a tree no inode has two paths, and describe how
  resolution changes when one edge is added or removed.
\<close>

section \<open>Definitions\<close>

definition path_tokens :: "string \<Rightarrow> string list" where
  "path_tokens p = tokens (drop 1 (take (MAX_PATH - 1) p))"

definition resolve :: "fused_world \<Rightarrow> string list \<Rightarrow> nat option" where
  "resolve w ts = walk_path w 0 ts"

primrec path_rel :: "(nat \<times> string \<times> nat) set \<Rightarrow> nat \<Rightarrow> string list \<Rightarrow> nat \<Rightarrow> bool" where
  "path_rel E d [] c \<longleftrightarrow> d = c"
| "path_rel E d (t # ts) c \<longleftrightarrow> (\<exists>m. (d, t, m) \<in> E \<and> path_rel E m ts c)"

definition abs_path :: "string \<Rightarrow> bool" where
  "abs_path p \<longleftrightarrow> p \<noteq> [] \<and> hd p = CHR ''/''"

section \<open>Splitting a path\<close>

lemma path_tokens_root [simp]: "path_tokens ''/'' = []"
  by (simp add: path_tokens_def)

lemma path_tokens_names: "t \<in> set (path_tokens p) \<Longrightarrow> t \<noteq> [] \<and> CHR ''/'' \<notin> set t"
  by (auto simp: path_tokens_def dest: tokens_no_slash)

lemma split_path_name:
  assumes "split_path p = (pp, nm)"
  shows "length nm \<le> MAX_PATH - 1" "CHR ''/'' \<notin> set nm"
proof -
  let ?t = "take (MAX_PATH - 1) p"
  have "nm = [] \<or> (strrchr ?t CHR ''/'' = None \<and> nm = ?t) \<or>
      (\<exists>i. strrchr ?t CHR ''/'' = Some i \<and> nm = drop (Suc i) ?t)"
    using assms by (auto simp: split_path_def Let_def strncpy0_def split: if_splits option.splits)
  then show "length nm \<le> MAX_PATH - 1" "CHR ''/'' \<notin> set nm"
    by (auto simp: strrchr_None_iff strrchr_Some_iff)
qed

lemma split_path_tokens:
  assumes "split_path p = (pp, nm)" "CHR ''/'' \<in> set (take (MAX_PATH - 1) p)"
  shows "path_tokens p = path_tokens pp @ tokens nm"
proof -
  let ?t = "take (MAX_PATH - 1) p"
  from assms(2) obtain i where i: "strrchr ?t CHR ''/'' = Some i"
    by (metis strrchr_None_iff not_None_eq)
  then have lt: "i < length ?t" by (simp add: strrchr_Some_iff)
  from strrchr_split [OF i] have t: "?t = take i ?t @ CHR ''/'' # drop (Suc i) ?t" .
  show ?thesis
  proof (cases "p = ''/''")
    case True
    with assms(1) show ?thesis by (auto simp: split_path_def path_tokens_def)
  next
    case False
    show ?thesis
    proof (cases "i = 0")
      case True
      with False i assms(1) have pp: "pp = ''/''" "nm = drop (Suc 0) ?t"
        by (auto simp: split_path_def Let_def strncpy0_def)
      then show ?thesis by (simp add: path_tokens_def)
    next
      case pos: False
      with False i assms(1) have pp: "pp = take i ?t" "nm = drop (Suc i) ?t"
        by (auto simp: split_path_def Let_def strncpy0_def)
      have "drop 1 ?t = drop 1 (take i ?t) @ CHR ''/'' # drop (Suc i) ?t"
        using pos lt by (subst t) (simp add: drop_Cons')
      then have "tokens (drop 1 ?t) = tokens (drop 1 (take i ?t)) @ tokens (drop (Suc i) ?t)"
        by (simp only: tokens_append_slash)
      moreover have "take (MAX_PATH - 1) (take i ?t) = take i ?t"
        by simp
      ultimately show ?thesis
        by (simp only: path_tokens_def pp)
    qed
  qed
qed

lemma split_path_relative:
  assumes "split_path p = (pp, nm)" "CHR ''/'' \<notin> set (take (MAX_PATH - 1) p)"
  shows "pp = ''/''" "nm = take (MAX_PATH - 1) p" "path_tokens p = (if drop 1 nm = [] then [] else [drop 1 nm])"
proof -
  from assms have *: "p \<noteq> ''/''" "strrchr (take (MAX_PATH - 1) p) CHR ''/'' = None"
    by (auto simp: strrchr_None_iff)
  with assms(1) show "pp = ''/''" and nm: "nm = take (MAX_PATH - 1) p"
    by (auto simp: split_path_def Let_def strncpy0_def)
  have "CHR ''/'' \<notin> set (drop 1 nm)"
    using assms(2) nm by (auto dest: in_set_dropD)
  then show "path_tokens p = (if drop 1 nm = [] then [] else [drop 1 nm])"
    unfolding path_tokens_def nm [symmetric] by (rule tokens_single)
qed

lemma abs_path_split:
  assumes "abs_path p" "split_path p = (pp, nm)"
  shows "path_tokens p = path_tokens pp @ (if nm = [] then [] else [nm])"
proof -
  from assms(1) have "CHR ''/'' \<in> set (take (MAX_PATH - 1) p)"
    by (cases p) (auto simp: abs_path_def)
  with split_path_tokens [OF assms(2)] split_path_name [OF assms(2)] show ?thesis
    by (simp add: tokens_single)
qed

text \<open>The name a path splits off is a legal entry name unless the path resolves as its parent.\<close>

lemma split_path_name_ok:
  assumes "split_path p = (pp, nm)" "path_tokens p \<noteq> path_tokens pp"
  shows "name_ok nm"
proof -
  have "nm \<noteq> []"
  proof
    assume "nm = []"
    then have "path_tokens p = path_tokens pp"
      using split_path_tokens [OF assms(1)] split_path_relative [OF assms(1)]
      by (cases "CHR ''/'' \<in> set (take (MAX_PATH - 1) p)") auto
    with assms(2) show False by simp
  qed
  with split_path_name [OF assms(1)] show ?thesis
    by (simp add: name_ok_def)
qed

section \<open>Walking\<close>

lemma walk_path_append:
  "walk_path w d (ts @ us) = Option.bind (walk_path w d ts) (\<lambda>c. walk_path w c us)"
  by (induction ts arbitrary: d) (auto split: option.splits)

lemma walk_path_Cons_iff:
  assumes "fs_base w" "d < n_inodes w"
  shows "walk_path w d (t # ts) = Some r \<longleftrightarrow> (\<exists>c. (d, t, c) \<in> edges w \<and> walk_path w c ts = Some r)"
proof
  assume "walk_path w d (t # ts) = Some r"
  then obtain i k where ik: "find_child (inodes w d) t = Some i"
    "lookup_inode w (child_inodes (inodes w d) i) = Some k" "walk_path w k ts = Some r"
    by (auto split: if_splits option.splits)
  from find_child_SomeD [OF ik(1)] obtain c where c: "child_inodes (inodes w d) i = slot_ino c"
    "(d, t, c) \<in> edges w"
    using entry_edge [OF assms] by metis
  with edges_live [OF assms(1) c(2)] have "lookup_inode w (slot_ino c) = Some c"
    by (intro lookup_inode_slot [OF assms(1)]) auto
  with ik c show "\<exists>c. (d, t, c) \<in> edges w \<and> walk_path w c ts = Some r" by auto
next
  assume "\<exists>c. (d, t, c) \<in> edges w \<and> walk_path w c ts = Some r"
  then obtain c where c: "(d, t, c) \<in> edges w" "walk_path w c ts = Some r" by blast
  from c(1) have e: "(t, slot_ino c) \<in> set (entries (inodes w d))" by (simp add: edges_def)
  then obtain i where i: "find_child (inodes w d) t = Some i"
    using find_child_None_iff [of "inodes w d" t] by (cases "find_child (inodes w d) t") force+
  have "child_inodes (inodes w d) i = slot_ino c"
    using find_child_SomeD [OF i] e fs_baseD(7) [OF assms]
    by (auto simp: slot_ok_def intro: entries_distinct_eq)
  moreover have "lookup_inode w (slot_ino c) = Some c"
    using edges_live [OF assms(1) c(1)] by (intro lookup_inode_slot [OF assms(1)]) auto
  ultimately show "walk_path w d (t # ts) = Some r"
    using c(2) i edges_live(5) [OF assms(1) c(1)] by simp
qed

lemma walk_path_rel:
  assumes "fs_base w" "d < n_inodes w"
  shows "walk_path w d ts = Some r \<longleftrightarrow> path_rel (edges w) d ts r"
  using assms(2)
proof (induction ts arbitrary: d)
  case (Cons t ts)
  have "walk_path w d (t # ts) = Some r \<longleftrightarrow> (\<exists>c. (d, t, c) \<in> edges w \<and> walk_path w c ts = Some r)"
    by (rule walk_path_Cons_iff [OF assms(1) Cons.prems])
  also have "\<dots> \<longleftrightarrow> (\<exists>c. (d, t, c) \<in> edges w \<and> path_rel (edges w) c ts r)"
    using Cons.IH edges_live(2) [OF assms(1)] by blast
  finally show ?case by simp
qed simp

lemma resolve_rel: "fs_base w \<Longrightarrow> resolve w ts = Some r \<longleftrightarrow> path_rel (edges w) 0 ts r"
  unfolding resolve_def by (rule walk_path_rel) (auto dest: fs_baseD)

lemma path_to_inode_resolve: "fs_base w \<Longrightarrow> path_to_inode w p = resolve w (path_tokens p)"
  by (simp add: path_to_inode_def resolve_def path_tokens_def strncpy0_def lookup_root)

lemma resolve_Nil [simp]: "resolve w [] = Some 0"
  by (simp add: resolve_def)

lemma path_rel_append: "path_rel E d (ts @ us) c \<longleftrightarrow> (\<exists>m. path_rel E d ts m \<and> path_rel E m us c)"
  by (induction ts arbitrary: d) auto

lemma path_rel_snoc: "path_rel E d (ts @ [t]) c \<longleftrightarrow> (\<exists>m. path_rel E d ts m \<and> (m, t, c) \<in> E)"
  by (simp add: path_rel_append)

lemma path_rel_mono: "path_rel E d ts c \<Longrightarrow> E \<subseteq> F \<Longrightarrow> path_rel F d ts c"
  by (induction ts arbitrary: d) auto

lemma resolve_slot:
  assumes "fs_base w" "resolve w ts = Some c"
  shows "c < n_inodes w" "ino (inodes w c) = slot_ino c"
proof -
  have "c < n_inodes w \<and> ino (inodes w c) = slot_ino c"
  proof (cases ts rule: rev_cases)
    case Nil
    with assms show ?thesis by (auto dest: fs_baseD)
  next
    case (snoc us t)
    with assms have "path_rel (edges w) 0 (us @ [t]) c" by (simp add: resolve_rel)
    then obtain m where "(m, t, c) \<in> edges w" by (auto simp: path_rel_snoc)
    with edges_live [OF assms(1) this] show ?thesis by simp
  qed
  then show "c < n_inodes w" "ino (inodes w c) = slot_ino c" by simp_all
qed

lemma path_to_inode_slot:
  assumes "fs_base w" "path_to_inode w p = Some c"
  shows "c < n_inodes w" "ino (inodes w c) = slot_ino c"
  using resolve_slot [OF assms(1), of "path_tokens p" c] assms
  by (simp_all add: path_to_inode_resolve)

section \<open>Trees\<close>

lemma tree_path_unique:
  assumes "tree_edges E" "path_rel E 0 ts c" "path_rel E 0 us c"
  shows "ts = us"
  using assms(2,3)
proof (induction ts arbitrary: us c rule: rev_induct)
  case Nil
  then have "c = 0" by simp
  with Nil.prems(2) assms(1) show ?case
    by (cases us rule: rev_cases) (auto simp: path_rel_snoc tree_edges_def)
next
  case (snoc t ts)
  then obtain m where m: "path_rel E 0 ts m" "(m, t, c) \<in> E" by (auto simp: path_rel_snoc)
  with assms(1) have "c \<noteq> 0" by (auto simp: tree_edges_def)
  with snoc.prems(2) obtain us' t' m' where us: "us = us' @ [t']" "path_rel E 0 us' m'" "(m', t', c) \<in> E"
    by (cases us rule: rev_cases) (auto simp: path_rel_snoc)
  with m assms(1) have "m = m'" "t = t'" by (auto simp: tree_edges_def)
  with m us snoc.IH show ?case by auto
qed

text \<open>A new leaf is reached by exactly one new path.\<close>

lemma path_rel_insert_leaf:
  assumes "\<forall>nm m. (c, nm, m) \<notin> E" "x \<noteq> c" "d \<noteq> c"
  shows "path_rel (insert (d, nm, c) E) x ts y \<longleftrightarrow>
    path_rel E x ts y \<or> (\<exists>us. ts = us @ [nm] \<and> path_rel E x us d \<and> y = c)"
  using assms(2)
proof (induction ts arbitrary: x)
  case (Cons t ts)
  have leaf: "path_rel (insert (d, nm, c) E) c ts y \<longleftrightarrow> ts = [] \<and> y = c"
    using assms(1,3) by (cases ts) auto
  have step: "path_rel (insert (d, nm, c) E) x (t # ts) y \<longleftrightarrow>
      (x = d \<and> t = nm \<and> ts = [] \<and> y = c) \<or> (\<exists>m. (x, t, m) \<in> E \<and> path_rel (insert (d, nm, c) E) m ts y)"
    using leaf by auto
  have "\<exists>us. t # ts = us @ [nm] \<and> path_rel E x us d \<and> y = c"
    if "x = d \<and> t = nm \<and> ts = [] \<and> y = c"
    using that by (intro exI [of _ "[]"]) simp
  moreover have "(\<exists>m. (x, t, m) \<in> E \<and> path_rel (insert (d, nm, c) E) m ts y) \<longleftrightarrow>
      (\<exists>m. (x, t, m) \<in> E \<and> (path_rel E m ts y \<or> (m \<noteq> c \<and> (\<exists>us. ts = us @ [nm] \<and> path_rel E m us d \<and> y = c))))"
  proof (intro ex_cong1 conj_cong refl)
    fix m
    assume "(x, t, m) \<in> E"
    show "path_rel (insert (d, nm, c) E) m ts y \<longleftrightarrow>
        path_rel E m ts y \<or> m \<noteq> c \<and> (\<exists>us. ts = us @ [nm] \<and> path_rel E m us d \<and> y = c)"
    proof (cases "m = c")
      case True
      have "path_rel E c ts y \<longleftrightarrow> ts = [] \<and> y = c" using assms(1) by (cases ts) auto
      with True leaf show ?thesis by simp
    next
      case False
      with Cons.IH show ?thesis by simp
    qed
  qed
  moreover have "(\<exists>us. t # ts = us @ [nm] \<and> path_rel E x us d \<and> y = c) \<longleftrightarrow>
      (x = d \<and> t = nm \<and> ts = [] \<and> y = c) \<or>
      (\<exists>m. (x, t, m) \<in> E \<and> m \<noteq> c \<and> (\<exists>us. ts = us @ [nm] \<and> path_rel E m us d \<and> y = c))"
  proof -
    have "path_rel E c us d \<longleftrightarrow> False" for us
      using assms(1,3) by (cases us) auto
    then show ?thesis
      by (auto simp: Cons_eq_append_conv) metis+
  qed
  ultimately show ?case
    unfolding step by auto
qed (use assms in auto)

text \<open>Removing the edge to a leaf removes exactly the path to it.\<close>

lemma path_rel_remove_leaf:
  assumes "tree_edges E" "(d, nm, c) \<in> E" "\<forall>nm m. (c, nm, m) \<notin> E"
  shows "path_rel (E - {(d, nm, c)}) x ts y \<longleftrightarrow> path_rel E x ts y \<and> (y = c \<longrightarrow> x = c \<and> ts = [])"
proof
  assume l: "path_rel (E - {(d, nm, c)}) x ts y"
  then have "path_rel E x ts y" by (rule path_rel_mono) auto
  moreover have "x = c \<and> ts = []" if "y = c"
  proof (cases ts rule: rev_cases)
    case Nil
    with l that show ?thesis by simp
  next
    case (snoc us t)
    with l that obtain m where "(m, t, c) \<in> E - {(d, nm, c)}" by (auto simp: path_rel_snoc)
    with assms(1,2) show ?thesis by (auto simp: tree_edges_def)
  qed
  ultimately show "path_rel E x ts y \<and> (y = c \<longrightarrow> x = c \<and> ts = [])" by blast
next
  assume "path_rel E x ts y \<and> (y = c \<longrightarrow> x = c \<and> ts = [])"
  then show "path_rel (E - {(d, nm, c)}) x ts y"
  proof (induction ts arbitrary: x)
    case (Cons t ts)
    then obtain m where m: "(x, t, m) \<in> E" "path_rel E m ts y" by auto
    have "m \<noteq> c"
    proof
      assume "m = c"
      with m(2) assms(3) have "ts = [] \<and> y = c" by (cases ts) auto
      with Cons.prems show False by simp
    qed
    with m Cons show ?case by auto
  qed simp
qed

end
