(* ===== verification/Fused_Steps.thy ===== *)
theory Fused_Steps
  imports Fused_Paths
begin

text \<open>
  What each FUSE callback does to the inode table, stated on the edge set: one lemma per
  operation, covering its success and its error branches, and the invariant of the mounted
  file system that follows (\<open>fs_inv\<close> in every reachable state).
\<close>

section \<open>Directory entries\<close>

lemma dir_add_entry_Inl: "dir_add_entry t dir nm c w = (Inl err, v) \<Longrightarrow> v = w"
  by (auto simp: dir_add_entry_def split: option.splits if_splits)

lemma dir_add_entry_Inr:
  assumes "fs_base w" "dir_add_entry t dir nm c w = (Inr u, v)" "name_ok nm"
    and "\<And>d. dir = Some d \<Longrightarrow> d < n_inodes w \<and> ino (inodes w d) = slot_ino d"
    and "c < n_inodes w" "ino (inodes w c) = slot_ino c"
  obtains d where "dir = Some d" "S_ISDIR (mode (inodes w d))" "fs_base v"
    "edges v = insert (d, nm, c) (edges w)" "find_child (inodes w d) nm = None"
    "v = upd_inode d (\<lambda>x. x\<lparr>child_names := (child_names x)(n_children x := nm),
           child_inodes := (child_inodes x)(n_children x := slot_ino c),
           n_children := n_children x + 1, mtime := t, ctime := t\<rparr>) w"
proof -
  from assms(2) obtain d where d: "dir = Some d" "S_ISDIR (mode (inodes w d))"
    "n_children (inodes w d) < MAX_CHILDREN" "find_child (inodes w d) nm = None"
    and v0: "v = upd_inode d (\<lambda>x. x\<lparr>child_names := (child_names x)(n_children x := strncpy0 nm (MAX_NAME - 1)),
           child_inodes := (child_inodes x)(n_children x := ino (inodes w c)),
           n_children := n_children x + 1, mtime := t, ctime := t\<rparr>) w"
    by (auto simp: dir_add_entry_def split: option.splits if_splits)
  have "strncpy0 nm (MAX_NAME - 1) = nm"
    using assms(3) by (simp add: name_ok_def strncpy0_def)
  with v0 assms(6) have v: "v = upd_inode d (\<lambda>x. x\<lparr>child_names := (child_names x)(n_children x := nm),
           child_inodes := (child_inodes x)(n_children x := slot_ino c),
           n_children := n_children x + 1, mtime := t, ctime := t\<rparr>) w"
    by simp
  have dl: "d < n_inodes w" "ino (inodes w d) \<noteq> 0"
    using assms(4) [OF d(1)] slot_ino_neq_0 [of d] fs_baseD(2) [OF assms(1)] by auto
  note add = add_entry_base [OF assms(1) dl d(2,3,4) assms(3,5,6), of t, folded v]
  from that [OF d(1,2) add d(4) v] show ?thesis .
qed

lemma dir_rm_entry_Inl: "dir_rm_entry t dir nm c w = (Inl err, v) \<Longrightarrow> v = w"
  by (auto simp: dir_rm_entry_def split: option.splits if_splits)

lemma dir_rm_entry_Inr:
  assumes "fs_base w" "dir_rm_entry t dir nm c w = (Inr u, v)"
    and "\<And>d. dir = Some d \<Longrightarrow> d < n_inodes w"
    and "c < n_inodes w" "ino (inodes w c) = slot_ino c"
  obtains d j where "dir = Some d" "S_ISDIR (mode (inodes w d))" "fs_base v" "(d, nm, c) \<in> edges w"
    "edges v = edges w - {(d, nm, c)}" "j < n_children (inodes w d)"
    "v = upd_inode d (remove_child j t) w" "child_names (inodes w d) j = nm"
proof -
  from assms(2) obtain d j where d: "dir = Some d" "S_ISDIR (mode (inodes w d))"
    and j: "find_idx (n_children (inodes w d)) (\<lambda>i. child_names (inodes w d) i = nm \<and>
              child_inodes (inodes w d) i = ino (inodes w c)) = Some j"
    and v: "v = upd_inode d (remove_child j t) w"
    by (auto simp: dir_rm_entry_def split: option.splits if_splits)
  from find_idx_SomeD [OF j] assms(5) have j': "j < n_children (inodes w d)"
    "child_names (inodes w d) j = nm" "child_inodes (inodes w d) j = slot_ino c" by auto
  have "(nm, slot_ino c) \<in> set (entries (inodes w d))"
    using j' by (auto simp: set_entries)
  then have e: "(d, nm, c) \<in> edges w"
    using assms(3) [OF d(1)] assms(4) by (simp add: edges_def)
  note rm = remove_entry_base [OF assms(1) assms(3) [OF d(1)] j'(1) assms(4) j'(3), of t, folded v]
  from that [OF d rm(1) e _ j'(1) v j'(2)] rm(2) j'(2) show ?thesis by simp
qed

text \<open>Without the entry, removal reports it; with it, it succeeds.\<close>

lemma dir_rm_entry_finds:
  assumes "fs_base w" "(d, nm, c) \<in> edges w"
  obtains v where "dir_rm_entry t (Some d) nm c w = (Inr (), v)"
proof -
  note live = edges_live [OF assms]
  from assms(2) have "(nm, slot_ino c) \<in> set (entries (inodes w d))" by (simp add: edges_def)
  then obtain i where "i < n_children (inodes w d)" "child_names (inodes w d) i = nm"
    "child_inodes (inodes w d) i = ino (inodes w c)"
    using live(3) by (auto simp: set_entries)
  then obtain j where "find_idx (n_children (inodes w d)) (\<lambda>i. child_names (inodes w d) i = nm \<and>
              child_inodes (inodes w d) i = ino (inodes w c)) = Some j"
    using find_idx_None_iff [of "n_children (inodes w d)" "\<lambda>i. child_names (inodes w d) i = nm \<and>
              child_inodes (inodes w d) i = ino (inodes w c)"]
    by (cases "find_idx (n_children (inodes w d)) (\<lambda>i. child_names (inodes w d) i = nm \<and>
              child_inodes (inodes w d) i = ino (inodes w c))") auto
  with live that show ?thesis
    by (simp add: dir_rm_entry_def)
qed

lemma free_inode_base:
  assumes "fs_base w" "c < n_inodes w" "c \<noteq> 0" "\<forall>d nm. (d, nm, c) \<notin> edges w"
  shows "fs_base (free_inode e c w)" "edges (free_inode e c w) = {(d, nm, c') \<in> edges w. d \<noteq> c}"
proof -
  have v: "inodes (free_inode e c w) = (inodes w)(c := zero_inode)"
    "backing_dir (free_inode e c w) = backing_dir w"
    "n_inodes (free_inode e c w) = n_inodes w \<or>
       c = n_inodes w - 1 \<and> n_inodes (free_inode e c w) = n_inodes w - 1"
    by (simp_all add: free_inode_def Let_def)
  show "fs_base (free_inode e c w)" "edges (free_inode e c w) = {(d, nm, c') \<in> edges w. d \<noteq> c}"
    by (rule clear_slot_base [OF assms v])+
qed

section \<open>create and mkdir\<close>

text \<open>Both allocate the next slot, initialise it and enter it in the parent; on failure they free
  the slot again. \<open>w2\<close> is the state after the initialisation.\<close>

lemma edges_below: "(d, nm, c) \<in> edges w \<Longrightarrow> d < n_inodes w \<and> c < n_inodes w"
  by (simp add: edges_def)

lemma new_slot:
  assumes "fs_inv w" "n_inodes w < MAX_INODES" "n_inodes w2 = Suc (n_inodes w)"
    "\<forall>j<n_inodes w. inodes w2 j = inodes w j" "backing_dir w2 = backing_dir w"
    "ino (inodes w2 (n_inodes w)) = slot_ino (n_inodes w)" "n_children (inodes w2 (n_inodes w)) = 0"
    "backing_path (inodes w2 (n_inodes w)) = backing_of (n_inodes w)"
  shows "fs_inv w2" "edges w2 = edges w" "fs_base w2"
  using extend_base [OF fs_inv_base [OF assms(1)] assms(2-)] assms(1) by (simp_all add: fs_inv_def)

lemma new_slot_freed:
  assumes "fs_inv w2" "n_inodes w2 = Suc n" "n \<noteq> 0" "edges w2 = E" "\<forall>(d, nm, c) \<in> E. d < n \<and> c < n"
  shows "fs_inv (free_inode e n w2)" "edges (free_inode e n w2) = E"
    "n_inodes (free_inode e n w2) = n" "inodes (free_inode e n w2) = (inodes w2)(n := zero_inode)"
proof -
  have "\<forall>d nm. (d, nm, n) \<notin> edges w2" using assms(4,5) by auto
  with assms free_inode_base [OF fs_inv_base [OF assms(1)], of n e]
  have *: "fs_base (free_inode e n w2)" "edges (free_inode e n w2) = {(d, nm, c') \<in> E. d \<noteq> n}" by auto
  moreover have "{(d, nm, c') \<in> E. d \<noteq> n} = E" using assms(5) by auto
  ultimately show "edges (free_inode e n w2) = E" by simp
  with * assms(1,4) show "fs_inv (free_inode e n w2)" by (simp add: fs_inv_def)
  show "n_inodes (free_inode e n w2) = n" "inodes (free_inode e n w2) = (inodes w2)(n := zero_inode)"
    using assms(2) by (simp_all add: free_inode_def Let_def)
qed

lemma new_slot_entered:
  assumes "fs_inv w" "fs_inv w2" "edges w2 = edges w" "n_inodes w2 = Suc (n_inodes w)"
    "\<forall>j<n_inodes w. inodes w2 j = inodes w j" "ino (inodes w2 (n_inodes w)) = slot_ino (n_inodes w)"
    "path_to_inode w pp = Some d" "name_ok nm"
    "dir_add_entry t (Some d) nm (n_inodes w) w2 = (Inr u, v)"
  shows "fs_inv v" "edges v = insert (d, nm, n_inodes w) (edges w)" "d < n_inodes w"
    "S_ISDIR (mode (inodes w d))"
    "v = upd_inode d (\<lambda>x. x\<lparr>child_names := (child_names x)(n_children x := nm),
           child_inodes := (child_inodes x)(n_children x := slot_ino (n_inodes w)),
           n_children := n_children x + 1, mtime := t, ctime := t\<rparr>) w2"
proof -
  note d = path_to_inode_slot [OF fs_inv_base [OF assms(1)] assms(7)]
  have dir: "\<And>d'. Some d = Some d' \<Longrightarrow> d' < n_inodes w2 \<and> ino (inodes w2 d') = slot_ino d'"
    using d assms(4,5) by auto
  obtain d' where d': "Some d = Some d'" "S_ISDIR (mode (inodes w2 d'))" "fs_base v"
    "edges v = insert (d', nm, n_inodes w) (edges w2)"
    "v = upd_inode d' (\<lambda>x. x\<lparr>child_names := (child_names x)(n_children x := nm),
           child_inodes := (child_inodes x)(n_children x := slot_ino (n_inodes w)),
           n_children := n_children x + 1, mtime := t, ctime := t\<rparr>) w2"
    by (rule dir_add_entry_Inr [OF fs_inv_base [OF assms(2)] assms(9,8) dir])
      (use assms(4,6) in auto)
  from d' assms(3) show e: "edges v = insert (d, nm, n_inodes w) (edges w)" by simp
  from d'(1,5) show "v = upd_inode d (\<lambda>x. x\<lparr>child_names := (child_names x)(n_children x := nm),
           child_inodes := (child_inodes x)(n_children x := slot_ino (n_inodes w)),
           n_children := n_children x + 1, mtime := t, ctime := t\<rparr>) w2" by simp
  have "tree_edges (edges v)"
    using fs_inv_tree [OF assms(1)] fs_baseD(1) [OF fs_inv_base [OF assms(1)]]
    unfolding e tree_edges_def by (auto dest: edges_below)
  with d'(3) show "fs_inv v" by (simp add: fs_inv_def)
  show "d < n_inodes w" by (rule d(1))
  with d'(1,2) assms(5) show "S_ISDIR (mode (inodes w d))" by simp
qed


text \<open>The inode \<^verbatim>\<open>fused_create\<close> and \<^verbatim>\<open>fused_mkdir\<close> set up in slot \<open>i\<close>.\<close>

definition fresh_inode :: "fs_env \<Rightarrow> u32 \<Rightarrow> off_t \<Rightarrow> nat \<Rightarrow> fused_inode" where
  "fresh_inode e m sz i = zero_inode\<lparr>ino := slot_ino i, backing_path := backing_of i, mode := m,
     uid := fst (owner_of e), gid := snd (owner_of e), isize := sz,
     atime := time_at e 0, mtime := time_at e 0, ctime := time_at e 0\<rparr>"

definition with_fresh :: "fs_env \<Rightarrow> u32 \<Rightarrow> off_t \<Rightarrow> fused_world \<Rightarrow> fused_world" where
  "with_fresh e m sz w =
     (upd_inode (n_inodes w) (\<lambda>_. fresh_inode e m sz (n_inodes w)) w)\<lparr>n_inodes := Suc (n_inodes w)\<rparr>"

lemma fresh_inode_simps [simp]:
  "ino (fresh_inode e m sz i) = slot_ino i" "n_children (fresh_inode e m sz i) = 0"
  "backing_path (fresh_inode e m sz i) = backing_of i" "mode (fresh_inode e m sz i) = m"
  "isize (fresh_inode e m sz i) = sz"
  by (simp_all add: fresh_inode_def zero_inode_def)

lemma with_fresh_simps [simp]:
  "inodes (with_fresh e m sz w) = (inodes w)(n_inodes w := fresh_inode e m sz (n_inodes w))"
  "n_inodes (with_fresh e m sz w) = Suc (n_inodes w)" "files (with_fresh e m sz w) = files w"
  "backing_dir (with_fresh e m sz w) = backing_dir w"
  by (simp_all add: with_fresh_def)

lemma with_fresh_inv:
  assumes "fs_inv w" "n_inodes w < MAX_INODES"
  shows "fs_inv ((with_fresh e m sz w)\<lparr>files := fs\<rparr>)" "edges ((with_fresh e m sz w)\<lparr>files := fs\<rparr>) = edges w"
  by (rule new_slot [OF assms]; simp)+

lemma new_name_ok:
  assumes "fs_base w" "split_path p = (pp, nm)" "path_to_inode w p = None" "path_to_inode w pp = Some d"
  shows "name_ok nm"
  using assms by (intro split_path_name_ok [of p pp]) (auto simp: path_to_inode_resolve)

lemma alloc_initialised:
  assumes "fs_inv w" "n_inodes w < MAX_INODES"
  shows "\<exists>w1. alloc_inode w = (Some (n_inodes w), w1) \<and>
    upd_inode (n_inodes w) (\<lambda>x. x\<lparr>mode := m, uid := fst (owner_of e), gid := snd (owner_of e), isize := sz,
       atime := time_at e 0, mtime := time_at e 0, ctime := time_at e 0\<rparr>) w1 = with_fresh e m sz w \<and>
    upd_inode (n_inodes w) (\<lambda>x. x\<lparr>mode := m, uid := fst (owner_of e), gid := snd (owner_of e), isize := sz,
       atime := time_at e 0, mtime := time_at e 0, ctime := time_at e 0, n_children := 0\<rparr>) w1 = with_fresh e m sz w"
proof -
  have "generate_backing_path w (of_nat (Suc (n_inodes w))) = backing_of (n_inodes w)"
    using backing_of_generate [of w "n_inodes w"] fs_baseD(5) [OF fs_inv_base [OF assms(1)]] assms(2)
    by (simp add: slot_ino_def)
  then have "alloc_inode w = (Some (n_inodes w), (upd_inode (n_inodes w) (\<lambda>_. zero_inode\<lparr>ino := slot_ino (n_inodes w),
      backing_path := backing_of (n_inodes w)\<rparr>) w)\<lparr>n_inodes := Suc (n_inodes w)\<rparr>)"
    using assms(2) by (simp add: alloc_inode_def Let_def slot_ino_def del: of_nat_Suc)
  then show ?thesis
    by (intro exI conjI, assumption)
      (rule fused_world.equality;
        simp add: upd_inode_def with_fresh_def fresh_inode_def zero_inode_def)+
qed

text \<open>The branches of \<^verbatim>\<open>fused_create\<close> and \<^verbatim>\<open>fused_mkdir\<close>: refused without a change, failed after the
  allocation and rolled back, or entered in the parent directory.\<close>

definition entered :: "fs_env \<Rightarrow> u32 \<Rightarrow> off_t \<Rightarrow> string \<Rightarrow> host_files \<Rightarrow> fused_world \<Rightarrow> fused_world \<Rightarrow> bool" where
  "entered e m sz p fs w v \<longleftrightarrow>
     path_to_inode w p = None \<and> n_inodes w < MAX_INODES \<and>
     (\<exists>d. path_to_inode w (fst (split_path p)) = Some d \<and>
        dir_add_entry (time_at e 1) (Some d) (snd (split_path p)) (n_inodes w)
          ((with_fresh e m sz w)\<lparr>files := fs\<rparr>) = (Inr (), v))"

lemma fused_create_entering:
  assumes "fs_inv w" "path_to_inode w p = None" "n_inodes w < MAX_INODES"
    "path_to_inode w (fst (split_path p)) = Some d" "S_ISDIR (mode (inodes w d))"
  shows "fused_create e p md w =
    (let w2 = with_fresh e (S_IFREG OR (md AND 0x1FF)) 0 w in
     case fopen_wb e (backing_of (n_inodes w)) (files w) of
       None \<Rightarrow> (Inl EIO, free_inode e (n_inodes w) w2)
     | Some fs \<Rightarrow> (case dir_add_entry (time_at e 1) (Some d) (snd (split_path p)) (n_inodes w) (w2\<lparr>files := fs\<rparr>) of
                (Inl err, w3) \<Rightarrow> (Inl err, free_inode e (n_inodes w) w3)
              | (Inr _, w3) \<Rightarrow> (Inr (ino (inodes w3 (n_inodes w))), w3)))"
proof -
  let ?w2 = "with_fresh e (S_IFREG OR (md AND 0x1FF)) 0 w"
  obtain pp nm where sp: "split_path p = (pp, nm)" by fastforce
  obtain w1 where al: "alloc_inode w = (Some (n_inodes w), w1)"
    and ini: "upd_inode (n_inodes w) (\<lambda>x. x\<lparr>mode := S_IFREG OR (md AND 0x1FF), uid := fst (owner_of e),
       gid := snd (owner_of e), isize := 0, atime := time_at e 0, mtime := time_at e 0,
       ctime := time_at e 0\<rparr>) w1 = ?w2"
    using alloc_initialised [OF assms(1) assms(3), where m = "S_IFREG OR (md AND 0x1FF)" and e = e and sz = 0]
    by blast
  have bp: "backing_path (inodes w1 (n_inodes w)) = backing_of (n_inodes w)" "files w1 = files w"
    using arg_cong [OF ini, of "\<lambda>z. backing_path (inodes z (n_inodes w))"] arg_cong [OF ini, of files]
    by simp_all
  with assms(2-5) sp show ?thesis by (simp add: fused_create_def Let_def al ini cong: option.case_cong)
qed

lemma fused_create_cases:
  assumes "fs_inv w" "fused_create e p md w = (r, v)"
  obtains (refused) err where "r = Inl err" "v = w"
  | (rolled_back) err fs where "r = Inl err" "n_inodes w < MAX_INODES"
      "v = free_inode e (n_inodes w) ((with_fresh e (S_IFREG OR (md AND 0x1FF)) 0 w)\<lparr>files := fs\<rparr>)"
      "fs = files w \<or> fopen_wb e (backing_of (n_inodes w)) (files w) = Some fs"
  | (created) fs where "entered e (S_IFREG OR (md AND 0x1FF)) 0 p fs w v" "r = Inr (ino (inodes v (n_inodes w)))"
      "fopen_wb e (backing_of (n_inodes w)) (files w) = Some fs"
proof (cases "path_to_inode w p = None \<and> n_inodes w < MAX_INODES \<and>
    (\<exists>d. path_to_inode w (fst (split_path p)) = Some d \<and> S_ISDIR (mode (inodes w d)))")
  case False
  with assms(2) have "\<exists>err. r = Inl err \<and> v = w"
    by (auto simp: fused_create_def alloc_inode_def Let_def case_prod_beta split: if_splits option.splits)
  with refused show ?thesis by blast
next
  case True
  then obtain d where d: "path_to_inode w p = None" "n_inodes w < MAX_INODES"
    "path_to_inode w (fst (split_path p)) = Some d" "S_ISDIR (mode (inodes w d))" by blast
  let ?w2 = "with_fresh e (S_IFREG OR (md AND 0x1FF)) 0 w"
  note eq = fused_create_entering [OF assms(1) d, of e md, unfolded Let_def]
  show ?thesis
  proof (cases "fopen_wb e (backing_of (n_inodes w)) (files w)")
    case None
    have w2: "?w2\<lparr>files := files w\<rparr> = ?w2" by (simp add: with_fresh_def upd_inode_def)
    from None eq assms(2) have "r = Inl EIO" "v = free_inode e (n_inodes w) ?w2" by auto
    then show ?thesis by (rule rolled_back [of _ "files w", unfolded w2, OF _ d(2)]) simp
  next
    case (Some fs)
    obtain rc w3 where add: "dir_add_entry (time_at e 1) (Some d) (snd (split_path p)) (n_inodes w) (?w2\<lparr>files := fs\<rparr>) = (rc, w3)"
      by fastforce
    show ?thesis
    proof (cases rc)
      case (Inl err)
      with add have "w3 = ?w2\<lparr>files := fs\<rparr>" by (auto dest: dir_add_entry_Inl)
      with Some Inl add eq assms(2) d(2) rolled_back show ?thesis by auto
    next
      case (Inr u)
      with Some add have "fused_create e p md w = (Inr (ino (inodes w3 (n_inodes w))), w3)"
        unfolding eq by simp
      with assms(2) have "v = w3" "r = Inr (ino (inodes v (n_inodes w)))" by auto
      with Inr add d Some created [of fs] show ?thesis by (auto simp: entered_def)
    qed
  qed
qed

lemma fused_mkdir_entering:
  assumes "fs_inv w" "path_to_inode w p = None" "n_inodes w < MAX_INODES"
    "path_to_inode w (fst (split_path p)) = Some d" "S_ISDIR (mode (inodes w d))"
  shows "fused_mkdir e p md w =
    (case dir_add_entry (time_at e 1) (Some d) (snd (split_path p)) (n_inodes w)
            (with_fresh e (S_IFDIR OR (md AND 0x1FF)) 4096 w) of
       (Inl err, w3) \<Rightarrow> (Inl err, free_inode e (n_inodes w) w3)
     | (Inr _, w3) \<Rightarrow> (Inr (), w3))"
proof -
  let ?w2 = "with_fresh e (S_IFDIR OR (md AND 0x1FF)) 4096 w"
  obtain pp nm where sp: "split_path p = (pp, nm)" by fastforce
  obtain w1 where al: "alloc_inode w = (Some (n_inodes w), w1)"
    and ini: "upd_inode (n_inodes w) (\<lambda>x. x\<lparr>mode := S_IFDIR OR (md AND 0x1FF), uid := fst (owner_of e),
       gid := snd (owner_of e), isize := 4096, atime := time_at e 0, mtime := time_at e 0,
       ctime := time_at e 0, n_children := 0\<rparr>) w1 = ?w2"
    using alloc_initialised [OF assms(1) assms(3), where m = "S_IFDIR OR (md AND 0x1FF)" and e = e and sz = 4096]
    by blast
  with assms(2-5) sp show ?thesis by (simp add: fused_mkdir_def Let_def al cong: option.case_cong)
qed

lemma fused_mkdir_cases:
  assumes "fs_inv w" "fused_mkdir e p md w = (r, v)"
  obtains (refused) err where "r = Inl err" "v = w"
  | (rolled_back) err fs where "r = Inl err" "n_inodes w < MAX_INODES"
      "v = free_inode e (n_inodes w) ((with_fresh e (S_IFDIR OR (md AND 0x1FF)) 4096 w)\<lparr>files := fs\<rparr>)"
      "fs = files w"
  | (created) "entered e (S_IFDIR OR (md AND 0x1FF)) 4096 p (files w) w v" "r = Inr ()"
proof (cases "path_to_inode w p = None \<and> n_inodes w < MAX_INODES \<and>
    (\<exists>d. path_to_inode w (fst (split_path p)) = Some d \<and> S_ISDIR (mode (inodes w d)))")
  case False
  with assms(2) have "\<exists>err. r = Inl err \<and> v = w"
    by (auto simp: fused_mkdir_def alloc_inode_def Let_def case_prod_beta split: if_splits option.splits)
  with refused show ?thesis by blast
next
  case True
  then obtain d where d: "path_to_inode w p = None" "n_inodes w < MAX_INODES"
    "path_to_inode w (fst (split_path p)) = Some d" "S_ISDIR (mode (inodes w d))" by blast
  let ?w2 = "with_fresh e (S_IFDIR OR (md AND 0x1FF)) 4096 w"
  note eq = fused_mkdir_entering [OF assms(1) d, of e md]
  have w2: "?w2\<lparr>files := files w\<rparr> = ?w2" by (simp add: with_fresh_def upd_inode_def)
  obtain rc w3 where add: "dir_add_entry (time_at e 1) (Some d) (snd (split_path p)) (n_inodes w) ?w2 = (rc, w3)"
    by fastforce
  show ?thesis
  proof (cases rc)
    case (Inl err)
    with add have "w3 = ?w2" by (auto dest: dir_add_entry_Inl)
    with Inl add eq assms(2) have "r = Inl err" "v = free_inode e (n_inodes w) ?w2" by auto
    then show ?thesis by (rule rolled_back [of _ "files w", unfolded w2, OF _ d(2)]) simp
  next
    case (Inr u)
    with add have "fused_mkdir e p md w = (Inr (), w3)"
      unfolding eq by simp
    with assms(2) have "v = w3" "r = Inr ()" by simp_all
    with Inr add d show ?thesis by (intro created) (auto simp: entered_def w2)
  qed
qed

text \<open>What a failed creation leaves: the table below the new slot, and every edge, unchanged.\<close>

definition table_kept :: "fused_world \<Rightarrow> fused_world \<Rightarrow> bool" where
  "table_kept w v \<longleftrightarrow> fs_inv v \<and> edges v = edges w \<and> n_inodes v = n_inodes w \<and>
     (\<forall>j<n_inodes w. inodes v j = inodes w j)"

lemma table_kept_refl: "fs_inv w \<Longrightarrow> table_kept w w"
  by (simp add: table_kept_def)

lemma fresh_freed:
  assumes "fs_inv w" "n_inodes w < MAX_INODES"
  shows "table_kept w (free_inode e (n_inodes w) ((with_fresh e m sz w)\<lparr>files := fs\<rparr>))"
proof -
  have pos: "n_inodes w \<noteq> 0" using fs_baseD(1) [OF fs_inv_base [OF assms(1)]] by simp
  have below: "\<forall>(d, nm, c) \<in> edges w. d < n_inodes w \<and> c < n_inodes w"
    by (auto dest: edges_below)
  note f = new_slot_freed [OF with_fresh_inv(1) [OF assms, where e = e and m = m and sz = sz and fs = fs] _ pos
      with_fresh_inv(2) [OF assms, where e = e and m = m and sz = sz and fs = fs] below, of e, simplified]
  from f show ?thesis
    by (simp add: table_kept_def)
qed

lemma fused_create_Inl:
  assumes "fs_inv w" "fused_create e p md w = (Inl err, v)"
  shows "table_kept w v"
  using assms
proof (cases rule: fused_create_cases)
  case (rolled_back err' fs)
  then show ?thesis using fresh_freed [OF assms(1) rolled_back(2)] by (simp only:)
qed (use table_kept_refl [OF assms(1)] in simp_all)

lemma fused_mkdir_Inl:
  assumes "fs_inv w" "fused_mkdir e p md w = (Inl err, v)"
  shows "table_kept w v"
  using assms
proof (cases rule: fused_mkdir_cases)
  case (rolled_back err' fs)
  then show ?thesis using fresh_freed [OF assms(1) rolled_back(2)] by (simp only:)
qed (use table_kept_refl [OF assms(1)] in simp_all)

lemma enteredD:
  assumes "fs_inv w" "entered e m sz p fs w v"
  obtains d pp nm where "split_path p = (pp, nm)" "path_to_inode w pp = Some d" "name_ok nm"
    "fs_inv v" "edges v = insert (d, nm, n_inodes w) (edges w)" "d < n_inodes w"
    "n_inodes w < MAX_INODES" "n_inodes v = Suc (n_inodes w)" "files v = fs"
    "inodes v (n_inodes w) = fresh_inode e m sz (n_inodes w)"
    "\<And>j. j < n_inodes w \<Longrightarrow> j \<noteq> d \<Longrightarrow> inodes v j = inodes w j"
    "mode (inodes v d) = mode (inodes w d)" "backing_path (inodes v d) = backing_path (inodes w d)"
    "isize (inodes v d) = isize (inodes w d)"
proof -
  obtain pp nm where s: "split_path p = (pp, nm)" by fastforce
  from assms(2) s obtain d where d: "path_to_inode w pp = Some d" "path_to_inode w p = None"
    "n_inodes w < MAX_INODES"
    and add: "dir_add_entry (time_at e 1) (Some d) nm (n_inodes w) ((with_fresh e m sz w)\<lparr>files := fs\<rparr>) = (Inr (), v)"
    by (auto simp: entered_def)
  have nm: "name_ok nm" by (rule new_name_ok [OF fs_inv_base [OF assms(1)] s d(2,1)])
  note n = new_slot_entered [OF assms(1) with_fresh_inv [OF assms(1) d(3)] _ _ _ d(1) nm add]
  have v: "fs_inv v" "edges v = insert (d, nm, n_inodes w) (edges w)" "d < n_inodes w"
    by (rule n; simp)+
  have veq: "v = upd_inode d (\<lambda>x. x\<lparr>child_names := (child_names x)(n_children x := nm),
           child_inodes := (child_inodes x)(n_children x := slot_ino (n_inodes w)),
           n_children := n_children x + 1, mtime := time_at e 1, ctime := time_at e 1\<rparr>)
           ((with_fresh e m sz w)\<lparr>files := fs\<rparr>)"
    by (rule n; simp)
  show ?thesis
    by (rule that [OF s d(1) nm v d(3)]) (use v(3) in \<open>simp_all add: veq\<close>)
qed

section \<open>unlink and rmdir\<close>

text \<open>The edge set after an inode has lost its one entry and its slot has been cleared.\<close>

definition without :: "nat \<Rightarrow> (nat \<times> string \<times> nat) set \<Rightarrow> (nat \<times> string \<times> nat) set" where
  "without i E = {(d, nm, c) \<in> E. d \<noteq> i \<and> c \<noteq> i}"

lemma tree_without: "tree_edges E \<Longrightarrow> tree_edges (without i E)"
  unfolding tree_edges_def without_def by blast

lemma tree_remove_only:
  assumes "tree_edges E" "(d, nm, i) \<in> E"
  shows "\<forall>d' nm'. (d', nm', i) \<notin> E - {(d, nm, i)}"
    "{(d', nm', c) \<in> E - {(d, nm, i)}. d' \<noteq> i} = without i E" "i \<noteq> 0"
  using assms unfolding tree_edges_def without_def by blast+

lemma fused_unlink_Inl: "fused_unlink e p w = (Inl err, v) \<Longrightarrow> v = w"
  by (auto simp: fused_unlink_def Let_def split: option.splits prod.splits if_splits sum.splits
      dest: dir_rm_entry_Inl)

lemma fused_unlink_Inr:
  assumes "fs_inv w" "fused_unlink e p w = (Inr u, v)"
  obtains i d pp nm where "path_to_inode w p = Some i" "split_path p = (pp, nm)"
    "path_to_inode w pp = Some d" "(d, nm, i) \<in> edges w" "fs_inv v" "edges v = without i (edges w)"
    "\<And>j. j \<noteq> i \<Longrightarrow> j \<noteq> d \<Longrightarrow> inodes v j = inodes w j" "i \<noteq> 0"
    "d \<noteq> i \<Longrightarrow> mode (inodes v d) = mode (inodes w d) \<and> backing_path (inodes v d) = backing_path (inodes w d)
       \<and> isize (inodes v d) = isize (inodes w d)"
    "files v = (if backing_path (inodes w i) = [] then files w
                else host_unlink e (backing_path (inodes w i)) (files w))"
    "d \<noteq> i \<Longrightarrow> ino (inodes v d) = ino (inodes w d)" "ino (inodes v i) = 0"
    "n_inodes v = (if i = n_inodes w - 1 then n_inodes w - 1 else n_inodes w)"
proof -
  note base = fs_inv_base [OF assms(1)]
  obtain pp nm where s: "split_path p = (pp, nm)" by fastforce
  from assms(2) s obtain i d w1 where i: "path_to_inode w p = Some i" "path_to_inode w pp = Some d"
    and rm: "dir_rm_entry (time_at e 0) (Some d) nm i w = (Inr (), w1)" and v: "v = free_inode e i w1"
    by (auto simp: fused_unlink_def Let_def split: option.splits if_splits sum.splits prod.splits)
  note il = path_to_inode_slot [OF base i(1)]
  have dl: "\<And>d'. Some d = Some d' \<Longrightarrow> d' < n_inodes w"
    using path_to_inode_slot(1) [OF base i(2)] by simp
  from dir_rm_entry_Inr [OF base rm dl il] obtain j where w1: "fs_base w1" "(d, nm, i) \<in> edges w"
    "edges w1 = edges w - {(d, nm, i)}" "w1 = upd_inode d (remove_child j (time_at e 0)) w"
    by (metis option.inject)
  note t = tree_remove_only [OF fs_inv_tree [OF assms(1)] w1(2)]
  have n1: "n_inodes w1 = n_inodes w" by (simp add: w1(4))
  have fr: "fs_base v" "edges v = without i (edges w)"
    unfolding v using free_inode_base [OF w1(1), of i e] t il(1) n1 by (simp_all add: w1(3))
  then have "fs_inv v" using tree_without [OF fs_inv_tree [OF assms(1)]] by (simp add: fs_inv_def)
  have same: "backing_path (inodes w1 i) = backing_path (inodes w i)" "files w1 = files w"
    by (auto simp: w1(4) remove_child_def)
  show ?thesis
    by (rule that [OF i(1) s i(2) w1(2) \<open>fs_inv v\<close> fr(2) _ t(3)])
      (auto simp: v free_inode_def Let_def same zero_inode_def, auto simp: w1(4) remove_child_def)
qed

lemma split_path_slash:
  assumes "p \<noteq> ''/''" "strrchr (strncpy0 p (MAX_PATH - 1)) CHR ''/'' = Some s"
  shows "split_path p = (if s = 0 then ''/'' else take s (strncpy0 p (MAX_PATH - 1)),
                         drop (Suc s) (strncpy0 p (MAX_PATH - 1)))"
  using assms by (simp add: split_path_def Let_def)

lemma fused_rmdir_Inl: "fused_rmdir e p w = (Inl err, v) \<Longrightarrow> v = w"
  by (auto simp: fused_rmdir_def Let_def split: option.splits if_splits)

lemma resolve_snoc_edge:
  assumes "fs_base w" "resolve w ts = Some d" "resolve w (ts @ [nm]) = Some i"
  shows "(d, nm, i) \<in> edges w"
proof -
  have "path_rel (edges w) 0 ts d" "path_rel (edges w) 0 (ts @ [nm]) i"
    using assms by (simp_all add: resolve_rel)
  then obtain m where m: "path_rel (edges w) 0 ts m" "(m, nm, i) \<in> edges w"
    by (auto simp only: path_rel_snoc)
  then have "m = d"
    using assms(2) resolve_rel [OF assms(1), of ts m] by simp
  with m show ?thesis by simp
qed

lemma fused_rmdir_Inr:
  assumes "fs_inv w" "fused_rmdir e p w = (Inr u, v)"
  obtains i d pp nm where "path_to_inode w p = Some i" "split_path p = (pp, nm)"
    "path_to_inode w pp = Some d" "(d, nm, i) \<in> edges w" "fs_inv v" "edges v = without i (edges w)"
    "S_ISDIR (mode (inodes w i))" "n_children (inodes w i) = 0" "i \<noteq> 0" "d \<noteq> i"
    "\<And>j. j \<noteq> i \<Longrightarrow> j \<noteq> d \<Longrightarrow> inodes v j = inodes w j"
    "mode (inodes v d) = mode (inodes w d) \<and> backing_path (inodes v d) = backing_path (inodes w d)
       \<and> isize (inodes v d) = isize (inodes w d)"
    "files v = files w" "n_inodes v = n_inodes w" "inodes v i = zero_inode"
    "ino (inodes v d) = ino (inodes w d)"
proof -
  note base = fs_inv_base [OF assms(1)]
  from assms(2) obtain i s where p: "p \<noteq> ''/''" "path_to_inode w p = Some i" "S_ISDIR (mode (inodes w i))"
    "n_children (inodes w i) = 0" "strrchr (strncpy0 p (MAX_PATH - 1)) CHR ''/'' = Some s"
    by (auto simp: fused_rmdir_def Let_def split: option.splits if_splits)
  obtain pp nm where s: "split_path p = (pp, nm)" by fastforce
  with split_path_slash [OF p(1,5)] have pn: "pp = (if s = 0 then ''/'' else take s (strncpy0 p (MAX_PATH - 1)))"
    "nm = drop (Suc s) (strncpy0 p (MAX_PATH - 1))" by simp_all
  from assms(2) p pn obtain d j where d: "path_to_inode w pp = Some d" "find_child (inodes w d) nm = Some j"
    and v: "v = upd_inode i (\<lambda>_. zero_inode) (upd_inode d (remove_child j (time_at e 0)) w)"
    by (auto simp: fused_rmdir_def Let_def split: option.splits if_splits)
  note il = path_to_inode_slot [OF base p(2)] and dl = path_to_inode_slot [OF base d(1)]
  note fc = find_child_SomeD [OF d(2)]
  from fc obtain c where c: "c < n_inodes w" "child_inodes (inodes w d) j = slot_ino c" "(d, nm, c) \<in> edges w"
    using entry_edge [OF base dl(1)] by metis
  have "CHR ''/'' \<in> set (take (MAX_PATH - 1) p)"
    using p(5) by (metis strrchr_None_iff strncpy0_def option.distinct(1))
  with split_path_tokens [OF s] split_path_name [OF s] edges_live(4) [OF base c(3)]
  have "path_tokens p = path_tokens pp @ [nm]" by (simp add: tokens_single name_ok_def)
  with p(2) d(1) have e: "(d, nm, i) \<in> edges w"
    by (intro resolve_snoc_edge [OF base, of "path_tokens pp"]) (simp_all add: path_to_inode_resolve [OF base])
  with c(3) have ci: "c = i" by (rule edges_name_unique [OF base])
  have di: "d \<noteq> i" using edges_finite_dir [OF e] p(4) by auto
  note t = tree_remove_only [OF fs_inv_tree [OF assms(1)] e]
  let ?w1 = "upd_inode d (remove_child j (time_at e 0)) w"
  have w1: "fs_base ?w1" "edges ?w1 = edges w - {(d, nm, i)}"
    using remove_entry_base [OF base dl(1) _ c(1,2), of "time_at e 0"] fc ci by auto
  have cl: "fs_base v" "edges v = {(d', nm', c') \<in> edges ?w1. d' \<noteq> i}"
    by (rule clear_slot_base [OF w1(1)]; use il t w1(2) v in auto)+
  with w1(2) t(2) have ev: "edges v = without i (edges w)" by simp
  then have "fs_inv v" using cl(1) tree_without [OF fs_inv_tree [OF assms(1)]] by (simp add: fs_inv_def)
  show ?thesis
    by (rule that [OF p(2) s d(1) e \<open>fs_inv v\<close> ev p(3,4) t(3) di])
      (use di in \<open>auto simp: v remove_child_def\<close>)
qed

section \<open>rename\<close>

lemma tree_move:
  assumes "tree_edges E" "(d1, n1, i) \<in> insert (d2, n2, i) E"
  shows "tree_edges (insert (d2, n2, i) E - {(d1, n1, i)})"
proof (cases "(d1, n1, i) = (d2, n2, i)")
  case True
  then have "insert (d2, n2, i) E - {(d1, n1, i)} \<subseteq> E" by auto
  with assms(1) show ?thesis unfolding tree_edges_def by blast
next
  case False
  with assms(2) have "(d1, n1, i) \<in> E" by auto
  with assms(1) show ?thesis unfolding tree_edges_def by blast
qed

lemma rollback_index:
  assumes "find_child x nm = None" "entries y = entries x @ [(nm, k)]" "j < n_children y" "child_names y j = nm"
  shows "j = length (entries x)"
proof (rule ccontr)
  assume "j \<noteq> length (entries x)"
  moreover have "n_children y = Suc (length (entries x))"
    using arg_cong [OF assms(2), of length] by simp
  ultimately have "j < length (entries x)" using assms(3) by simp
  then have "entries x ! j = (nm, child_inodes y j)"
    using nth_entries [OF assms(3)] assms(2,4) by (simp add: nth_append)
  with \<open>j < length (entries x)\<close> have "nm \<in> fst ` set (entries x)"
    by (metis fst_conv imageI nth_mem)
  with assms(1) show False by (simp add: find_child_None_iff)
qed

lemma fused_rename_cases:
  assumes "fs_inv w" "fused_rename e from to w = (r, v)"
  obtains (unchanged) "v = w" "from = to \<or> (\<exists>err. r = Inl err)"
  | (undone) err i d2 where "r = Inl err" "path_to_inode w from = Some i"
      "fs_inv v" "edges v = edges w" "n_inodes v = n_inodes w"
      "\<And>j. j \<noteq> d2 \<Longrightarrow> inodes v j = inodes w j" "files v = files w" "d2 < n_inodes w"
      "ino (inodes v d2) = ino (inodes w d2)" "mode (inodes v d2) = mode (inodes w d2)"
      "entries (inodes v d2) = entries (inodes w d2)" "isize (inodes v d2) = isize (inodes w d2)"
      "backing_path (inodes v d2) = backing_path (inodes w d2)"
  | (moved) i d1 n1 d2 n2 sp dp where "r = Inr ()" "path_to_inode w from = Some i"
      "path_to_inode w to = None" "split_path from = (sp, n1)" "split_path to = (dp, n2)"
      "path_to_inode w sp = Some d1" "path_to_inode w dp = Some d2"
      "(d1, n1, i) \<in> insert (d2, n2, i) (edges w)" "(d2, n2, i) \<notin> edges w" "name_ok n2" "fs_inv v"
      "edges v = insert (d2, n2, i) (edges w) - {(d1, n1, i)}" "n_inodes v = n_inodes w" "files v = files w"
      "\<And>j. mode (inodes v j) = mode (inodes w j) \<and> backing_path (inodes v j) = backing_path (inodes w j)
         \<and> isize (inodes v j) = isize (inodes w j)"
      "\<And>j. ino (inodes v j) = ino (inodes w j)"
proof -
  note base = fs_inv_base [OF assms(1)] and tree = fs_inv_tree [OF assms(1)]
  obtain sp n1 dp n2 where s: "split_path from = (sp, n1)" "split_path to = (dp, n2)" by fastforce
  show ?thesis
  proof (cases "from = to \<or> path_to_inode w from = None \<or> path_to_inode w to \<noteq> None
      \<or> (\<exists>err. dir_add_entry (time_at e 0) (path_to_inode w dp) n2 (the (path_to_inode w from)) w = (Inl err, w))")
    case True
    then have "v = w" "from = to \<or> (\<exists>err. r = Inl err)"
      using assms(2) s by (auto simp: fused_rename_def split: if_splits option.splits)
    then show ?thesis by (rule unchanged)
  next
    case False
    then obtain i where i: "from \<noteq> to" "path_to_inode w from = Some i" "path_to_inode w to = None" by auto
    note il = path_to_inode_slot [OF base i(2)]
    obtain rc w1 where add0: "dir_add_entry (time_at e 0) (path_to_inode w dp) n2 i w = (rc, w1)" by fastforce
    with False i obtain u where "rc = Inr u" by (cases rc) (auto dest: dir_add_entry_Inl)
    with add0 have add: "dir_add_entry (time_at e 0) (path_to_inode w dp) n2 i w = (Inr u, w1)" by simp
    then obtain d2 where d2: "path_to_inode w dp = Some d2"
      by (cases "path_to_inode w dp") (auto simp: dir_add_entry_def)
    have n2: "name_ok n2" by (rule new_name_ok [OF base s(2) i(3) d2])
    note d2l = path_to_inode_slot [OF base d2]
    have dir: "\<And>d. path_to_inode w dp = Some d \<Longrightarrow> d < n_inodes w \<and> ino (inodes w d) = slot_ino d"
      using d2 d2l by simp
    obtain d where d: "path_to_inode w dp = Some d" and
      w1': "fs_base w1" "edges w1 = insert (d, n2, i) (edges w)" "find_child (inodes w d) n2 = None"
      and w1eq': "w1 = upd_inode d (\<lambda>x. x\<lparr>child_names := (child_names x)(n_children x := n2),
           child_inodes := (child_inodes x)(n_children x := slot_ino i),
           n_children := n_children x + 1, mtime := time_at e 0, ctime := time_at e 0\<rparr>) w"
      by (rule dir_add_entry_Inr [OF base add n2 dir il])
    have "d = d2" using d d2 by simp
    note w1 = w1' [unfolded this] and w1eq = w1eq' [unfolded this]
    have new: "(d2, n2, i) \<notin> edges w" using w1(3) by (force simp: edges_def find_child_None_iff)
    have w1f: "n_inodes w1 = n_inodes w" "files w1 = files w" "\<And>j. ino (inodes w1 j) = ino (inodes w j)"
      "\<And>j. mode (inodes w1 j) = mode (inodes w j)" "\<And>j. backing_path (inodes w1 j) = backing_path (inodes w j)"
      "\<And>j. isize (inodes w1 j) = isize (inodes w j)" "\<And>j. j \<noteq> d2 \<Longrightarrow> inodes w1 j = inodes w j"
      by (simp_all add: w1eq)
    have e1: "entries (inodes w1 d2) = entries (inodes w d2) @ [(n2, slot_ino i)]"
      unfolding w1eq by (simp add: entries_add [simplified])
    have lt: "\<And>d. path_to_inode w sp = Some d \<Longrightarrow> d < n_inodes w1"
      using path_to_inode_slot(1) [OF base] w1f(1) by simp
    have il1: "i < n_inodes w1" "ino (inodes w1 i) = slot_ino i" using il w1f by simp_all
    have add': "dir_add_entry (time_at e 0) (Some d2) n2 i w = (Inr u, w1)" using add d2 by simp
    have eq: "fused_rename e from to w = (case dir_rm_entry (time_at e 1) (path_to_inode w sp) n1 i w1 of
                    (Inl err, w2) \<Rightarrow>
                      (Inl err, snd (dir_rm_entry (time_at e 1) (Some d2) n2 i w2))
                  | (Inr _, w2) \<Rightarrow>
                      (Inr (), upd_inode i (\<lambda>x. x\<lparr>atime := time_at e 2, mtime := time_at e 2\<rparr>) w2))"
      by (simp add: fused_rename_def i s d2 add')
    obtain rc w2 where rm0: "dir_rm_entry (time_at e 1) (path_to_inode w sp) n1 i w1 = (rc, w2)" by fastforce
    show ?thesis
    proof (cases rc)
      case (Inl err)
      with rm0 have w2: "w2 = w1" by (auto dest: dir_rm_entry_Inl)
      obtain w3 where rb: "dir_rm_entry (time_at e 1) (Some d2) n2 i w1 = (Inr (), w3)"
        using dir_rm_entry_finds [OF w1(1), of d2 n2 i] w1(2) by auto
      from assms(2) have v: "v = w3" "r = Inl err"
        unfolding eq rm0 Inl w2 prod.case sum.case rb by simp_all
      have ld2: "\<And>d. Some d2 = Some d \<Longrightarrow> d < n_inodes w1" using d2l w1f(1) by simp
      obtain d j where dj: "Some d2 = Some d" and
        w3': "fs_base w3" "edges w3 = edges w1 - {(d, n2, i)}" "j < n_children (inodes w1 d)"
          "w3 = upd_inode d (remove_child j (time_at e 1)) w1" "child_names (inodes w1 d) j = n2"
        by (rule dir_rm_entry_Inr [OF w1(1) rb ld2 il1])
      have "d = d2" using dj by simp
      note w3 = w3' [unfolded this]
      have "edges w3 = edges w" using w3(2) w1(2) new by auto
      with w3(1) tree have inv3: "fs_inv w3" "edges w3 = edges w" by (simp_all add: fs_inv_def)
      have "j = length (entries (inodes w d2))"
        by (rule rollback_index [OF w1(3) e1 w3(3,5)])
      then have e3: "entries (inodes w3 d2) = entries (inodes w d2)"
        using w3(3) remove_nth_append [of "entries (inodes w d2)" "(n2, slot_ino i)"]
        by (simp add: w3(4) entries_remove_child e1)
      show ?thesis
      proof (rule undone [of err i d2])
        show "inodes v j = inodes w j" if "j \<noteq> d2" for j
          using that by (simp add: v(1) w3(4) w1f)
      qed (simp_all add: v i inv3 e3 d2l(1), simp_all add: w3(4) w1f remove_child_def)
    next
      case (Inr u')
      with rm0 have rm: "dir_rm_entry (time_at e 1) (path_to_inode w sp) n1 i w1 = (Inr u', w2)" by simp
      from dir_rm_entry_Inr [OF w1(1) rm lt il1] obtain d1 j where
        w2: "path_to_inode w sp = Some d1" "fs_base w2" "(d1, n1, i) \<in> edges w1"
          "edges w2 = edges w1 - {(d1, n1, i)}" "w2 = upd_inode d1 (remove_child j (time_at e 1)) w1"
        by metis
      from assms(2) have v: "r = Inr ()" "v = upd_inode i (\<lambda>x. x\<lparr>atime := time_at e 2, mtime := time_at e 2\<rparr>) w2"
        unfolding eq rm prod.case sum.case by simp_all
      have "tree_edges (edges w2)"
        using tree_move [OF tree, of d1 n1 i d2 n2] w2(3,4) w1(2) by simp
      with w2(2) have "fs_inv w2" by (simp add: fs_inv_def)
      have st: "same_table w2 v" unfolding v(2)
        by (rule same_table_upd) (simp add: same_shape_def entries_def)
      have v2: "fs_inv v" "edges v = insert (d2, n2, i) (edges w) - {(d1, n1, i)}"
        using same_table_inv [OF st \<open>fs_inv w2\<close>] same_table_edges [OF st] w2(4) w1(2) by simp_all
      show ?thesis
        by (rule moved [OF v(1) i(2,3) s w2(1) d2 w2(3) [unfolded w1(2)] new n2 v2])
          (simp_all add: v(2) w2(5) w1f remove_child_def)
    qed
  qed
qed

section \<open>open, read, write, utimens\<close>

lemma fused_open_table: "same_table w (snd (fused_open e p fl w))"
  by (auto simp: fused_open_def same_shape_def entries_def split: option.splits
      intro!: same_table_upd)

lemma fused_read_table: "same_table w (snd (fused_read e fh n off w))"
  by (auto simp: fused_read_def Let_def same_shape_def entries_def split: option.splits
      intro!: same_table_upd)

lemma fused_write_table: "same_table w (snd (fused_write e fh bs off w))"
  by (auto simp: fused_write_def Let_def same_shape_def entries_def split: option.splits prod.splits
      intro!: same_table_trans [OF same_table_files same_table_upd])

lemma fused_utimens_table: "same_table w (snd (fused_utimens e p t0 t1 w))"
  by (auto simp: fused_utimens_def same_shape_def entries_def split: option.splits
      intro!: same_table_upd)

section \<open>The invariant of the mounted file system\<close>

lemma fused_init_inv:
  assumes "fused_init e True fs = Some w"
  shows "fs_inv w"
proof -
  from assms have w: "n_inodes w = 1" "ino (inodes w 0) = FUSE_ROOT_ID" "mode (inodes w 0) = S_IFDIR OR 0x1ED"
    "n_children (inodes w 0) = 0" "backing_path (inodes w 0) = []" "backing_dir w = ''/tmp/fused_backing''"
    by (auto simp: fused_init_def init_root_inode_def zero_inode_def)
  then have "edges w = {}" by (auto simp: edges_def)
  moreover have "fs_base w"
    using w by (auto simp: fs_base_def slot_ok_def S_ISDIR_def)
  ultimately show ?thesis by (simp add: fs_inv_def tree_edges_def)
qed

lemma fused_oper_inv:
  assumes "fs_inv w"
  shows "fs_inv (snd (fused_oper e opr w))"
proof (cases opr)
  case (Create p md)
  obtain r v where r: "fused_create e p md w = (r, v)" by fastforce
  from assms r have "fs_inv v"
  proof (cases rule: fused_create_cases)
    case (rolled_back err fs)
    then show ?thesis using fresh_freed [OF assms rolled_back(2)] by (simp add: table_kept_def)
  next
    case (created fs)
    then show ?thesis using enteredD [OF assms] by metis
  qed (use assms in simp)
  with Create r show ?thesis by simp
next
  case (Mkdir p md)
  obtain r v where r: "fused_mkdir e p md w = (r, v)" by fastforce
  from assms r have "fs_inv v"
  proof (cases rule: fused_mkdir_cases)
    case (rolled_back err fs)
    then show ?thesis using fresh_freed [OF assms rolled_back(2)] by (simp add: table_kept_def)
  next
    case created
    then show ?thesis using enteredD [OF assms] by metis
  qed (use assms in simp)
  with Mkdir r show ?thesis by simp
next
  case (Rmdir p)
  obtain r v where r: "fused_rmdir e p w = (r, v)" by fastforce
  have "fs_inv v"
  proof (cases r)
    case (Inl err)
    with r assms show ?thesis by (auto dest: fused_rmdir_Inl)
  next
    case (Inr u)
    with r fused_rmdir_Inr [OF assms] show ?thesis by metis
  qed
  with Rmdir r show ?thesis by simp
next
  case (Unlink p)
  obtain r v where r: "fused_unlink e p w = (r, v)" by fastforce
  have "fs_inv v"
  proof (cases r)
    case (Inl err)
    with r assms show ?thesis by (auto dest: fused_unlink_Inl)
  next
    case (Inr u)
    with r fused_unlink_Inr [OF assms] show ?thesis by metis
  qed
  with Unlink r show ?thesis by simp
next
  case (Rename p q)
  obtain r v where r: "fused_rename e p q w = (r, v)" by fastforce
  from assms r have "fs_inv v"
    by (cases rule: fused_rename_cases) (use assms in simp_all)
  with Rename r show ?thesis by simp
qed (use assms in \<open>auto simp: case_prod_beta intro: same_table_inv fused_open_table fused_read_table
    fused_write_table fused_utimens_table\<close>)

lemma fs_reachable_inv: "fs_reachable w \<Longrightarrow> fs_inv w"
  by (induction rule: fs_reachable.induct) (auto intro: fused_init_inv fused_oper_inv)

end
