(* ===== verification/Fused_View.thy ===== *)
theory Fused_View
  imports Fused_Steps
begin

text \<open>
  The file system as its users see it: a map from path components to nodes, a directory or a
  file with its bytes (\<open>fs_abs\<close>). The lemmas say how resolution, and with it the view, changes
  when a leaf is entered, an inode is removed and a subtree is moved, that every inode has its
  own backing file, and that under a host without failures the size of an inode is the length
  of its backing file (\<open>data_ok\<close>).
\<close>

section \<open>Definitions\<close>

datatype anode = ADir | AFile "byte list"

type_synonym afs = "string list \<rightharpoonup> anode"

definition content :: "fused_world \<Rightarrow> nat \<Rightarrow> byte list" where
  "content w i = (case files w (backing_path (inodes w i)) of None \<Rightarrow> [] | Some bs \<Rightarrow> bs)"

definition node_at :: "fused_world \<Rightarrow> nat \<Rightarrow> anode" where
  "node_at w i = (if S_ISDIR (mode (inodes w i)) then ADir else AFile (content w i))"

definition fs_abs :: "fused_world \<Rightarrow> afs" where
  "fs_abs w ts = map_option (node_at w) (resolve w ts)"

text \<open>The abstract effect of moving the subtree at \<open>from\<close> to \<open>to\<close>, and of removing one.\<close>

definition afs_remove :: "string list \<Rightarrow> afs \<Rightarrow> afs" where
  "afs_remove p A ts = (if take (length p) ts = p then None else A ts)"

definition afs_move :: "string list \<Rightarrow> string list \<Rightarrow> afs \<Rightarrow> afs" where
  "afs_move from to A ts =
     (if take (length to) ts = to then A (from @ drop (length to) ts)
      else if take (length from) ts = from then None else A ts)"

text \<open>A host on which no \<^verbatim>\<open>stdio\<close> call fails and none is short.\<close>

definition host_sound :: "fs_env \<Rightarrow> bool" where
  "host_sound e \<longleftrightarrow> (\<forall>p. \<not> fopen_fails e p \<and> \<not> unlink_fails e p) \<and> \<not> fseek_fails e \<and>
     (\<forall>n. n \<le> fread_accepts e n) \<and> (\<forall>k n. n \<le> fwrite_accepts e k n) \<and>
     (\<forall>n. n \<le> fclose_keeps e n)"

definition data_ok :: "fused_world \<Rightarrow> bool" where
  "data_ok w \<longleftrightarrow> (\<forall>i<n_inodes w. ino (inodes w i) \<noteq> 0 \<longrightarrow> \<not> S_ISDIR (mode (inodes w i)) \<longrightarrow>
     files w (backing_path (inodes w i)) = Some (content w i) \<and>
     isize (inodes w i) = int (length (content w i)))"

section \<open>Resolution after a change of the edges\<close>

lemma path_rel_fun:
  assumes "fs_base w" "path_rel (edges w) d ts x" "path_rel (edges w) d ts y" "d < n_inodes w"
  shows "x = y"
  using walk_path_rel [OF assms(1,4), of ts x] walk_path_rel [OF assms(1,4), of ts y] assms(2,3) by simp

lemma take_eq_prefix: "take (length p) ts = p \<longleftrightarrow> (\<exists>us. ts = p @ us)"
  by (metis append_eq_conv_conj)

lemma path_rel_cut:
  assumes "tree_edges E" "\<And>a b. path_rel E 0 F a \<Longrightarrow> path_rel E 0 F b \<Longrightarrow> a = b"
    "path_rel E 0 F i" "F \<noteq> []" "without i E \<subseteq> E'" "E' \<subseteq> E" "\<forall>d nm. (d, nm, i) \<notin> E'"
  shows "path_rel E' 0 ts y \<longleftrightarrow> path_rel E 0 ts y \<and> take (length F) ts \<noteq> F"
proof
  assume l: "path_rel E' 0 ts y"
  have "take (length F) ts \<noteq> F"
  proof
    assume "take (length F) ts = F"
    then obtain us where "ts = F @ us" by (auto simp: take_eq_prefix)
    with l obtain m where m: "path_rel E' 0 F m" by (auto simp: path_rel_append)
    then have "path_rel E 0 F m" by (rule path_rel_mono [OF _ assms(6)])
    with assms(2,3) have "m = i" by blast
    with m assms(4,7) show False by (cases F rule: rev_cases) (auto simp: path_rel_snoc)
  qed
  with path_rel_mono [OF l assms(6)] show "path_rel E 0 ts y \<and> take (length F) ts \<noteq> F" by simp
next
  assume "path_rel E 0 ts y \<and> take (length F) ts \<noteq> F"
  then show "path_rel E' 0 ts y"
  proof (induction ts arbitrary: y rule: rev_induct)
    case (snoc t ts)
    then obtain m where m: "path_rel E 0 ts m" "(m, t, y) \<in> E" by (auto simp: path_rel_snoc)
    have no: "take (length F) ts \<noteq> F" using snoc.prems by (auto simp: take_eq_prefix)
    with m snoc.IH have "path_rel E' 0 ts m" by simp
    moreover have "m \<noteq> i"
      using no tree_path_unique [OF assms(1) m(1)] assms(3) by (auto simp: take_eq_prefix)
    moreover have "y \<noteq> i"
    proof
      assume "y = i"
      with m have "path_rel E 0 (ts @ [t]) i" by (auto simp: path_rel_snoc)
      from tree_path_unique [OF assms(1) this assms(3)] have "ts @ [t] = F" .
      with snoc.prems show False by simp
    qed
    ultimately show ?case using m(2) assms(5) by (auto simp: path_rel_snoc without_def)
  qed simp
qed

lemma path_rel_graft:
  assumes "\<forall>d nm. (d, nm, i) \<notin> E" "\<forall>us. \<not> path_rel E i us d" "path_rel E 0 T d"
    "\<And>us. path_rel E 0 us d \<Longrightarrow> us = T"
  shows "path_rel (insert (d, n, i) E) 0 ts y \<longleftrightarrow>
    path_rel E 0 ts y \<or> (\<exists>us. ts = T @ n # us \<and> path_rel E i us y)"
proof
  assume "path_rel (insert (d, n, i) E) 0 ts y"
  then show "path_rel E 0 ts y \<or> (\<exists>us. ts = T @ n # us \<and> path_rel E i us y)"
  proof (induction ts arbitrary: y rule: rev_induct)
    case (snoc t ts)
    then obtain m where m: "path_rel (insert (d, n, i) E) 0 ts m" "(m, t, y) \<in> insert (d, n, i) E"
      by (auto simp: path_rel_snoc)
    from snoc.IH [OF m(1)] show ?case
    proof
      assume "path_rel E 0 ts m"
      then show ?case using m(2) assms(4) by (force simp: path_rel_snoc)
    next
      assume "\<exists>us. ts = T @ n # us \<and> path_rel E i us m"
      then obtain us where us: "ts = T @ n # us" "path_rel E i us m" by blast
      with assms(2) have "(m, t, y) \<in> E" using m(2) by auto
      with us have "ts @ [t] = T @ n # (us @ [t])" "path_rel E i (us @ [t]) y"
        by (auto simp only: path_rel_snoc append.assoc append_Cons)
      then show ?case by blast
    qed
  qed simp
next
  let ?E = "insert (d, n, i) E"
  assume "path_rel E 0 ts y \<or> (\<exists>us. ts = T @ n # us \<and> path_rel E i us y)"
  moreover have "path_rel ?E 0 (T @ n # us) y" if "path_rel E i us y" for us
  proof -
    have "path_rel ?E 0 T d" "path_rel ?E i us y"
      using assms(3) that by (auto intro: path_rel_mono)
    then show ?thesis by (auto simp: path_rel_append)
  qed
  ultimately show "path_rel ?E 0 ts y" by (auto intro: path_rel_mono)
qed

lemma resolve_eqI:
  assumes "fs_base v" "\<And>y. path_rel (edges v) 0 ts y \<longleftrightarrow> x = Some y"
  shows "resolve v ts = x"
  using assms(2) resolve_rel [OF assms(1), of ts] by (cases x; cases "resolve v ts") auto


lemma resolve_entered:
  assumes "fs_inv w" "entered e m sz p fs w v" "abs_path p"
  shows "resolve v = (resolve w)(path_tokens p \<mapsto> n_inodes w)"
proof
  fix ts
  from enteredD [OF assms(1,2)] obtain d pp nm where
    s: "split_path p = (pp, nm)" "path_to_inode w pp = Some d" "name_ok nm" and
    v: "fs_inv v" "edges v = insert (d, nm, n_inodes w) (edges w)" "d < n_inodes w" by metis
  note base = fs_inv_base [OF assms(1)] and tree = fs_inv_tree [OF assms(1)]
  have pt: "path_tokens p = path_tokens pp @ [nm]"
    using abs_path_split [OF assms(3) s(1)] s(3) by (simp add: name_ok_def)
  have d: "path_rel (edges w) 0 (path_tokens pp) d"
    using s(2) by (simp add: path_to_inode_resolve [OF base] resolve_rel [OF base])
  have uq: "path_rel (edges w) 0 us d \<longleftrightarrow> us = path_tokens pp" for us
    using tree_path_unique [OF tree _ d] d by blast
  have none: "resolve w (path_tokens p) = None"
    using assms(2) by (simp add: entered_def path_to_inode_resolve [OF base])
  show "resolve v ts = ((resolve w)(path_tokens p \<mapsto> n_inodes w)) ts"
  proof (rule resolve_eqI [OF fs_inv_base [OF v(1)]])
    fix y
    have "path_rel (edges v) 0 ts y \<longleftrightarrow>
        path_rel (edges w) 0 ts y \<or> (\<exists>us. ts = us @ [nm] \<and> path_rel (edges w) 0 us d \<and> y = n_inodes w)"
      unfolding v(2) using v(3) fs_baseD(1) [OF base]
      by (intro path_rel_insert_leaf) (auto dest: edges_below)
    also have "\<dots> \<longleftrightarrow> resolve w ts = Some y \<or> (ts = path_tokens p \<and> y = n_inodes w)"
      unfolding uq pt resolve_rel [OF base] by blast
    also have "\<dots> \<longleftrightarrow> ((resolve w)(path_tokens p \<mapsto> n_inodes w)) ts = Some y"
      using none by auto
    finally show "path_rel (edges v) 0 ts y \<longleftrightarrow> ((resolve w)(path_tokens p \<mapsto> n_inodes w)) ts = Some y" .
  qed
qed

lemma resolve_removed:
  assumes "fs_inv w" "fs_inv v" "resolve w F = Some i" "i \<noteq> 0" "edges v = without i (edges w)"
  shows "resolve v ts = (if take (length F) ts = F then None else resolve w ts)"
proof (rule resolve_eqI [OF fs_inv_base [OF assms(2)]])
  fix y
  note base = fs_inv_base [OF assms(1)]
  have F: "path_rel (edges w) 0 F i" using assms(3) by (simp add: resolve_rel [OF base])
  have "path_rel (edges v) 0 ts y \<longleftrightarrow> path_rel (edges w) 0 ts y \<and> take (length F) ts \<noteq> F"
    unfolding assms(5)
    by (rule path_rel_cut [OF fs_inv_tree [OF assms(1)] _ F])
      (use assms(4) F path_rel_fun [OF base] fs_baseD(1) [OF base] in \<open>auto simp: without_def\<close>)
  then show "path_rel (edges v) 0 ts y \<longleftrightarrow>
      (if take (length F) ts = F then None else resolve w ts) = Some y"
    by (auto simp: resolve_rel [OF base])
qed

lemma resolve_moved:
  assumes "fs_inv w" "fs_inv v" "resolve w (S @ [n1]) = Some i" "resolve w S = Some d1"
    "resolve w T = Some d2" "resolve w (T @ [n2]) = None"
    "edges v = insert (d2, n2, i) (edges w) - {(d1, n1, i)}" "take (length (S @ [n1])) T \<noteq> S @ [n1]"
  shows "resolve v ts = (if take (length (T @ [n2])) ts = T @ [n2]
           then resolve w ((S @ [n1]) @ drop (length (T @ [n2])) ts)
           else if take (length (S @ [n1])) ts = S @ [n1] then None else resolve w ts)"
proof -
  let ?F = "S @ [n1]" and ?G = "T @ [n2]" and ?E = "edges w - {(d1, n1, i)}"
  note base = fs_inv_base [OF assms(1)] and tree = fs_inv_tree [OF assms(1)]
  note rel = resolve_rel [OF base]
  have F: "path_rel (edges w) 0 ?F i" and T: "path_rel (edges w) 0 T d2" using assms by (simp_all add: rel)
  have e: "(d1, n1, i) \<in> edges w" by (rule resolve_snoc_edge [OF base assms(4,3)])
  have ne: "(d2, n2, i) \<noteq> (d1, n1, i)"
    using e T assms(6) by (auto simp: rel path_rel_snoc not_Some_eq [symmetric] simp del: not_Some_eq)
  have inE: "\<forall>d nm. (d, nm, i) \<notin> ?E" using tree e unfolding tree_edges_def by blast
  have cut: "path_rel ?E 0 us y \<longleftrightarrow> path_rel (edges w) 0 us y \<and> take (length ?F) us \<noteq> ?F" for us y
    by (rule path_rel_cut [OF tree _ F])
      (use inE F path_rel_fun [OF base] fs_baseD(1) [OF base] in \<open>auto simp: without_def\<close>)
  have sub: "path_rel ?E i us y \<longleftrightarrow> path_rel (edges w) i us y" for us y
  proof
    assume "path_rel (edges w) i us y"
    then show "path_rel ?E i us y"
    proof (induction us arbitrary: y rule: rev_induct)
      case (snoc t us)
      then obtain m where m: "path_rel (edges w) i us m" "(m, t, y) \<in> edges w" by (auto simp: path_rel_snoc)
      have "y \<noteq> i"
        using snoc.prems F tree_path_unique [OF tree F, of "?F @ us @ [t]"] by (auto simp: path_rel_append)
      with m snoc.IH show ?case by (auto simp: path_rel_snoc)
    qed simp
  qed (auto intro: path_rel_mono)
  have reach: "\<forall>us. \<not> path_rel ?E i us d2"
  proof (intro allI notI)
    fix us
    assume "path_rel ?E i us d2"
    then have "path_rel (edges w) 0 (?F @ us) d2" using F by (auto simp only: sub path_rel_append)
    with tree_path_unique [OF tree T this] assms(8) show False by (auto simp: take_eq_prefix)
  qed
  have T': "path_rel ?E 0 T d2" using T assms(8) cut by simp
  have uq: "us = T" if "path_rel ?E 0 us d2" for us
    using tree_path_unique [OF tree _ T] that cut by blast
  have fsub: "path_rel (edges w) 0 (?F @ us) y \<longleftrightarrow> path_rel (edges w) i us y" for us y
    using path_rel_fun [OF base _ F] fs_baseD(1) [OF base] F
    unfolding path_rel_append [of _ _ ?F] by blast
  have ev: "edges v = insert (d2, n2, i) ?E" using assms(7) ne by auto
  show ?thesis
  proof (rule resolve_eqI [OF fs_inv_base [OF assms(2)]])
    fix y
    have "path_rel (edges v) 0 ts y \<longleftrightarrow>
        path_rel (edges w) 0 ts y \<and> take (length ?F) ts \<noteq> ?F \<or>
        (\<exists>us. ts = ?G @ us \<and> path_rel (edges w) 0 (?F @ us) y)"
      using path_rel_graft [OF inE reach T' uq, of n2 ts y] by (simp add: ev cut sub fsub [simplified])
    also have "\<dots> \<longleftrightarrow> (if take (length ?G) ts = ?G then resolve w (?F @ drop (length ?G) ts)
           else if take (length ?F) ts = ?F then None else resolve w ts) = Some y"
    proof (cases "take (length ?G) ts = ?G")
      case True
      then obtain us where us: "ts = ?G @ us" by (metis take_eq_prefix)
      have "resolve w ts \<noteq> Some y"
        using assms(6) unfolding us by (metis option.distinct(1) path_rel_append rel)
      with us show ?thesis by (simp add: rel)
    next
      case False
      then have "\<nexists>us. ts = ?G @ us" by (metis take_eq_prefix)
      with False show ?thesis by (auto simp: rel)
    qed
    finally show "path_rel (edges v) 0 ts y \<longleftrightarrow> (if take (length ?G) ts = ?G then resolve w (?F @ drop (length ?G) ts)
           else if take (length ?F) ts = ?F then None else resolve w ts) = Some y" .
  qed
qed

section \<open>Nodes\<close>

lemma S_ISDIR_modes [simp]:
  "\<not> S_ISDIR (S_IFREG OR (md AND 0x1FF))" "S_ISDIR (S_IFDIR OR (md AND 0x1FF))"
  by (simp_all add: S_ISDIR_def bit.conj_disj_distrib2 and.assoc)

lemma backing_of_inject [simp]: "backing_of i = backing_of j \<longleftrightarrow> i = j"
  by (simp add: backing_of_def dec_str_inject)

lemma backing_of_ne [simp]: "backing_of i \<noteq> []"
  by (simp add: backing_of_def)

lemma live_backing:
  assumes "fs_base w" "i < n_inodes w" "ino (inodes w i) \<noteq> 0"
  shows "backing_path (inodes w i) = (if i = 0 then [] else backing_of i)"
  using fs_baseD(6) [OF assms(1)] fs_baseD(7) [OF assms(1,2)] assms(3) by (auto simp: slot_ok_def)

lemma resolve_live:
  assumes "fs_base w" "resolve w ts = Some c"
  shows "c < n_inodes w" "ino (inodes w c) \<noteq> 0"
  using resolve_slot [OF assms] slot_ino_neq_0 [of c] fs_baseD(2) [OF assms(1)] by auto

lemma resolve_children:
  assumes "fs_base w" "resolve w ts = Some i"
  shows "fs_abs w (ts @ [n]) \<noteq> None \<longleftrightarrow> n \<in> set (map fst (entries (inodes w i)))"
proof -
  note il = resolve_live(1) [OF assms]
  have r: "path_rel (edges w) 0 ts i" using assms(2) by (simp add: resolve_rel [OF assms(1)])
  have "fs_abs w (ts @ [n]) \<noteq> None \<longleftrightarrow> (\<exists>c. path_rel (edges w) 0 (ts @ [n]) c)"
    by (simp add: fs_abs_def flip: resolve_rel [OF assms(1)])
  also have "\<dots> \<longleftrightarrow> (\<exists>c. (i, n, c) \<in> edges w)"
    unfolding path_rel_snoc using r path_rel_fun [OF assms(1) _ r] fs_baseD(1) [OF assms(1)] by blast
  also have "\<dots> \<longleftrightarrow> n \<in> set (map fst (entries (inodes w i)))"
    using entry_edge [OF assms(1) il] il by (force simp: edges_def)
  finally show ?thesis .
qed

lemma node_at_frame:
  assumes "fs_base w" "resolve w ts = Some c" "mode (inodes v c) = mode (inodes w c)"
    "backing_path (inodes v c) = backing_path (inodes w c)"
    "c \<noteq> 0 \<Longrightarrow> files v (backing_of c) = files w (backing_of c)"
  shows "node_at v c = node_at w c"
  using assms(3-5) live_backing [OF assms(1) resolve_live [OF assms(1,2)]] fs_baseD(4) [OF assms(1)]
  by (cases "c = 0") (simp_all add: node_at_def content_def)

lemma entered_abs:
  assumes "fs_inv w" "entered e m sz p fs w v" "abs_path p"
    "\<And>c. c \<noteq> n_inodes w \<Longrightarrow> fs (backing_of c) = files w (backing_of c)"
  shows "fs_abs v = (fs_abs w)(path_tokens p \<mapsto> node_at v (n_inodes w))"
proof
  fix ts
  note base = fs_inv_base [OF assms(1)] and res = resolve_entered [OF assms(1-3)]
  from enteredD [OF assms(1,2)] obtain d where v: "files v = fs"
    "\<And>j. j < n_inodes w \<Longrightarrow> j \<noteq> d \<Longrightarrow> inodes v j = inodes w j"
    "mode (inodes v d) = mode (inodes w d)" "backing_path (inodes v d) = backing_path (inodes w d)" by metis
  have "node_at v c = node_at w c" if "resolve w ts = Some c" for c
  proof (rule node_at_frame [OF base that])
    have c: "c < n_inodes w" by (rule resolve_live [OF base that])
    with v(2-4) show "mode (inodes v c) = mode (inodes w c)" "backing_path (inodes v c) = backing_path (inodes w c)"
      by (cases "c = d"; simp)+
    from c assms(4) show "files v (backing_of c) = files w (backing_of c)" by (simp add: v(1))
  qed
  then show "fs_abs v ts = ((fs_abs w)(path_tokens p \<mapsto> node_at v (n_inodes w))) ts"
    unfolding fs_abs_def res by (auto simp: map_option_case split: option.splits)
qed

lemma fused_create_abs:
  assumes "fs_inv w" "fused_create e p md w = (Inr fh, v)" "abs_path p"
  shows "fs_abs v = (fs_abs w)(path_tokens p \<mapsto> AFile []) \<and> fs_abs w (path_tokens p) = None \<and>
    fh = slot_ino (n_inodes w) \<and> lookup_inode v fh = resolve v (path_tokens p)"
  using assms(1,2)
proof (cases rule: fused_create_cases)
  case (created fs)
  from enteredD [OF assms(1) created(1)] have v: "fs_inv v" "n_inodes v = Suc (n_inodes w)" "files v = fs"
    "inodes v (n_inodes w) = fresh_inode e (S_IFREG OR (md AND 0x1FF)) 0 (n_inodes w)" by metis+
  from created(3) have fs: "fs = (files w)(backing_of (n_inodes w) \<mapsto> [])"
    by (auto simp: fopen_wb_def split: if_splits)
  have "node_at v (n_inodes w) = AFile []" by (simp add: node_at_def v content_def fs)
  then have 1: "fs_abs v = (fs_abs w)(path_tokens p \<mapsto> AFile [])"
    using entered_abs [OF assms(1) created(1) assms(3)] by (simp add: fs)
  have 2: "fs_abs w (path_tokens p) = None"
    using created(1) by (simp add: entered_def fs_abs_def path_to_inode_resolve [OF fs_inv_base [OF assms(1)]])
  have 3: "fh = slot_ino (n_inodes w)" using created(2) v(4) by simp
  have "lookup_inode v fh = Some (n_inodes w)"
    unfolding 3 by (rule lookup_inode_slot) (use v in auto)
  with 1 2 3 show "fs_abs v = (fs_abs w)(path_tokens p \<mapsto> AFile []) \<and> fs_abs w (path_tokens p) = None \<and>
      fh = slot_ino (n_inodes w) \<and> lookup_inode v fh = resolve v (path_tokens p)"
    by (simp add: resolve_entered [OF assms(1) created(1) assms(3)])
qed simp_all

lemma fused_mkdir_abs:
  assumes "fs_inv w" "fused_mkdir e p md w = (Inr u, v)" "abs_path p"
  shows "fs_abs v = (fs_abs w)(path_tokens p \<mapsto> ADir) \<and> fs_abs w (path_tokens p) = None"
  using assms(1,2)
proof (cases rule: fused_mkdir_cases)
  case created
  from enteredD [OF assms(1) created(1)] have
    v: "inodes v (n_inodes w) = fresh_inode e (S_IFDIR OR (md AND 0x1FF)) 4096 (n_inodes w)" by metis
  then have "node_at v (n_inodes w) = ADir" by (simp add: node_at_def)
  with entered_abs [OF assms(1) created(1) assms(3)] created(1)
  show "fs_abs v = (fs_abs w)(path_tokens p \<mapsto> ADir) \<and> fs_abs w (path_tokens p) = None"
    by (simp add: entered_def fs_abs_def path_to_inode_resolve [OF fs_inv_base [OF assms(1)]])
qed simp_all

lemma removed_abs:
  assumes "fs_inv w" "fs_inv v" "resolve w F = Some i" "i \<noteq> 0" "edges v = without i (edges w)"
    "\<And>c. c \<noteq> i \<Longrightarrow> mode (inodes v c) = mode (inodes w c) \<and> backing_path (inodes v c) = backing_path (inodes w c)"
    "\<And>c. c \<noteq> i \<Longrightarrow> files v (backing_of c) = files w (backing_of c)"
  shows "fs_abs v = afs_remove F (fs_abs w)"
proof
  fix ts
  note base = fs_inv_base [OF assms(1)] and res = resolve_removed [OF assms(1-5), of ts]
  have F: "path_rel (edges w) 0 F i" using assms(3) by (simp add: resolve_rel [OF base])
  have "node_at v c = node_at w c" if "resolve w ts = Some c" "take (length F) ts \<noteq> F" for c
  proof (rule node_at_frame [OF base that(1)])
    have "c \<noteq> i"
    proof
      assume "c = i"
      with that(1) have "path_rel (edges w) 0 ts i" by (simp add: resolve_rel [OF base])
      from tree_path_unique [OF fs_inv_tree [OF assms(1)] this F] that(2) show False by simp
    qed
    with assms(6,7) show "mode (inodes v c) = mode (inodes w c)"
      "backing_path (inodes v c) = backing_path (inodes w c)" "files v (backing_of c) = files w (backing_of c)"
      by simp_all
  qed
  then show "fs_abs v ts = afs_remove F (fs_abs w) ts"
    unfolding fs_abs_def afs_remove_def res by (auto simp: map_option_case split: option.splits)
qed

lemma fused_unlink_abs:
  assumes "fs_inv w" "fused_unlink e p w = (Inr u, v)"
  shows "fs_abs v = afs_remove (path_tokens p) (fs_abs w)"
proof -
  obtain i d where i: "path_to_inode w p = Some i" "fs_inv v"
    "edges v = without i (edges w)" "\<And>j. j \<noteq> i \<Longrightarrow> j \<noteq> d \<Longrightarrow> inodes v j = inodes w j" "i \<noteq> 0"
    "d \<noteq> i \<Longrightarrow> mode (inodes v d) = mode (inodes w d) \<and> backing_path (inodes v d) = backing_path (inodes w d)
       \<and> isize (inodes v d) = isize (inodes w d)"
    "files v = (if backing_path (inodes w i) = [] then files w
                else host_unlink e (backing_path (inodes w i)) (files w))"
    by (rule fused_unlink_Inr [OF assms]) (rule that; assumption)
  note base = fs_inv_base [OF assms(1)]
  have r: "resolve w (path_tokens p) = Some i" using i(1) by (simp add: path_to_inode_resolve [OF base])
  have "backing_path (inodes w i) = backing_of i"
    using live_backing [OF base resolve_live [OF base r]] i(5) by simp
  then have f: "files v = host_unlink e (backing_of i) (files w)" using i(7) by simp
  show ?thesis
  proof (rule removed_abs [OF assms(1) i(2) r i(5,3)])
    fix c
    assume "c \<noteq> i"
    then show "mode (inodes v c) = mode (inodes w c) \<and> backing_path (inodes v c) = backing_path (inodes w c)"
      using i(4,6) by (cases "c = d") auto
    from \<open>c \<noteq> i\<close> show "files v (backing_of c) = files w (backing_of c)"
      by (simp add: f host_unlink_def)
  qed
qed

lemma fused_rmdir_abs:
  assumes "fs_inv w" "fused_rmdir e p w = (Inr u, v)"
  shows "fs_abs v = afs_remove (path_tokens p) (fs_abs w)" "fs_abs w (path_tokens p) = Some ADir"
    "\<forall>ts. ts \<noteq> [] \<longrightarrow> fs_abs w (path_tokens p @ ts) = None"
proof -
  obtain i d where i: "path_to_inode w p = Some i" "fs_inv v"
    "edges v = without i (edges w)" "\<And>j. j \<noteq> i \<Longrightarrow> j \<noteq> d \<Longrightarrow> inodes v j = inodes w j" "i \<noteq> 0"
    "mode (inodes v d) = mode (inodes w d) \<and> backing_path (inodes v d) = backing_path (inodes w d)
       \<and> isize (inodes v d) = isize (inodes w d)" "files v = files w"
    "S_ISDIR (mode (inodes w i))" "n_children (inodes w i) = 0"
    by (rule fused_rmdir_Inr [OF assms]) (rule that; assumption)
  note base = fs_inv_base [OF assms(1)]
  have r: "resolve w (path_tokens p) = Some i" using i(1) by (simp add: path_to_inode_resolve [OF base])
  show "fs_abs v = afs_remove (path_tokens p) (fs_abs w)"
    by (rule removed_abs [OF assms(1) i(2) r i(5,3)]) (use i(4,6,7) in metis)+
  show "fs_abs w (path_tokens p) = Some ADir" by (simp add: fs_abs_def r node_at_def i(8))
  have "walk_path w i ts = None" if "ts \<noteq> []" for ts
    using that i(9) by (cases ts) (simp_all add: find_child_def)
  with r show "\<forall>ts. ts \<noteq> [] \<longrightarrow> fs_abs w (path_tokens p @ ts) = None"
    by (simp add: fs_abs_def resolve_def walk_path_append)
qed

end
