(* ===== verification/Fused_Data.thy ===== *)
theory Fused_Data
  imports Fused_View
begin

text \<open>
  File data. \<open>fused_write\<close> and \<open>fused_read\<close> are given closed forms on a host without failures:
  an append of the zero-filled gap and the buffer, and a slice of the content. \<open>sound_run\<close> are
  the states such a host leads to, and in all of them the size of a file is the length of its
  backing file.
\<close>

section \<open>Definitions\<close>

definition op_in_bounds :: "fs_op \<Rightarrow> bool" where
  "op_in_bounds opr = (case opr of Write fh bs off \<Rightarrow> off + int (length bs) < 2 ^ 63 | _ \<Rightarrow> True)"

inductive sound_run :: "fused_world \<Rightarrow> bool" where
  mounted: "fused_init e True fs = Some w \<Longrightarrow> sound_run w"
| callback: "sound_run w \<Longrightarrow> host_sound e \<Longrightarrow> op_in_bounds opr \<Longrightarrow> sound_run (snd (fused_oper e opr w))"

section \<open>rename on the view\<close>

lemma fused_rename_abs:
  assumes "fs_inv w" "fused_rename e from to w = (Inr u, v)" "abs_path from" "abs_path to"
    "from \<noteq> to" "take (length (path_tokens from)) (path_tokens to) \<noteq> path_tokens from"
  shows "fs_abs v = afs_move (path_tokens from) (path_tokens to) (fs_abs w)"
  using assms(1,2)
proof (cases rule: fused_rename_cases)
  case (moved i d1 n1 d2 n2 sp dp)
  note base = fs_inv_base [OF assms(1)]
  have "name_ok n1"
    using moved(8,10) edges_live(4) [OF base, of d1 n1 i] by auto
  then have tk: "path_tokens from = path_tokens sp @ [n1]" "path_tokens to = path_tokens dp @ [n2]"
    using abs_path_split [OF assms(3) moved(4)] abs_path_split [OF assms(4) moved(5)] moved(10)
    by (simp_all add: name_ok_def)
  have r: "resolve w (path_tokens sp @ [n1]) = Some i" "resolve w (path_tokens sp) = Some d1"
    "resolve w (path_tokens dp) = Some d2" "resolve w (path_tokens dp @ [n2]) = None"
    using moved(2,3,6,7) by (simp_all add: path_to_inode_resolve [OF base] flip: tk)
  have "take (length (path_tokens sp @ [n1])) (path_tokens dp) \<noteq> path_tokens sp @ [n1]"
    using assms(6) unfolding tk by (auto simp: take_eq_prefix)
  note res = resolve_moved [OF assms(1) moved(11) r moved(12) this]
  show ?thesis
  proof
    fix ts
    have "node_at v c = node_at w c" if "resolve w us = Some c" for us c
      using moved(14,15) by (intro node_at_frame [OF base that]) simp_all
    then show "fs_abs v ts = afs_move (path_tokens from) (path_tokens to) (fs_abs w) ts"
      unfolding fs_abs_def afs_move_def tk res by (auto simp: map_option_case split: option.splits)
  qed
qed (use assms(5) in auto)

section \<open>Closed forms of write and read\<close>

lemma fwrite_sound:
  assumes "host_sound e"
  shows "fwrite_count e k bs = length bs"
    "fwrite_append e k bs p fs = fs(p \<mapsto> (case fs p of None \<Rightarrow> [] | Some old \<Rightarrow> old) @ bs)"
  using assms by (simp_all add: host_sound_def fwrite_count_def fwrite_append_def min_def)

lemma fclose_sound:
  assumes "host_sound e"
  shows "fclose_ab e p opened fs = fs"
proof -
  have "length bs \<le> n + fclose_keeps e (length bs - n)" for bs :: "byte list" and n
    using assms by (simp add: host_sound_def) (metis add_leD2 le_diff_conv add.commute)
  then show ?thesis by (auto simp: fclose_ab_def fun_upd_idem split: option.splits)
qed

lemma write_gap_sound:
  assumes "host_sound e" "fs p = Some old"
  shows "snd (write_gap e k gap p fs) = fs(p \<mapsto> old @ replicate gap 0)"
  using assms(2)
proof (induction gap arbitrary: k fs old rule: less_induct)
  case (less gap)
  show ?case
  proof (cases "gap = 0")
    case True
    with less.prems show ?thesis by (subst write_gap.simps) (simp add: fun_upd_idem)
  next
    case False
    let ?n = "if gap > 4096 then 4096 else gap"
    have "snd (write_gap e k gap p fs) =
      snd (write_gap e (Suc k) (gap - ?n) p (fs(p \<mapsto> old @ replicate ?n 0)))"
      using False less.prems by (subst write_gap.simps) (simp add: Let_def fwrite_sound [OF assms(1)])
    also have "\<dots> = (fs(p \<mapsto> old @ replicate ?n 0))(p \<mapsto> (old @ replicate ?n 0) @ replicate (gap - ?n) 0)"
      using False by (intro less.IH) auto
    also have "\<dots> = fs(p \<mapsto> old @ replicate gap 0)"
      by (simp flip: replicate_add)
    finally show ?thesis .
  qed
qed

lemma write_gap_count: "fst (write_gap e k gap p fs) = k + (gap + 4095) div 4096"
proof (induction gap arbitrary: k fs rule: less_induct)
  case (less gap)
  show ?case
  proof (cases "gap = 0")
    case True
    then show ?thesis by (subst write_gap.simps) simp
  next
    case False
    then have "fst (write_gap e k gap p fs) = Suc k + (gap - (if gap > 4096 then 4096 else gap) + 4095) div 4096"
      by (subst write_gap.simps) (simp add: Let_def less.IH)
    with False show ?thesis by auto
  qed
qed

lemma fused_write_sound:
  assumes "host_sound e" "lookup_inode w fh = Some i" "isize (inodes w i) \<le> off" "0 \<le> isize (inodes w i)"
    "backing_path (inodes w i) \<noteq> []" "off + int (length buf) < 2 ^ 63"
  shows "fused_write e fh buf off w = (Inr (to_s32 (int (length buf))),
    upd_inode i (\<lambda>x. x\<lparr>isize := off + int (length buf), mtime := time_at e 0, ctime := time_at e 1\<rparr>)
      (w\<lparr>files := (files w)(backing_path (inodes w i) \<mapsto>
          content w i @ replicate (nat (off - isize (inodes w i))) 0 @ buf)\<rparr>))"
proof -
  let ?p = "backing_path (inodes w i)" and ?len = "isize (inodes w i)"
  let ?fs = "(files w)(?p \<mapsto> content w i)"
  have ab: "fopen_ab e ?p (files w) = Some ?fs"
    using assms(1,5) by (simp add: fopen_ab_def host_sound_def content_def)
  have gap: "nat (to_u64 (off - ?len)) = nat (off - ?len)" using assms(3,4,6) by simp
  have sz: "to_s64 (off + int (length buf)) = off + int (length buf)" using assms(3,4,6) by simp
  obtain k fs1 where k: "(if off > ?len then write_gap e 0 (nat (to_u64 (off - ?len))) ?p ?fs else (0, ?fs)) = (k, fs1)"
    by fastforce
  then have "fs1 = snd (if off > ?len then write_gap e 0 (nat (to_u64 (off - ?len))) ?p ?fs else (0, ?fs))"
    by simp
  also have "\<dots> = (files w)(?p \<mapsto> content w i @ replicate (nat (off - ?len)) 0)"
    using assms(3) write_gap_sound [OF assms(1), of ?fs ?p] by (simp add: gap)
  finally have fs1: "fs1 = (files w)(?p \<mapsto> content w i @ replicate (nat (off - ?len)) 0)" .
  show ?thesis
    using assms(3)
    by (simp add: fused_write_def assms(2) ab k fwrite_sound [OF assms(1)] fclose_sound [OF assms(1)] fs1 sz Let_def del: to_s64_id)
qed

lemma fused_read_sound:
  assumes "host_sound e" "lookup_inode w fh = Some i" "0 \<le> off" "off < isize (inodes w i)"
    "isize (inodes w i) = int (length bs)" "files w (backing_path (inodes w i)) = Some bs"
    "backing_path (inodes w i) \<noteq> []" "off + int sz < 2 ^ 63" "length bs < 2 ^ 63"
  shows "fused_read e fh sz off w = (let got = take sz (drop (nat off) bs) in
     (Inr (to_s32 (int (length got)), got), upd_inode i (\<lambda>x. x\<lparr>atime := time_at e 0\<rparr>) w))"
proof -
  have ra: "read_amount off sz (int (length bs)) = (if off + int sz > int (length bs) then length bs - nat off else sz)"
    using assms(3,4,5,8,9) by (simp add: read_amount_def nat_diff_distrib)
  have "take (min (read_amount off sz (int (length bs))) (fread_accepts e (read_amount off sz (int (length bs)))))
      (drop (nat off) bs) = take sz (drop (nat off) bs)"
    using assms(1,3) unfolding ra host_sound_def by (auto simp: min_def)
  then show ?thesis
    using assms(1,3,4) by (simp add: fused_read_def assms(2,5-7) fopen_rb_def host_sound_def Let_def del: length_take)
qed

section \<open>Sizes\<close>

text \<open>What keeps an inode's data: its own fields and its backing file.\<close>

definition data_kept :: "fused_world \<Rightarrow> fused_world \<Rightarrow> nat \<Rightarrow> bool" where
  "data_kept w v j \<longleftrightarrow> j < n_inodes w \<and> ino (inodes w j) \<noteq> 0 \<and> mode (inodes w j) = mode (inodes v j) \<and>
     backing_path (inodes v j) = backing_path (inodes w j) \<and> isize (inodes v j) = isize (inodes w j) \<and>
     files v (backing_path (inodes w j)) = files w (backing_path (inodes w j))"

lemma data_okI:
  assumes "data_ok w"
    "\<And>j. j < n_inodes v \<Longrightarrow> ino (inodes v j) \<noteq> 0 \<Longrightarrow> \<not> S_ISDIR (mode (inodes v j)) \<Longrightarrow>
       data_kept w v j \<or> files v (backing_path (inodes v j)) = Some (content v j) \<and>
         isize (inodes v j) = int (length (content v j))"
  shows "data_ok v"
  unfolding data_ok_def
proof (intro allI impI)
  fix j
  assume j: "j < n_inodes v" "ino (inodes v j) \<noteq> 0" "\<not> S_ISDIR (mode (inodes v j))"
  from assms(2) [OF this] show "files v (backing_path (inodes v j)) = Some (content v j) \<and>
      isize (inodes v j) = int (length (content v j))"
    using assms(1) j(3) by (auto simp: data_kept_def data_ok_def content_def)
qed

lemma file_backing:
  assumes "fs_base w" "j < n_inodes w" "ino (inodes w j) \<noteq> 0" "\<not> S_ISDIR (mode (inodes w j))"
  shows "j \<noteq> 0" "backing_path (inodes w j) = backing_of j"
  using live_backing [OF assms(1-3)] assms(4) fs_baseD(4) [OF assms(1)] by (cases "j = 0"; simp)+

lemma table_kept_data:
  assumes "fs_inv w" "table_kept w v" "data_ok w" "\<And>j. j < n_inodes w \<Longrightarrow> files v (backing_of j) = files w (backing_of j)"
  shows "data_ok v"
proof (rule data_okI [OF assms(3)])
  fix j
  assume "j < n_inodes v" "ino (inodes v j) \<noteq> 0" "\<not> S_ISDIR (mode (inodes v j))"
  with assms(2) have j: "j < n_inodes w" "inodes v j = inodes w j" "ino (inodes w j) \<noteq> 0"
    "\<not> S_ISDIR (mode (inodes w j))" by (auto simp: table_kept_def)
  with file_backing [OF fs_inv_base [OF assms(1)] j(1,3,4)] assms(4) [OF j(1)] show "data_kept w v j \<or>
      files v (backing_path (inodes v j)) = Some (content v j) \<and> isize (inodes v j) = int (length (content v j))"
    by (simp add: data_kept_def)
qed

lemma entered_data:
  assumes "fs_inv w" "data_ok w" "entered e m sz p fs w v"
    "\<And>j. j < n_inodes w \<Longrightarrow> fs (backing_of j) = files w (backing_of j)"
    "S_ISDIR m \<or> sz = 0 \<and> fs (backing_of (n_inodes w)) = Some []"
  shows "data_ok v"
proof (rule data_okI [OF assms(2)])
  fix j
  assume j: "j < n_inodes v" "ino (inodes v j) \<noteq> 0" "\<not> S_ISDIR (mode (inodes v j))"
  obtain d pp where v: "path_to_inode w pp = Some d" "n_inodes v = Suc (n_inodes w)" "files v = fs"
    "inodes v (n_inodes w) = fresh_inode e m sz (n_inodes w)"
    "\<And>j. j < n_inodes w \<Longrightarrow> j \<noteq> d \<Longrightarrow> inodes v j = inodes w j"
    "mode (inodes v d) = mode (inodes w d)" "backing_path (inodes v d) = backing_path (inodes w d)"
    "isize (inodes v d) = isize (inodes w d)"
    by (rule enteredD [OF assms(1,3)]) (rule that; assumption)
  note base = fs_inv_base [OF assms(1)]
  have d: "ino (inodes w d) \<noteq> 0"
    using path_to_inode_slot [OF base v(1)] slot_ino_neq_0 [of d] fs_baseD(2) [OF base] by simp
  show "data_kept w v j \<or>
      files v (backing_path (inodes v j)) = Some (content v j) \<and> isize (inodes v j) = int (length (content v j))"
  proof (cases "j = n_inodes w")
    case True
    with v j(3) assms(5) show ?thesis by (simp add: content_def)
  next
    case False
    with j v have jl: "j < n_inodes w" by auto
    with j v d have same: "ino (inodes w j) \<noteq> 0" "mode (inodes v j) = mode (inodes w j)"
      "backing_path (inodes v j) = backing_path (inodes w j)" "isize (inodes v j) = isize (inodes w j)"
      by (cases "j = d"; simp)+
    with j(3) file_backing [OF base jl] assms(4) [OF jl] v(3) show ?thesis
      by (simp add: data_kept_def jl)
  qed
qed

lemma fused_create_data:
  assumes "fs_inv w" "data_ok w" "fused_create e p md w = (r, v)"
  shows "data_ok v"
  using assms(1,3)
proof (cases rule: fused_create_cases)
  case (rolled_back err fs)
  then have "fs (backing_of j) = files w (backing_of j)" if "j < n_inodes w" for j
    using that by (auto simp: fopen_wb_def split: if_splits)
  with rolled_back fresh_freed [OF assms(1) rolled_back(2)] show ?thesis
    by (intro table_kept_data [OF assms(1) _ assms(2)]) (auto simp: free_inode_def Let_def host_unlink_def)
next
  case (created fs)
  then have "fs = (files w)(backing_of (n_inodes w) \<mapsto> [])"
    by (auto simp: fopen_wb_def split: if_splits)
  then show ?thesis
    by (intro entered_data [OF assms(1,2) created(1)]) auto
qed (use assms(2) in simp)

lemma fused_mkdir_data:
  assumes "fs_inv w" "data_ok w" "fused_mkdir e p md w = (r, v)"
  shows "data_ok v"
  using assms(1,3)
proof (cases rule: fused_mkdir_cases)
  case (rolled_back err fs)
  with fresh_freed [OF assms(1) rolled_back(2)] show ?thesis
    by (intro table_kept_data [OF assms(1) _ assms(2)]) (auto simp: free_inode_def Let_def host_unlink_def)
next
  case created
  then show ?thesis by (intro entered_data [OF assms(1,2) created(1)]) auto
qed (use assms(2) in simp)

lemma removed_data:
  assumes "fs_inv w" "data_ok w" "i < n_inodes w" "n_inodes v \<le> n_inodes w" "ino (inodes v i) = 0 \<or> n_inodes v \<le> i"
    "\<And>c. c \<noteq> i \<Longrightarrow> ino (inodes v c) = ino (inodes w c) \<and> mode (inodes v c) = mode (inodes w c) \<and>
       backing_path (inodes v c) = backing_path (inodes w c) \<and> isize (inodes v c) = isize (inodes w c)"
    "\<And>c. c \<noteq> i \<Longrightarrow> files v (backing_of c) = files w (backing_of c)"
  shows "data_ok v"
proof (rule data_okI [OF assms(2)])
  fix j
  assume j: "j < n_inodes v" "ino (inodes v j) \<noteq> 0" "\<not> S_ISDIR (mode (inodes v j))"
  with assms(5) have "j \<noteq> i" by auto
  with assms(4,6,7) j file_backing [OF fs_inv_base [OF assms(1)], of j]
  have "data_kept w v j" by (auto simp: data_kept_def)
  then show "data_kept w v j \<or>
      files v (backing_path (inodes v j)) = Some (content v j) \<and> isize (inodes v j) = int (length (content v j))" ..
qed

lemma fused_unlink_data:
  assumes "fs_inv w" "data_ok w" "fused_unlink e p w = (r, v)"
  shows "data_ok v"
proof (cases r)
  case (Inl err)
  with assms(2,3) show ?thesis by (auto dest: fused_unlink_Inl)
next
  case (Inr u)
  with assms(3) have "fused_unlink e p w = (Inr u, v)" by simp
  then obtain i d where i: "path_to_inode w p = Some i" "\<And>j. j \<noteq> i \<Longrightarrow> j \<noteq> d \<Longrightarrow> inodes v j = inodes w j"
    "i \<noteq> 0" "d \<noteq> i \<Longrightarrow> mode (inodes v d) = mode (inodes w d) \<and> backing_path (inodes v d) = backing_path (inodes w d)
       \<and> isize (inodes v d) = isize (inodes w d)"
    "files v = (if backing_path (inodes w i) = [] then files w
                else host_unlink e (backing_path (inodes w i)) (files w))"
    "d \<noteq> i \<Longrightarrow> ino (inodes v d) = ino (inodes w d)" "ino (inodes v i) = 0"
    "n_inodes v = (if i = n_inodes w - 1 then n_inodes w - 1 else n_inodes w)"
    by (rule fused_unlink_Inr [OF assms(1)]) (rule that; assumption)
  note base = fs_inv_base [OF assms(1)]
  have r: "resolve w (path_tokens p) = Some i" using i(1) by (simp add: path_to_inode_resolve [OF base])
  note live = resolve_live [OF base r]
  have f: "files v = host_unlink e (backing_of i) (files w)"
    using i(3,5) live_backing [OF base live] by simp
  show ?thesis
  proof (rule removed_data [OF assms(1,2) live(1)])
    fix c
    assume "c \<noteq> i"
    then show "ino (inodes v c) = ino (inodes w c) \<and> mode (inodes v c) = mode (inodes w c) \<and>
       backing_path (inodes v c) = backing_path (inodes w c) \<and> isize (inodes v c) = isize (inodes w c)"
      using i(2,4,6) by (cases "c = d") simp_all
    from \<open>c \<noteq> i\<close> show "files v (backing_of c) = files w (backing_of c)" by (simp add: f host_unlink_def)
  qed (use i(7,8) in simp_all)
qed

lemma fused_rmdir_data:
  assumes "fs_inv w" "data_ok w" "fused_rmdir e p w = (r, v)"
  shows "data_ok v"
proof (cases r)
  case (Inl err)
  with assms(2,3) show ?thesis by (auto dest: fused_rmdir_Inl)
next
  case (Inr u)
  with assms(3) have "fused_rmdir e p w = (Inr u, v)" by simp
  then obtain i d where i: "path_to_inode w p = Some i" "\<And>j. j \<noteq> i \<Longrightarrow> j \<noteq> d \<Longrightarrow> inodes v j = inodes w j"
    "mode (inodes v d) = mode (inodes w d) \<and> backing_path (inodes v d) = backing_path (inodes w d)
       \<and> isize (inodes v d) = isize (inodes w d)"
    "files v = files w" "n_inodes v = n_inodes w" "inodes v i = zero_inode" "ino (inodes v d) = ino (inodes w d)"
    by (rule fused_rmdir_Inr [OF assms(1)]) (rule that; assumption)
  have "i < n_inodes w" by (rule path_to_inode_slot [OF fs_inv_base [OF assms(1)] i(1)])
  then show ?thesis
  proof (rule removed_data [OF assms(1,2)])
    fix c
    assume "c \<noteq> i"
    then show "ino (inodes v c) = ino (inodes w c) \<and> mode (inodes v c) = mode (inodes w c) \<and>
       backing_path (inodes v c) = backing_path (inodes w c) \<and> isize (inodes v c) = isize (inodes w c)"
      using i(2,3,7) by (cases "c = d") simp_all
  qed (simp_all add: i(4-6) zero_inode_def)
qed

lemma data_ok_same:
  assumes "data_ok w" "n_inodes v = n_inodes w" "files v = files w"
    "\<And>j. ino (inodes v j) = ino (inodes w j) \<and> mode (inodes v j) = mode (inodes w j) \<and>
       backing_path (inodes v j) = backing_path (inodes w j) \<and> isize (inodes v j) = isize (inodes w j)"
  shows "data_ok v"
  using assms by (intro data_okI [OF assms(1)]) (auto simp: data_kept_def)

lemma fused_rename_data:
  assumes "fs_inv w" "data_ok w" "fused_rename e from to w = (r, v)"
  shows "data_ok v"
  using assms(1,3)
proof (cases rule: fused_rename_cases)
  case (undone err i d2)
  show ?thesis
  proof (rule data_ok_same [OF assms(2) undone(5,7)])
    fix j
    show "ino (inodes v j) = ino (inodes w j) \<and> mode (inodes v j) = mode (inodes w j) \<and>
       backing_path (inodes v j) = backing_path (inodes w j) \<and> isize (inodes v j) = isize (inodes w j)"
      using undone(6) [of j] undone(9,10,12,13) by (cases "j = d2") simp_all
  qed
next
  case (moved i d1 n1 d2 n2 sp dp)
  then show ?thesis by (intro data_ok_same [OF assms(2)]) auto
qed (use assms(2) in simp)

text \<open>Whatever the host does, a write changes one inode and its backing file only.\<close>

lemma fopen_ab_frame: "fopen_ab e p fs = Some fs' \<Longrightarrow> q \<noteq> p \<Longrightarrow> fs' q = fs q"
  by (auto simp: fopen_ab_def split: if_splits)

lemma fwrite_append_frame: "q \<noteq> p \<Longrightarrow> fwrite_append e k bs p fs q = fs q"
  by (simp add: fwrite_append_def)

lemma fclose_ab_frame: "q \<noteq> p \<Longrightarrow> fclose_ab e p opened fs q = fs q"
  by (simp add: fclose_ab_def split: option.split)

lemma write_gap_frame: "q \<noteq> p \<Longrightarrow> snd (write_gap e k gap p fs) q = fs q"
proof (induction gap arbitrary: k fs rule: less_induct)
  case (less gap)
  then show ?case
    by (subst write_gap.simps) (simp add: Let_def fwrite_append_frame)
qed

lemma fused_write_frame:
  assumes "fused_write e fh bs off w = (r, v)" "lookup_inode w fh = Some i"
  shows "n_inodes v = n_inodes w" "\<And>j. j \<noteq> i \<Longrightarrow> inodes v j = inodes w j"
    "\<And>q. q \<noteq> backing_path (inodes w i) \<Longrightarrow> files v q = files w q" "mode (inodes v i) = mode (inodes w i)"
    "backing_path (inodes v i) = backing_path (inodes w i)"
proof -
  let ?p = "backing_path (inodes w i)"
  consider "v = w" | fs1 where "\<And>q. q \<noteq> ?p \<Longrightarrow> fs1 q = files w q"
    "v = w\<lparr>files := fs1\<rparr> \<or> (\<exists>f. v = upd_inode i f (w\<lparr>files := fs1\<rparr>) \<and>
       (\<forall>x. mode (f x) = mode x \<and> backing_path (f x) = backing_path x))"
  proof (cases "isize (inodes w i) \<le> off \<and> fopen_ab e ?p (files w) \<noteq> None")
    case False
    with assms have "v = w" by (auto simp: fused_write_def Let_def split: if_splits option.splits)
    with that(1) show ?thesis .
  next
    case True
    then obtain fs where fs: "fopen_ab e ?p (files w) = Some fs" by auto
    define g where "g = (if isize (inodes w i) < off
      then write_gap e 0 (nat (to_u64 (off - isize (inodes w i)))) ?p fs else (0, fs))"
    define fs1 where "fs1 = fclose_ab e ?p fs (fwrite_append e (fst g) bs ?p (snd g))"
    define f :: "fused_inode \<Rightarrow> fused_inode"
      where "f = (\<lambda>x. x\<lparr>isize := to_s64 (off + int (length bs)), mtime := time_at e 0, ctime := time_at e 1\<rparr>)"
    have fs1: "fs1 q = files w q" if "q \<noteq> ?p" for q
      using fopen_ab_frame [OF fs that] that by (simp add: fs1_def g_def write_gap_frame fwrite_append_frame fclose_ab_frame)
    have "v = (if fwrite_count e (fst g) bs \<noteq> length bs then w\<lparr>files := fs1\<rparr> else upd_inode i f (w\<lparr>files := fs1\<rparr>))"
      using True assms(1) unfolding f_def fs1_def g_def
      by (simp add: fused_write_def assms(2) fs Let_def case_prod_beta split: if_split_asm)
    then have "v = w\<lparr>files := fs1\<rparr> \<or> v = upd_inode i f (w\<lparr>files := fs1\<rparr>)" by presburger
    moreover have "\<forall>x. mode (f x) = mode x \<and> backing_path (f x) = backing_path x" by (simp add: f_def)
    ultimately show ?thesis using that(2) [OF fs1] by blast
  qed
  then have "n_inodes v = n_inodes w \<and> (\<forall>j. j \<noteq> i \<longrightarrow> inodes v j = inodes w j) \<and>
    (\<forall>q. q \<noteq> ?p \<longrightarrow> files v q = files w q) \<and> mode (inodes v i) = mode (inodes w i) \<and>
    backing_path (inodes v i) = ?p"
  proof cases
    case (2 fs1)
    from 2(2) show ?thesis by (elim disjE exE) (simp_all add: 2(1))
  qed simp
  then show "n_inodes v = n_inodes w" "\<And>j. j \<noteq> i \<Longrightarrow> inodes v j = inodes w j"
    "\<And>q. q \<noteq> ?p \<Longrightarrow> files v q = files w q" "mode (inodes v i) = mode (inodes w i)"
    "backing_path (inodes v i) = ?p"
    by simp_all
qed

lemma fused_write_data:
  assumes "fs_inv w" "data_ok w" "host_sound e" "off + int (length bs) < 2 ^ 63" "fused_write e fh bs off w = (r, v)"
  shows "data_ok v"
proof (cases "\<exists>i. lookup_inode w fh = Some i \<and> isize (inodes w i) \<le> off \<and> backing_path (inodes w i) \<noteq> []")
  case False
  then have "v = w" using assms(5)
    by (auto simp: fused_write_def fopen_ab_def Let_def split: option.splits if_splits prod.splits)
  with assms(2) show ?thesis by simp
next
  case True
  then obtain i where i: "lookup_inode w fh = Some i" "isize (inodes w i) \<le> off"
    "backing_path (inodes w i) \<noteq> []" by blast
  note base = fs_inv_base [OF assms(1)] and il = lookup_inode_SomeD [OF i(1)]
  have "i \<noteq> 0" using i(3) fs_baseD(6) [OF base] by (cases "i = 0") simp_all
  then have live: "ino (inodes w i) \<noteq> 0" "i \<noteq> 0"
    using il i(3) fs_baseD(7) [OF base, of i] by (auto simp: slot_ok_def)
  then have bp: "backing_path (inodes w i) = backing_of i" using live_backing [OF base] il by simp
  have v: "n_inodes v = n_inodes w" "\<And>j. j \<noteq> i \<Longrightarrow> inodes v j = inodes w j"
    "\<And>q. q \<noteq> backing_of i \<Longrightarrow> files v q = files w q" "mode (inodes v i) = mode (inodes w i)"
    "backing_path (inodes v i) = backing_of i"
    using fused_write_frame [OF assms(5) i(1)] bp by simp_all
  show ?thesis
  proof (rule data_okI [OF assms(2)])
    fix j
    assume j: "j < n_inodes v" "ino (inodes v j) \<noteq> 0" "\<not> S_ISDIR (mode (inodes v j))"
    show "data_kept w v j \<or>
      files v (backing_path (inodes v j)) = Some (content v j) \<and> isize (inodes v j) = int (length (content v j))"
    proof (cases "j = i")
      case False
      with j v(1,2) have "j < n_inodes w" "ino (inodes w j) \<noteq> 0" "\<not> S_ISDIR (mode (inodes w j))" by simp_all
      with file_backing [OF base this] False v show ?thesis by (simp add: data_kept_def)
    next
      case True
      with j(3) v(4) assms(2) il live have d: "isize (inodes w i) = int (length (content w i))"
        by (simp add: data_ok_def)
      with fused_write_sound [OF assms(3) i(1,2) _ i(3) assms(4)] assms(5)
      have "v = upd_inode i (\<lambda>x. x\<lparr>isize := off + int (length bs), mtime := time_at e 0, ctime := time_at e 1\<rparr>)
        (w\<lparr>files := (files w)(backing_of i \<mapsto> content w i @ replicate (nat (off - isize (inodes w i))) 0 @ bs)\<rparr>)"
        by (simp add: bp)
      with True d i(2) show ?thesis by (simp add: content_def bp)
    qed
  qed
qed

lemma sound_run_ok: "sound_run w \<Longrightarrow> fs_inv w \<and> data_ok w"
proof (induction rule: sound_run.induct)
  case (mounted e fs w)
  have "data_ok w"
    using mounted by (auto simp: data_ok_def fused_init_def init_root_inode_def S_ISDIR_def)
  with fused_init_inv [OF mounted] show ?case ..
next
  case (callback w e opr)
  then have inv: "fs_inv w" "data_ok w" by simp_all
  have "data_ok (snd (fused_oper e opr w))"
  proof (cases opr)
    case (Create p md)
    with fused_create_data [OF inv prod.collapse [symmetric]] show ?thesis by (simp add: case_prod_beta)
  next
    case (Mkdir p md)
    with fused_mkdir_data [OF inv prod.collapse [symmetric]] show ?thesis by (simp add: case_prod_beta)
  next
    case (Rmdir p)
    with fused_rmdir_data [OF inv prod.collapse [symmetric]] show ?thesis by (simp add: case_prod_beta)
  next
    case (Unlink p)
    with fused_unlink_data [OF inv prod.collapse [symmetric]] show ?thesis by (simp add: case_prod_beta)
  next
    case (Rename p q)
    with fused_rename_data [OF inv prod.collapse [symmetric]] show ?thesis by (simp add: case_prod_beta)
  next
    case (Write fh bs off)
    with callback(3) fused_write_data [OF inv callback(2) _ prod.collapse [symmetric]] show ?thesis
      by (simp add: case_prod_beta op_in_bounds_def)
  next
    case (Open p fl)
    then show ?thesis
      by (auto simp: fused_open_def case_prod_beta split: option.splits intro!: data_ok_same [OF inv(2)])
  next
    case (Read fh n off)
    then show ?thesis
      by (auto simp: fused_read_def Let_def case_prod_beta split: option.splits intro!: data_ok_same [OF inv(2)])
  next
    case (Utimens p t0 t1)
    then show ?thesis
      by (auto simp: fused_utimens_def case_prod_beta split: option.splits intro!: data_ok_same [OF inv(2)])
  qed (use inv in simp_all)
  with fused_oper_inv [OF inv(1)] show ?case by simp
qed

end
