(* ===== verification/Rpc_Props.thy ===== *)
theory Rpc_Props
  imports Rpc_Server Fused_Data
begin

text \<open>
  The RPC server of a storage node is the file system behind another door: each request is a
  sequence of the FUSE callbacks (locale \<open>callback_closed\<close>), so whatever they keep, the server
  keeps. On the view of paths and bytes, a write appends and a get reads a slice.
\<close>

section \<open>Requests as callbacks\<close>

fun serves :: "rpc_request \<Rightarrow> fs_op \<Rightarrow> bool" where
  "serves (RpcWrite p d off) (Create q md) = True"
| "serves (RpcWrite p d off) (Write fh d' off') = (d' = d \<and> off' = off)"
| "serves (RpcGet p off n) (Read fh m off') = True"
| "serves (RpcRemove p) (Unlink q) = True"
| "serves (RpcCreate p n md) (Create q md') = True"
| "serves (RpcMkdir p n md) (Mkdir q md') = True"
| "serves _ _ = False"

locale callback_closed =
  fixes P :: "fused_world \<Rightarrow> bool" and ok :: "fs_env \<Rightarrow> fs_op \<Rightarrow> bool"
  assumes callback: "P w \<Longrightarrow> ok e opr \<Longrightarrow> P (snd (fused_oper e opr w))"
begin

lemma closed_write: "P w \<Longrightarrow> ok e (Write fh d off) \<Longrightarrow> P (snd (fused_write e fh d off w))"
  using callback [of w e "Write fh d off"] by (simp add: case_prod_beta)

lemma closed_read: "P w \<Longrightarrow> ok e (Read fh n off) \<Longrightarrow> P (snd (fused_read e fh n off w))"
  using callback [of w e "Read fh n off"] by (simp add: case_prod_beta)

lemma closed_create: "P w \<Longrightarrow> ok e (Create p md) \<Longrightarrow> P (snd (fused_create e p md w))"
  using callback [of w e "Create p md"] by (simp add: case_prod_beta)

lemma closed_mkdir: "P w \<Longrightarrow> ok e (Mkdir p md) \<Longrightarrow> P (snd (fused_mkdir e p md w))"
  using callback [of w e "Mkdir p md"] by (simp add: case_prod_beta)

lemma closed_unlink: "P w \<Longrightarrow> ok e (Unlink p) \<Longrightarrow> P (snd (fused_unlink e p w))"
  using callback [of w e "Unlink p"] by (simp add: case_prod_beta)

lemma closed_write_inode:
  assumes "P w" "\<And>fh. ok e (Write fh d off)"
  shows "P (snd (rpc_write_inode e i d off w))"
  using closed_write [OF assms(1) assms(2) [of "ino (inodes w i)"]]
  by (auto simp: rpc_write_inode_def split: prod.splits sum.splits)

lemma closed_Write:
  assumes "P w" "\<And>k q md. ok (e k) (Create q md)" "\<And>k fh. ok (e k) (Write fh d off)"
  shows "P (snd (rpc_Write e p d off w))"
proof -
  let ?path = "c_str (rpc_normalize_path p)"
  have "P (snd (fused_create (e 0) ?path 0x1A4 w))" by (rule closed_create [OF assms(1,2)])
  then show ?thesis
    using closed_write_inode [OF assms(1,3)] closed_write_inode [OF _ assms(3), of w1 for w1]
    by (auto simp: rpc_Write_def Let_def split: prod.splits sum.splits option.splits)
qed

lemma closed_serve:
  assumes "P w" "\<And>k opr. serves req opr \<Longrightarrow> ok (e k) opr"
  shows "P (rpc_serve e al req w)"
proof (cases req)
  case (RpcWrite p d off)
  with assms closed_Write [of w e d off p] show ?thesis by simp
next
  case (RpcGet p off n)
  with assms(2) have "ok (e k) (Read fh m off')" for k fh m off' by simp
  with closed_read [OF assms(1)] have "P (snd (fused_read (e k) fh m off' w))" for k fh m off' by blast
  with assms(1) RpcGet show ?thesis
    by (auto simp: rpc_Get_def Let_def split: prod.splits sum.splits option.splits) (metis snd_conv)+
next
  case (RpcRemove p)
  with assms closed_unlink show ?thesis by (simp add: rpc_Remove_def case_prod_beta)
next
  case (RpcCreate p n md)
  with assms closed_create show ?thesis by (simp add: rpc_Create_def case_prod_beta)
next
  case (RpcMkdir p n md)
  with assms closed_mkdir show ?thesis by (simp add: rpc_Mkdir_def case_prod_beta)
qed (use assms(1) in simp)

end

interpretation reach: callback_closed fs_reachable "\<lambda>_ _. True"
  by unfold_locales (rule fs_reachable.callback)

interpretation sound: callback_closed sound_run "\<lambda>e opr. host_sound e \<and> op_in_bounds opr"
  by unfold_locales (auto intro: sound_run.callback)

lemma rpc_start_init: "rpc_start e True True fs = fused_init e True fs"
  by (simp add: rpc_start_def fused_init_def)

lemma rpc_reachable_fs: "rpc_reachable w \<Longrightarrow> fs_reachable w"
  by (induction rule: rpc_reachable.induct)
    (auto simp: rpc_start_init intro: fs_reachable.mounted reach.closed_serve)

definition request_in_bounds :: "rpc_request \<Rightarrow> bool" where
  "request_in_bounds req = (case req of RpcWrite p d off \<Rightarrow> off + int (length d) < 2 ^ 63 | _ \<Rightarrow> True)"

lemma serves_in_bounds: "request_in_bounds req \<Longrightarrow> serves req opr \<Longrightarrow> op_in_bounds opr"
  by (cases "(req, opr)" rule: serves.cases) (auto simp: request_in_bounds_def op_in_bounds_def)

lemma sound_serve:
  assumes "sound_run w" "\<And>k. host_sound (e k)" "request_in_bounds req"
  shows "sound_run (rpc_serve e al req w)"
  by (rule sound.closed_serve [OF assms(1)]) (use assms(2,3) serves_in_bounds in auto)

section \<open>Write and read on the view\<close>

lemma same_table_resolve:
  assumes "fs_base w" "same_table w v"
  shows "resolve v ts = resolve w ts"
  by (rule resolve_eqI [OF same_table_base [OF assms(2,1)]])
    (simp add: same_table_edges [OF assms(2)] resolve_rel [OF assms(1)])

lemma resolve_lookup:
  assumes "fs_base w" "resolve w ts = Some i"
  shows "lookup_inode w (ino (inodes w i)) = Some i" "i < n_inodes w" "ino (inodes w i) \<noteq> 0"
  using resolve_slot [OF assms] lookup_inode_slot [OF assms(1)] resolve_live [OF assms] by simp_all

lemma resolve_unique:
  assumes "fs_inv w" "resolve w ts = Some i" "resolve w us = Some i"
  shows "ts = us"
  using tree_path_unique [OF fs_inv_tree [OF assms(1)]] assms(2,3) by (simp add: resolve_rel [OF fs_inv_base [OF assms(1)]])

lemma fused_write_abs:
  assumes "fs_inv w" "data_ok w" "host_sound e" "resolve w ts = Some i" "\<not> S_ISDIR (mode (inodes w i))"
    "off + int (length buf) < 2 ^ 63" "fused_write e (ino (inodes w i)) buf off w = (Inr n, v)"
  shows "fs_abs v = (fs_abs w)(ts \<mapsto> AFile (content w i @ replicate (nat off - length (content w i)) 0 @ buf)) \<and>
    n = to_s32 (int (length buf)) \<and> int (length (content w i)) \<le> off"
proof -
  note base = fs_inv_base [OF assms(1)] and i = resolve_lookup [OF fs_inv_base [OF assms(1)] assms(4)]
  have sz: "isize (inodes w i) = int (length (content w i))" using assms(2,5) i by (simp add: data_ok_def)
  note bp = file_backing [OF base i(2,3) assms(5)]
  have le: "isize (inodes w i) \<le> off"
    using assms(7) by (auto simp: fused_write_def i(1) Let_def split: if_splits)
  let ?c = "content w i @ replicate (nat (off - isize (inodes w i))) 0 @ buf"
  have v: "v = upd_inode i (\<lambda>x. x\<lparr>isize := off + int (length buf), mtime := time_at e 0, ctime := time_at e 1\<rparr>)
      (w\<lparr>files := (files w)(backing_of i \<mapsto> ?c)\<rparr>)" "n = to_s32 (int (length buf))"
    using fused_write_sound [OF assms(3) i(1) le _ _ assms(6)] assms(7) sz by (simp_all add: bp)
  have res: "resolve v us = resolve w us" for us
    by (rule same_table_resolve [OF base]) (use fused_write_table [of w e "ino (inodes w i)" buf off] assms(7) in simp)
  have nd: "node_at v i = AFile ?c" using assms(5) by (simp add: v(1) node_at_def content_def bp)
  have "fs_abs v us = ((fs_abs w)(ts \<mapsto> AFile ?c)) us" for us
  proof (cases "us = ts")
    case True
    then show ?thesis using assms(4) nd by (simp add: fs_abs_def res)
  next
    case False
    have "node_at v j = node_at w j" if j: "resolve w us = Some j" for j
    proof -
      have "j \<noteq> i" using resolve_unique [OF assms(1,4), of us] j False by auto
      then show ?thesis by (intro node_at_frame [OF base j]) (simp_all add: v(1))
    qed
    with False show ?thesis by (auto simp: fs_abs_def res map_option_case split: option.splits)
  qed
  then have "fs_abs v = (fs_abs w)(ts \<mapsto> AFile ?c)" by blast
  moreover have "nat (off - isize (inodes w i)) = nat off - length (content w i)" using sz le by simp
  ultimately show ?thesis using v(2) sz le by simp
qed

lemma fused_read_abs:
  assumes "fs_inv w" "data_ok w" "host_sound e" "resolve w ts = Some i" "\<not> S_ISDIR (mode (inodes w i))"
    "0 \<le> off" "off + int n < 2 ^ 63" "length (content w i) < 2 ^ 63"
  shows "fst (fused_read e (ino (inodes w i)) n off w) =
    Inr (to_s32 (int (length (take n (drop (nat off) (content w i))))), take n (drop (nat off) (content w i)))"
proof -
  note base = fs_inv_base [OF assms(1)] and i = resolve_lookup [OF fs_inv_base [OF assms(1)] assms(4)]
  have d: "isize (inodes w i) = int (length (content w i))" "files w (backing_path (inodes w i)) = Some (content w i)"
    using assms(2,5) i by (simp_all add: data_ok_def)
  note bp = file_backing [OF base i(2,3) assms(5)]
  show ?thesis
  proof (cases "off < isize (inodes w i)")
    case True
    with fused_read_sound [OF assms(3) i(1) assms(6) True d _ assms(7,8)] show ?thesis by (simp add: bp Let_def)
  next
    case False
    then have "drop (nat off) (content w i) = []" using d(1) by simp
    with False show ?thesis by (simp add: fused_read_def i(1))
  qed
qed

section \<open>Requests on the view\<close>

definition afs_bytes :: "string list \<Rightarrow> afs \<Rightarrow> byte list" where
  "afs_bytes ts A = (case A ts of Some (AFile b) \<Rightarrow> b | _ \<Rightarrow> [])"

definition afs_write :: "string list \<Rightarrow> byte list \<Rightarrow> nat \<Rightarrow> afs \<Rightarrow> afs" where
  "afs_write ts d off A =
     A(ts \<mapsto> AFile (afs_bytes ts A @ replicate (off - length (afs_bytes ts A)) 0 @ d))"

lemma errno_code_pos: "errno_code err > 0"
  by (cases err) simp_all

lemma write_inode_abs:
  assumes "fs_inv w" "data_ok w" "host_sound e" "resolve w ts = Some i" "fs_abs w ts = Some (AFile old)"
    "off + int (length d) < 2 ^ 63" "length d < 2 ^ 31" "rpc_write_inode e i d off w = (r, v)" "w_status r = 0"
  shows "fs_abs v = (fs_abs w)(ts \<mapsto> AFile (old @ replicate (nat off - length old) 0 @ d)) \<and> w_bytes r = int (length d) \<and>
    int (length old) \<le> off"
proof -
  have nd: "\<not> S_ISDIR (mode (inodes w i))" "content w i = old"
    using assms(4,5) by (auto simp: fs_abs_def node_at_def split: if_splits)
  obtain n where n: "fused_write e (ino (inodes w i)) d off w = (Inr n, v)" "0 \<le> n" "w_bytes r = n"
    using assms(8,9) errno_code_pos by (auto simp: rpc_write_inode_def less_le split: prod.splits sum.splits if_splits)
  from fused_write_abs [OF assms(1-4) nd(1) assms(6) n(1)] n(3) nd(2) assms(7) show ?thesis by simp
qed

lemma path_resolve: "sound_run w \<Longrightarrow> path_to_inode w p = resolve w (path_tokens p)"
  using sound_run_ok fs_inv_base path_to_inode_resolve by blast

lemma rpc_Write_abs:
  assumes "sound_run w" "\<And>k. host_sound (e k)" "path = c_str (rpc_normalize_path p)" "abs_path path"
    "fs_abs w (path_tokens path) \<noteq> Some ADir" "off + int (length d) < 2 ^ 63" "length d < 2 ^ 31"
    "rpc_Write e p d off w = (r, v)" "w_status r = 0"
  shows "fs_abs v = afs_write (path_tokens path) d (nat off) (fs_abs w) \<and> w_bytes r = int (length d) \<and>
    int (length (afs_bytes (path_tokens path) (fs_abs w))) \<le> off"
proof (cases "resolve w (path_tokens path)")
  case (Some i)
  with assms(5) obtain old where old: "fs_abs w (path_tokens path) = Some (AFile old)"
    by (auto simp: fs_abs_def node_at_def split: if_splits)
  have "rpc_write_inode (e 1) i d off w = (r, v)"
    using assms(8) Some by (simp add: rpc_Write_def path_resolve [OF assms(1)] flip: assms(3))
  from write_inode_abs [OF _ _ assms(2) Some old assms(6,7) this assms(9)] sound_run_ok [OF assms(1)] old
  show ?thesis by (simp add: afs_write_def afs_bytes_def)
next
  case None
  from assms(8) obtain x w1 where c: "fused_create (e 0) path 0x1A4 w = (x, w1)" by fastforce
  with None assms(8,9) obtain fh where x: "x = Inr fh"
    using errno_code_pos by (auto simp: rpc_Write_def path_resolve [OF assms(1)] less_le simp flip: assms(3) split: sum.splits)
  have w1: "sound_run w1"
    using sound.closed_create [OF assms(1), of "e 0" path "0x1A4"] c assms(2) by (simp add: op_in_bounds_def)
  have a: "fs_abs w1 = (fs_abs w)(path_tokens path \<mapsto> AFile [])" "fs_abs w (path_tokens path) = None"
    using fused_create_abs [OF _ c [unfolded x] assms(4)] sound_run_ok [OF assms(1)] by simp_all
  then obtain i where i: "resolve w1 (path_tokens path) = Some i" by (metis (no_types, lifting) fs_abs_def fun_upd_same map_option_eq_Some)
  have "rpc_write_inode (e 1) i d off w1 = (r, v)"
    using assms(8) None c x i by (simp add: rpc_Write_def path_resolve [OF assms(1)] path_resolve [OF w1] flip: assms(3))
  from write_inode_abs [OF _ _ assms(2) i _ assms(6,7) this assms(9), of "[]"] sound_run_ok [OF w1] a
  show ?thesis by (simp add: afs_write_def afs_bytes_def)
qed

lemma rpc_Write_sound:
  assumes "sound_run w" "\<And>k. host_sound (e k)" "off + int (length d) < 2 ^ 63" "rpc_Write e p d off w = (r, v)"
  shows "sound_run v"
  using sound_serve [OF assms(1), of e "RpcWrite p d off"] assms(2-4) by (simp add: request_in_bounds_def)

lemma rpc_Get_abs:
  assumes "sound_run w" "\<And>k. host_sound (e k)" "path = c_str (rpc_normalize_path p)"
    "fs_abs w (path_tokens path) = Some (AFile b)" "al (nat n)" "0 \<le> off" "0 < n" "off + n < 2 ^ 63" "length b < 2 ^ 31"
  shows "\<exists>w'. rpc_Get e al p off n w =
    Some (\<lparr>g_status = 0, g_data = take (nat n) (drop (nat off) b), g_bytes = int (length (take (nat n) (drop (nat off) b)))\<rparr>, w')"
proof -
  from assms(4) obtain i where i: "resolve w (path_tokens path) = Some i" "\<not> S_ISDIR (mode (inodes w i))" "content w i = b"
    by (auto simp: fs_abs_def node_at_def split: if_splits)
  have n: "nat (to_u64 n) = nat n" using assms(6-8) by simp
  let ?g = "take (nat n) (drop (nat off) b)"
  have l: "length ?g < 2 ^ 31" using assms(9) by simp
  have "fst (fused_read (e 0) (ino (inodes w i)) (nat n) off w) = Inr (to_s32 (int (length ?g)), ?g)"
    using fused_read_abs [OF _ _ assms(2) i(1,2) assms(6), of "nat n" 0] sound_run_ok [OF assms(1)] assms(7-9) i(3) by simp
  then obtain w' where rd: "fused_read (e 0) (ino (inodes w i)) (nat n) off w = (Inr (to_s32 (int (length ?g)), ?g), w')"
    by (metis prod.collapse)
  have "to_s32 (int (length ?g)) = int (length ?g)" using l by (intro to_s32_id) simp_all
  then show ?thesis
    using assms(5,7) rd n by (simp add: rpc_Get_def path_resolve [OF assms(1)] i(1) Let_def flip: assms(3) del: to_u64_id to_s32_id length_take take_take)
qed

section \<open>A concrete server\<close>

definition demo_host :: fs_env where
  "demo_host = \<lparr>time_at = (\<lambda>_. 100), fuse_ctx = None, host_uid = 0, host_gid = 0,
     fopen_fails = (\<lambda>_. False), fseek_fails = False, fread_accepts = (\<lambda>n. n),
     fwrite_accepts = (\<lambda>k n. n), fclose_keeps = (\<lambda>n. n), unlink_fails = (\<lambda>_. False)\<rparr>"

definition demo_server :: fused_world where
  "demo_server = the (rpc_start demo_host True True Map.empty)"

lemma demo_server_sound [simp]: "host_sound demo_host" "sound_run demo_server" "rpc_reachable demo_server"
proof -
  show "host_sound demo_host" by (simp add: host_sound_def demo_host_def)
  have s: "rpc_start demo_host True True Map.empty = Some demo_server" by (simp add: demo_server_def rpc_start_def)
  then show "rpc_reachable demo_server" by (rule rpc_reachable.started)
  show "sound_run demo_server" by (rule sound_run.mounted) (use s in \<open>simp add: rpc_start_init\<close>)
qed

lemma demo_server_empty: "fs_abs demo_server (path_tokens ''/ab'') = None"
  by code_simp

section \<open>Properties\<close>

text \<open>C37: whatever requests arrive, in whatever order and whatever the host answers, the state of
  the storage server is one the mounted file system could be in, so all its invariants hold.\<close>

theorem rpc_server_refines_callbacks:
  assumes "rpc_reachable w"
  shows "fs_reachable w \<and> fs_inv w"
  using rpc_reachable_fs [OF assms] fs_reachable_inv by blast

theorem rpc_server_refines_callbacks_witness:
  "\<exists>w. rpc_reachable w \<and> fs_inv w \<and> n_inodes w = 2"
proof -
  let ?w = "rpc_serve (\<lambda>_. demo_host) (\<lambda>_. True) (RpcWrite ''ab'' [1, 2, 3] 0) demo_server"
  have w: "rpc_reachable ?w" by (rule rpc_reachable.served) simp
  have "n_inodes ?w = 2" by code_simp
  with rpc_server_refines_callbacks [OF w] w show ?thesis by blast
qed

text \<open>A file written through the storage server, new or existing, gets the data appended and
  nothing else changes; reading the same range back returns exactly the data.\<close>

theorem rpc_write_get:
  assumes "sound_run w" "\<forall>k. host_sound (e k) \<and> host_sound (e' k)" "path = c_str (rpc_normalize_path p)" "abs_path path"
    "fs_abs w (path_tokens path) \<noteq> Some ADir" "0 \<le> off" "off + int (length d) < 2 ^ 31" "d \<noteq> []" "al (length d)"
    "rpc_Write e p d off w = (r, v)" "w_status r = 0"
  shows "fs_abs v = afs_write (path_tokens path) d (nat off) (fs_abs w) \<and> w_bytes r = int (length d) \<and>
    (\<exists>u. rpc_Get e' al p off (int (length d)) v = Some (\<lparr>g_status = 0, g_data = d, g_bytes = int (length d)\<rparr>, u))"
proof -
  have hs: "\<And>k. host_sound (e k)" "\<And>k. host_sound (e' k)" using assms(2) by auto
  have b: "off + int (length d) < 2 ^ 63" "length d < 2 ^ 31" using assms(6,7) by auto
  note wr = rpc_Write_abs [OF assms(1) hs(1) assms(3-5) b assms(10,11)]
  let ?old = "afs_bytes (path_tokens path) (fs_abs w)"
  let ?b = "?old @ replicate (nat off - length ?old) 0 @ d"
  have v: "sound_run v" by (rule rpc_Write_sound [OF assms(1) hs(1) b(1) assms(10)])
  have ab: "fs_abs v (path_tokens path) = Some (AFile ?b)" using wr by (simp add: afs_write_def)
  have len: "length ?b = nat off + length d" using wr assms(6) by auto
  have got: "take (nat (int (length d))) (drop (nat off) ?b) = d" using wr assms(6) by (simp add: le_nat_iff)
  have "\<exists>u. rpc_Get e' al p off (int (length d)) v = Some (\<lparr>g_status = 0, g_data = d, g_bytes = int (length d)\<rparr>, u)"
    using rpc_Get_abs [OF v hs(2) assms(3) ab _ assms(6), of al "int (length d)"] assms(6-9) b(1) len unfolding got by simp
  with wr show ?thesis by blast
qed

theorem rpc_write_get_witness:
  "\<exists>r v u. rpc_Write (\<lambda>_. demo_host) ''ab'' [1, 2, 3] 0 demo_server = (r, v) \<and> w_bytes r = 3 \<and>
     rpc_Get (\<lambda>_. demo_host) (\<lambda>_. True) ''ab'' 0 3 v = Some (\<lparr>g_status = 0, g_data = [1, 2, 3], g_bytes = 3\<rparr>, u)"
proof -
  obtain r v where wr: "rpc_Write (\<lambda>_. demo_host) ''ab'' [1, 2, 3] 0 demo_server = (r, v)" by fastforce
  have "w_status (fst (rpc_Write (\<lambda>_. demo_host) ''ab'' [1, 2, 3] 0 demo_server)) = 0" by code_simp
  then have st: "w_status r = 0" by (simp add: wr)
  have "c_str (rpc_normalize_path ''ab'') = ''/ab''" by (simp add: c_str_def rpc_normalize_path_def)
  with rpc_write_get [OF _ _ refl _ _ _ _ _ _ wr st, of "\<lambda>_. demo_host" "\<lambda>_. True"] wr demo_server_empty show ?thesis
    by (auto simp: abs_path_def)
qed

end
