(* ===== verification/Fused_Props.thy ===== *)
theory Fused_Props
  imports Fused_Data
begin

text \<open>
  The properties of the storage-node file system, over every state a mounted file system can
  reach, and the defects its code has, each with a concrete run as witness.
\<close>

section \<open>A concrete run\<close>

definition demo_env :: fs_env where
  "demo_env = \<lparr>time_at = (\<lambda>_. 100), fuse_ctx = Some (1000, 1000), host_uid = 0, host_gid = 0,
     fopen_fails = (\<lambda>_. False), fseek_fails = False, fread_accepts = (\<lambda>n. n),
     fwrite_accepts = (\<lambda>k n. n), fclose_keeps = (\<lambda>n. n), unlink_fails = (\<lambda>_. False)\<rparr>"

text \<open>The same host, but an \<^verbatim>\<open>fwrite\<close> transfers at most two bytes (a full disk).\<close>

definition short_env :: fs_env where
  "short_env = demo_env\<lparr>fwrite_accepts := (\<lambda>k n. min 2 n)\<rparr>"

definition demo_mount :: fused_world where
  "demo_mount = the (fused_init demo_env True Map.empty)"

text \<open>A directory \<^verbatim>\<open>/d\<close> and a file \<^verbatim>\<open>/f\<close> that holds three bytes.\<close>

definition demo_dir :: fused_world where
  "demo_dir = snd (fused_oper demo_env (Mkdir ''/d'' 0x1ED) demo_mount)"

definition demo_file :: fused_world where
  "demo_file = snd (fused_oper demo_env (Create ''/f'' 0x1A4) demo_dir)"

definition demo_data :: fused_world where
  "demo_data = snd (fused_oper demo_env (Write 3 [1, 2, 3] 0) demo_file)"

lemmas demo_defs = demo_env_def short_env_def demo_mount_def demo_dir_def demo_file_def demo_data_def

lemma host_sound_demo [simp]: "host_sound demo_env"
  by (simp add: host_sound_def demo_env_def)

lemma demo_sound [simp]: "sound_run demo_mount" "sound_run demo_dir" "sound_run demo_file" "sound_run demo_data"
proof -
  show m: "sound_run demo_mount"
    by (rule sound_run.mounted [of demo_env Map.empty]) (simp add: demo_mount_def fused_init_def)
  show d: "sound_run demo_dir"
    unfolding demo_dir_def by (rule sound_run.callback [OF m]) (simp_all add: op_in_bounds_def)
  show f: "sound_run demo_file"
    unfolding demo_file_def by (rule sound_run.callback [OF d]) (simp_all add: op_in_bounds_def)
  show "sound_run demo_data"
    unfolding demo_data_def by (rule sound_run.callback [OF f]) (simp_all add: op_in_bounds_def)
qed

lemma sound_reachable: "sound_run w \<Longrightarrow> fs_reachable w"
  by (induction rule: sound_run.induct) (auto intro: fs_reachable.intros)

lemma demo_reachable [simp]: "fs_reachable demo_mount" "fs_reachable demo_dir" "fs_reachable demo_file"
  "fs_reachable demo_data"
  by (simp_all add: sound_reachable)

text \<open>A successful call as a premise of the properties: the reply computes to \<open>Inr\<close>.\<close>

lemma succeeds: "fst x = Inr y \<Longrightarrow> x = (Inr y, snd x)"
  by (cases x) simp

section \<open>Helper lemmas\<close>

lemma rename_inside_unreachable:
  assumes "fs_inv w" "fused_rename e from to w = (Inr u, v)" "abs_path from" "abs_path to"
    "from \<noteq> to" "take (length (path_tokens from)) (path_tokens to) = path_tokens from"
  shows "path_to_inode v from = None" "path_to_inode v to = None"
proof -
  have "resolve v ts = None" if ts: "take (length (path_tokens from)) ts = path_tokens from" for ts
    using assms(1,2)
  proof (cases rule: fused_rename_cases)
    case (moved i d1 n1 d2 n2 sp dp)
    note base = fs_inv_base [OF assms(1)] and tree = fs_inv_tree [OF assms(1)]
    have "name_ok n1"
      using moved(8,10) edges_live(4) [OF base, of d1 n1 i] by auto
    then have tk: "path_tokens from = path_tokens sp @ [n1]" "path_tokens to = path_tokens dp @ [n2]"
      using abs_path_split [OF assms(3) moved(4)] abs_path_split [OF assms(4) moved(5)] moved(10)
      by (simp_all add: name_ok_def)
    have F: "path_rel (edges w) 0 (path_tokens from) i" and D2: "path_rel (edges w) 0 (path_tokens dp) d2"
      and D1: "resolve w (path_tokens sp) = Some d1" and R: "resolve w (path_tokens sp @ [n1]) = Some i"
      using moved(2,6,7) tk by (simp_all add: path_to_inode_resolve [OF base] resolve_rel [OF base])
    have e: "(d1, n1, i) \<in> edges w" by (rule resolve_snoc_edge [OF base D1 R])
    with moved(9) have ev: "edges v = insert (d2, n2, i) (edges w - {(d1, n1, i)})"
      using moved(12) by auto
    have inE: "\<forall>d nm. (d, nm, i) \<notin> edges w - {(d1, n1, i)}"
      using tree e unfolding tree_edges_def by blast
    have cut: "path_rel (edges w - {(d1, n1, i)}) 0 us y \<longleftrightarrow>
        path_rel (edges w) 0 us y \<and> take (length (path_tokens from)) us \<noteq> path_tokens from" for us y
      by (rule path_rel_cut [OF tree _ F])
        (use inE F tk path_rel_fun [OF base] fs_baseD(1) [OF base] in \<open>auto simp: without_def\<close>)
    have "path_tokens from \<noteq> path_tokens to"
      using moved(2,3) by (auto simp: path_to_inode_resolve [OF base])
    with assms(6) have pre: "take (length (path_tokens from)) (path_tokens dp) = path_tokens from"
      unfolding tk by (cases "length (path_tokens sp) < length (path_tokens dp)") auto
    have gone: "\<not> path_rel (edges w - {(d1, n1, i)}) 0 us d2" for us
      using tree_path_unique [OF tree _ D2] pre unfolding cut by blast
    have same: "path_rel (edges v) 0 us y \<longleftrightarrow> path_rel (edges w - {(d1, n1, i)}) 0 us y" for us y
    proof (induction us arbitrary: y rule: rev_induct)
      case (snoc t us)
      then show ?case using gone unfolding ev path_rel_snoc by blast
    qed simp
    show ?thesis
      using ts same cut by (intro resolve_eqI [OF fs_inv_base [OF moved(11)]]) simp
  qed (use assms(5) in auto)
  moreover have "fs_inv v" using fused_oper_inv [OF assms(1), of e "Rename from to"] assms(2) by simp
  ultimately show "path_to_inode v from = None" "path_to_inode v to = None"
    using assms(6) by (simp_all add: path_to_inode_resolve [OF fs_inv_base])
qed

lemma lookup_inode_cong:
  "n_inodes v = n_inodes w \<Longrightarrow> (\<And>j. ino (inodes v j) = ino (inodes w j)) \<Longrightarrow> lookup_inode v k = lookup_inode w k"
  by (simp add: lookup_inode_def)

lemma fopen_ab_extends: "fopen_ab e p fs = Some fs' \<Longrightarrow> fs' p = Some (case fs p of None \<Rightarrow> [] | Some bs \<Rightarrow> bs)"
  by (auto simp: fopen_ab_def split: if_splits)

lemma fwrite_append_extends: "fs p = Some old \<Longrightarrow> \<exists>more. fwrite_append e k bs p fs p = Some (old @ more)"
  by (simp add: fwrite_append_def)

lemma write_gap_extends: "fs p = Some old \<Longrightarrow> \<exists>more. snd (write_gap e k gap p fs) p = Some (old @ more)"
proof (induction gap arbitrary: k fs old rule: less_induct)
  case (less gap)
  show ?case
  proof (cases "gap = 0")
    case True
    with less.prems show ?thesis by (subst write_gap.simps) simp
  next
    case False
    let ?n = "if gap > 4096 then 4096 else gap"
    obtain more where m: "fwrite_append e k (replicate ?n 0) p fs p = Some (old @ more)"
      using fwrite_append_extends [of fs p old, OF less.prems] by blast
    have "\<exists>more'. snd (write_gap e (Suc k) (gap - ?n) p (fwrite_append e k (replicate ?n 0) p fs)) p =
        Some ((old @ more) @ more')"
      using False m by (intro less.IH) auto
    with False show ?thesis by (subst write_gap.simps) (auto simp: Let_def)
  qed
qed

lemma fclose_ab_extends:
  assumes "opened p = Some old" "fs p = Some (old @ ys)"
  shows "\<exists>zs. fclose_ab e p opened fs p = Some (old @ zs)"
  using assms by (simp add: fclose_ab_def)

lemma fused_write_extends:
  assumes "lookup_inode w fh = Some i"
  shows "\<exists>more. content (snd (fused_write e fh buf off w)) i = content w i @ more"
proof (cases "isize (inodes w i) \<le> off \<and> fopen_ab e (backing_path (inodes w i)) (files w) \<noteq> None")
  case False
  then have "snd (fused_write e fh buf off w) = w"
    by (auto simp: fused_write_def assms Let_def split: option.splits)
  then show ?thesis by simp
next
  case True
  let ?p = "backing_path (inodes w i)"
  from True obtain fs where fs: "fopen_ab e ?p (files w) = Some fs" by auto
  define g where "g = (if isize (inodes w i) < off
      then write_gap e 0 (nat (to_u64 (off - isize (inodes w i)))) ?p fs else (0, fs))"
  have opened: "fs ?p = Some (content w i)" using fopen_ab_extends [OF fs] by (simp add: content_def)
  then have "\<exists>m1. snd g ?p = Some (content w i @ m1)"
    using write_gap_extends [of fs ?p "content w i"] by (simp add: g_def)
  then obtain m1 where "snd g ?p = Some (content w i @ m1)" ..
  then obtain m2 where "fwrite_append e (fst g) buf ?p (snd g) ?p = Some (content w i @ m2)"
    using fwrite_append_extends [of "snd g" ?p "content w i @ m1" e "fst g" buf] by auto
  then obtain m3 where m3: "fclose_ab e ?p fs (fwrite_append e (fst g) buf ?p (snd g)) ?p = Some (content w i @ m3)"
    using fclose_ab_extends [of fs ?p "content w i"] opened by blast
  have "content (snd (fused_write e fh buf off w)) i = content w i @ m3"
    using True m3 by (simp add: fused_write_def assms fs Let_def case_prod_beta content_def flip: g_def)
  then show ?thesis ..
qed

section \<open>Properties\<close>

text \<open>C6: every state a mounted file system can reach, whatever callbacks run and whatever the
  host answers, satisfies the table invariant: at most 1024 inodes and 256 entries per directory,
  entry names distinct, non-empty, slash-free and shorter than 256 bytes, every entry leads to a
  live inode whose number is its slot plus one, only directories have entries, every live inode
  has its own backing file, and no inode has two entries.\<close>

theorem fs_reachable_invariant: "fs_reachable w \<Longrightarrow> fs_inv w"
  by (rule fs_reachable_inv)

theorem fs_reachable_invariant_witness: "fs_reachable demo_data \<and> fs_inv demo_data"
  using fs_reachable_invariant [of demo_data] by simp

text \<open>C23: there are no hard links: two paths that resolve to the same inode have the same
  components.\<close>

theorem one_path_per_inode:
  assumes "fs_reachable w" "path_to_inode w p = Some i" "path_to_inode w q = Some i"
  shows "path_tokens p = path_tokens q"
proof -
  note inv = fs_reachable_inv [OF assms(1)]
  note base = fs_inv_base [OF inv]
  show ?thesis
    using assms(2,3) by (intro tree_path_unique [OF fs_inv_tree [OF inv], of _ i])
      (simp_all add: path_to_inode_resolve [OF base] resolve_rel [OF base])
qed

theorem one_path_per_inode_witness:
  "path_to_inode demo_data ''/f'' = Some 2 \<and> path_to_inode demo_data ''//f/'' = Some 2 \<and>
   path_tokens ''/f'' = path_tokens ''//f/''"
proof -
  have "path_to_inode demo_data ''/f'' = Some 2" "path_to_inode demo_data ''//f/'' = Some 2"
    by code_simp+
  with one_path_per_inode [OF demo_reachable(4) this] show ?thesis by simp
qed

text \<open>C7: a successful create makes exactly the given path, which did not exist, an empty
  file, leaves every other path's node and bytes as they were, and returns a handle that
  designates the new file.\<close>

theorem create_refines:
  assumes "fs_reachable w" "abs_path p" "fused_create e p md w = (Inr fh, v)"
  shows "fs_abs w (path_tokens p) = None \<and> fs_abs v = (fs_abs w)(path_tokens p \<mapsto> AFile []) \<and>
    lookup_inode v fh = path_to_inode v p"
proof -
  note inv = fs_reachable_inv [OF assms(1)]
  have v: "fs_base v" using fused_oper_inv [OF inv, of e "Create p md"] assms(3) by auto
  show ?thesis
    using fused_create_abs [OF inv assms(3,2)] unfolding path_to_inode_resolve [OF v] by blast
qed

theorem create_refines_witness:
  "\<exists>v. fused_create demo_env ''/d/g'' 0x1A4 demo_dir = (Inr 3, v) \<and>
     fs_abs v = (fs_abs demo_dir)([''d'', ''g''] \<mapsto> AFile [])"
proof -
  have r: "fst (fused_create demo_env ''/d/g'' 0x1A4 demo_dir) = Inr 3" by code_simp
  have "path_tokens ''/d/g'' = [''d'', ''g'']" by code_simp
  with create_refines [OF demo_reachable(2) _ succeeds [OF r]] succeeds [OF r] show ?thesis
    by (intro exI conjI) (assumption, simp add: abs_path_def)
qed

text \<open>C24: a successful mkdir makes exactly the given path, which did not exist, a directory
  and leaves every other path's node and bytes as they were.\<close>

theorem mkdir_refines:
  assumes "fs_reachable w" "abs_path p" "fused_mkdir e p md w = (Inr u, v)"
  shows "fs_abs w (path_tokens p) = None \<and> fs_abs v = (fs_abs w)(path_tokens p \<mapsto> ADir)"
  using fused_mkdir_abs [OF fs_reachable_inv [OF assms(1)] assms(3,2)] by simp_all

theorem mkdir_refines_witness:
  "\<exists>v. fused_mkdir demo_env ''/d/e'' 0x1ED demo_dir = (Inr (), v) \<and>
     fs_abs v = (fs_abs demo_dir)([''d'', ''e''] \<mapsto> ADir)"
proof -
  have r: "fst (fused_mkdir demo_env ''/d/e'' 0x1ED demo_dir) = Inr ()" by code_simp
  have "path_tokens ''/d/e'' = [''d'', ''e'']" by code_simp
  with mkdir_refines [OF demo_reachable(2) _ succeeds [OF r]] succeeds [OF r] show ?thesis
    by (intro exI conjI) (assumption, simp add: abs_path_def)
qed

text \<open>C29: a create or mkdir that fails at any point (name exists, no parent, table full,
  backing file cannot be created, directory full) leaves the inode count, every inode of the
  table and so every path as it was; the slot it allocated is given back.\<close>

theorem failed_creation_rolls_back:
  assumes "fs_reachable w"
    "fused_create e p md w = (Inl err, v) \<or> fused_mkdir e p md w = (Inl err', v)"
  shows "n_inodes v = n_inodes w \<and> (\<forall>j<n_inodes w. inodes v j = inodes w j) \<and>
    path_to_inode v q = path_to_inode w q"
proof -
  note inv = fs_reachable_inv [OF assms(1)]
  from assms(2) have k: "table_kept w v"
    using fused_create_Inl [OF inv] fused_mkdir_Inl [OF inv] by blast
  then have v: "fs_base v" "edges v = edges w" by (auto simp: table_kept_def)
  have "path_to_inode v q = path_to_inode w q"
    using v by (simp add: path_to_inode_resolve [OF v(1)] path_to_inode_resolve [OF fs_inv_base [OF inv]])
      (rule resolve_eqI [OF v(1)], simp add: resolve_rel [OF fs_inv_base [OF inv]])
  with k show ?thesis by (simp add: table_kept_def)
qed

theorem failed_creation_rolls_back_witness:
  "\<exists>v. fused_create (demo_env\<lparr>fopen_fails := (\<lambda>_. True)\<rparr>) ''/g'' 0x1A4 demo_data = (Inl EIO, v) \<and>
     n_inodes v = n_inodes demo_data"
proof -
  let ?r = "fused_create (demo_env\<lparr>fopen_fails := (\<lambda>_. True)\<rparr>) ''/g'' 0x1A4 demo_data"
  have "fst ?r = Inl EIO" by code_simp
  then have r: "?r = (Inl EIO, snd ?r)" by (cases ?r) simp
  from failed_creation_rolls_back [OF demo_reachable(4) disjI1 [OF this]] r show ?thesis by blast
qed

text \<open>C25: a successful unlink makes exactly the named file (and, when it is a directory, what
  is below it) disappear; the nodes and bytes of all other paths stay.\<close>

theorem unlink_refines:
  assumes "fs_reachable w" "fused_unlink e p w = (Inr u, v)"
  shows "fs_abs v = afs_remove (path_tokens p) (fs_abs w)"
  by (rule fused_unlink_abs [OF fs_reachable_inv [OF assms(1)] assms(2)])

theorem unlink_refines_witness:
  "\<exists>v. fused_unlink demo_env ''/f'' demo_data = (Inr (), v) \<and> fs_abs v = afs_remove [''f''] (fs_abs demo_data)"
proof -
  have r: "fst (fused_unlink demo_env ''/f'' demo_data) = Inr ()" by code_simp
  have "path_tokens ''/f'' = [''f'']" by code_simp
  with unlink_refines [OF demo_reachable(4) succeeds [OF r]] succeeds [OF r] show ?thesis by metis
qed

text \<open>C27: rmdir succeeds only on an existing directory with nothing below it, and then makes
  exactly that path disappear.\<close>

theorem rmdir_refines:
  assumes "fs_reachable w" "fused_rmdir e p w = (Inr u, v)"
  shows "fs_abs w (path_tokens p) = Some ADir \<and> (\<forall>ts. ts \<noteq> [] \<longrightarrow> fs_abs w (path_tokens p @ ts) = None) \<and>
    fs_abs v = (fs_abs w)(path_tokens p := None)"
proof -
  note r = fused_rmdir_abs [OF fs_reachable_inv [OF assms(1)] assms(2)]
  have "fs_abs v = (fs_abs w)(path_tokens p := None)"
  proof
    fix ts
    show "fs_abs v ts = ((fs_abs w)(path_tokens p := None)) ts"
      using r(3) by (auto simp: r(1) afs_remove_def take_eq_prefix)
  qed
  with r(2,3) show ?thesis by simp
qed

theorem rmdir_refines_witness:
  "\<exists>v. fused_rmdir demo_env ''/d'' demo_data = (Inr (), v) \<and> fs_abs v = (fs_abs demo_data)([''d''] := None)"
proof -
  have r: "fst (fused_rmdir demo_env ''/d'' demo_data) = Inr ()" by code_simp
  have "path_tokens ''/d'' = [''d'']" by code_simp
  with rmdir_refines [OF demo_reachable(4) succeeds [OF r]] succeeds [OF r] show ?thesis by metis
qed

text \<open>C8: a successful rename to a destination outside the source moves the whole subtree:
  what was below the source is found below the destination with the same bytes, the source is
  gone, every other path is unchanged.\<close>

theorem rename_refines:
  assumes "fs_reachable w" "abs_path p" "abs_path q" "p \<noteq> q"
    "take (length (path_tokens p)) (path_tokens q) \<noteq> path_tokens p"
    "fused_rename e p q w = (Inr u, v)"
  shows "fs_abs v = afs_move (path_tokens p) (path_tokens q) (fs_abs w)"
  by (rule fused_rename_abs [OF fs_reachable_inv [OF assms(1)] assms(6,2-5)])

theorem rename_refines_witness:
  "\<exists>v. fused_rename demo_env ''/f'' ''/d/g'' demo_data = (Inr (), v) \<and>
     fs_abs v = afs_move [''f''] [''d'', ''g''] (fs_abs demo_data)"
proof -
  have r: "fst (fused_rename demo_env ''/f'' ''/d/g'' demo_data) = Inr ()" by code_simp
  have t: "path_tokens ''/f'' = [''f'']" "path_tokens ''/d/g'' = [''d'', ''g'']" by code_simp+
  have "fs_abs (snd (fused_rename demo_env ''/f'' ''/d/g'' demo_data)) =
      afs_move (path_tokens ''/f'') (path_tokens ''/d/g'') (fs_abs demo_data)"
    by (rule rename_refines [OF demo_reachable(4) _ _ _ _ succeeds [OF r]]) (simp_all add: abs_path_def t)
  with succeeds [OF r] t show ?thesis by metis
qed

text \<open>C10: on a host without failures, now and in all callbacks before, and with all writes ending below
  \<open>2 ^ 63\<close>, a successful write through the handle of a file appends: the bytes of the file become the old bytes, zeros
  up to the offset, and the buffer, the recorded size is their length, and every other inode and
  every other backing file stay. (With failures it may not: short writes of the zeros and a failed
  \<^verbatim>\<open>fclose\<close> go unnoticed.)\<close>

theorem write_appends:
  assumes "sound_run w" "host_sound e" "off + int (length buf) < 2 ^ 63" "fh \<noteq> 0"
    "lookup_inode w fh = Some i" "\<not> S_ISDIR (mode (inodes w i))" "fused_write e fh buf off w = (Inr n, v)"
  shows "content v i = content w i @ replicate (nat off - length (content w i)) 0 @ buf \<and>
    int (length (content w i)) \<le> off \<and> isize (inodes v i) = int (length (content v i)) \<and>
    (\<forall>j. j \<noteq> i \<longrightarrow> inodes v j = inodes w j) \<and> (\<forall>q. q \<noteq> backing_path (inodes w i) \<longrightarrow> files v q = files w q)"
proof -
  from sound_run_ok [OF assms(1)] have inv: "fs_inv w" "data_ok w" by simp_all
  note il = lookup_inode_SomeD [OF assms(5)]
  have sz: "isize (inodes w i) = int (length (content w i))"
    using inv(2) il assms(4,6) by (simp add: data_ok_def)
  have bp: "backing_path (inodes w i) \<noteq> []"
    using file_backing(2) [OF fs_inv_base [OF inv(1)] _ _ assms(6)] il assms(4) by simp
  have le: "isize (inodes w i) \<le> off"
    using assms(7) by (auto simp: fused_write_def assms(5) Let_def split: if_splits)
  have v: "v = upd_inode i (\<lambda>x. x\<lparr>isize := off + int (length buf), mtime := time_at e 0, ctime := time_at e 1\<rparr>)
      (w\<lparr>files := (files w)(backing_path (inodes w i) \<mapsto>
          content w i @ replicate (nat (off - isize (inodes w i))) 0 @ buf)\<rparr>)"
    using fused_write_sound [OF assms(2,5) le _ bp assms(3)] assms(7) sz by simp
  have "nat (off - isize (inodes w i)) = nat off - length (content w i)"
    using sz le by (simp add: nat_diff_distrib)
  with v sz le show ?thesis by (simp add: content_def)
qed

theorem write_appends_witness:
  "\<exists>v. fused_write demo_env 3 [9] 5 demo_data = (Inr 1, v) \<and> content v 2 = [1, 2, 3, 0, 0, 9]"
proof -
  have r: "fst (fused_write demo_env 3 [9] 5 demo_data) = Inr 1" by code_simp
  have l: "lookup_inode demo_data 3 = Some 2" "\<not> S_ISDIR (mode (inodes demo_data 2))"
    "content demo_data 2 = [1, 2, 3]" by code_simp+
  from write_appends [OF demo_sound(4) host_sound_demo _ _ l(1,2) succeeds [OF r]] l(3)
  have "content (snd (fused_write demo_env 3 [9] 5 demo_data)) 2 = [1, 2, 3] @ replicate (nat 5 - length [1, 2, 3::byte]) 0 @ [9]"
    by simp
  also have "\<dots> = [1, 2, 3, 0, 0, 9]" by code_simp
  finally have "content (snd (fused_write demo_env 3 [9] 5 demo_data)) 2 = [1, 2, 3, 0, 0, 9]" .
  with succeeds [OF r] show ?thesis by blast
qed

text \<open>C9: read returns what was written, on a host without failures: in a state that callbacks reached
  without any failed or short \<^verbatim>\<open>stdio\<close> call and with all writes ending below \<open>2 ^ 63\<close>, after a successful
  write of a non-empty buffer of less than \<open>2 ^ 31\<close> bytes through the handle of a file, also ending
  below \<open>2 ^ 63\<close>, reading as many bytes at the same offset through the same handle, again without a
  failure, returns exactly the buffer. (After a short write it need not:
  \<open>failed_write_corrupts\<close>.)\<close>

theorem read_after_write:
  assumes "sound_run w" "host_sound e" "host_sound e'" "off + int (length buf) < 2 ^ 63"
    "0 < length buf" "length buf < 2 ^ 31" "fh \<noteq> 0"
    "lookup_inode w fh = Some i" "\<not> S_ISDIR (mode (inodes w i))" "fused_write e fh buf off w = (Inr n, v)"
  shows "fst (fused_read e' fh (length buf) off v) = Inr (int (length buf), buf)"
proof -
  from sound_run_ok [OF assms(1)] have inv: "fs_inv w" "data_ok w" by simp_all
  note il = lookup_inode_SomeD [OF assms(8)]
  have sz: "isize (inodes w i) = int (length (content w i))"
    using inv(2) il assms(7,9) by (simp add: data_ok_def)
  have bp: "backing_path (inodes w i) \<noteq> []"
    using file_backing(2) [OF fs_inv_base [OF inv(1)] _ _ assms(9)] il assms(7) by simp
  have le: "isize (inodes w i) \<le> off"
    using assms(10) by (auto simp: fused_write_def assms(8) Let_def split: if_splits)
  let ?bs = "content w i @ replicate (nat (off - isize (inodes w i))) 0 @ buf"
  have v: "v = upd_inode i (\<lambda>x. x\<lparr>isize := off + int (length buf), mtime := time_at e 0, ctime := time_at e 1\<rparr>)
      (w\<lparr>files := (files w)(backing_path (inodes w i) \<mapsto> ?bs)\<rparr>)"
    using fused_write_sound [OF assms(2,8) le _ bp assms(4)] assms(10) sz by simp
  have off: "nat off = length (content w i) + nat (off - isize (inodes w i))" using sz le by simp
  have len: "int (length ?bs) = off + int (length buf)" using sz le by simp
  have lk: "lookup_inode v fh = Some i"
    unfolding assms(8) [symmetric] by (rule lookup_inode_cong) (simp_all add: v)
  have got: "take (length buf) (drop (nat off) ?bs) = buf" by (simp add: off)
  have f: "isize (inodes v i) = off + int (length buf)" "backing_path (inodes v i) = backing_path (inodes w i)"
    "files v (backing_path (inodes w i)) = Some ?bs"
    unfolding v by simp_all
  have o: "0 \<le> off" "off < isize (inodes v i)" using sz le assms(5) f(1) by linarith+
  have o': "isize (inodes v i) = int (length ?bs)" "files v (backing_path (inodes v i)) = Some ?bs"
    "backing_path (inodes v i) \<noteq> []" "length ?bs < 2 ^ 63"
    using f bp len sz le assms(4) by simp_all
  have "fst (fused_read e' fh (length buf) off v) = Inr (to_s32 (int (length buf)), buf)"
    unfolding fused_read_sound [OF assms(3) lk o o'(1-3) assms(4) o'(4)] got by simp
  then show ?thesis using assms(6) by simp
qed

theorem read_after_write_witness: "fst (fused_read demo_env 3 3 0 demo_data) = Inr (3, [1, 2, 3])"
proof -
  have r: "fst (fused_write demo_env 3 [1, 2, 3] 0 demo_file) = Inr 3" by code_simp
  have l: "lookup_inode demo_file 3 = Some 2" "\<not> S_ISDIR (mode (inodes demo_file 2))" by code_simp+
  have "demo_data = snd (fused_write demo_env 3 [1, 2, 3] 0 demo_file)"
    by (simp add: demo_data_def case_prod_beta)
  with read_after_write [OF demo_sound(3) host_sound_demo host_sound_demo _ _ _ _ l succeeds [OF r]] show ?thesis
    by (simp add: numeral_3_eq_3)
qed

text \<open>C31: on a host without failures the size recorded in the inode of a file is always the
  length of its backing file, so \<^verbatim>\<open>fused_getattr\<close> reports the true size.\<close>

theorem size_is_length:
  assumes "sound_run w" "path_to_inode w p = Some i" "\<not> S_ISDIR (mode (inodes w i))"
  shows "\<exists>st. fused_getattr p w = Inr st \<and> st_size st = int (length (content w i)) \<and>
    fs_abs w (path_tokens p) = Some (AFile (content w i))"
proof -
  from sound_run_ok [OF assms(1)] have inv: "fs_inv w" "data_ok w" by simp_all
  note base = fs_inv_base [OF inv(1)]
  have r: "resolve w (path_tokens p) = Some i" using assms(2) by (simp add: path_to_inode_resolve [OF base])
  have "isize (inodes w i) = int (length (content w i))"
    using inv(2) resolve_live [OF base r] assms(3) by (simp add: data_ok_def)
  with assms(2,3) r show ?thesis by (simp add: fused_getattr_def fs_abs_def node_at_def Let_def)
qed

theorem size_is_length_witness:
  "\<exists>st. fused_getattr ''/f'' demo_data = Inr st \<and> st_size st = 3"
proof -
  have l: "path_to_inode demo_data ''/f'' = Some 2" "\<not> S_ISDIR (mode (inodes demo_data 2))"
    "content demo_data 2 = [1, 2, 3]" by code_simp+
  from size_is_length [OF demo_sound(4) l(1,2)] show ?thesis by (simp add: l(3)) metis
qed

text \<open>C30: files are append-only, on every host: a write below the recorded size and an open
  for writing without \<^verbatim>\<open>O_APPEND\<close> are refused with \<^verbatim>\<open>EPERM\<close> and change nothing, and whatever a
  write returns, the bytes already in a backing file stay a prefix of it.\<close>

theorem append_only:
  assumes "lookup_inode w fh = Some i"
  shows "(off < isize (inodes w i) \<longrightarrow> fused_write e fh buf off w = (Inl EPERM, w)) \<and>
    (\<forall>p. path_to_inode w p = Some i \<longrightarrow> \<not> S_ISDIR (mode (inodes w i)) \<longrightarrow>
       flags AND O_ACCMODE \<in> {O_WRONLY, O_RDWR} \<longrightarrow> flags AND O_APPEND = 0 \<longrightarrow>
       fused_open e p flags w = (Inl EPERM, w)) \<and>
    (\<exists>more. content (snd (fused_write e fh buf off w)) i = content w i @ more)"
proof (intro conjI)
  show "\<exists>more. content (snd (fused_write e fh buf off w)) i = content w i @ more"
    by (rule fused_write_extends [OF assms])
qed (auto simp: fused_write_def fused_open_def assms Let_def)

theorem append_only_witness:
  "fused_write demo_env 3 [9] 1 demo_data = (Inl EPERM, demo_data)"
proof -
  have "lookup_inode demo_data 3 = Some 2" "1 < isize (inodes demo_data 2)" by code_simp+
  with append_only [OF this(1), of 1 demo_env "[9]"] show ?thesis by blast
qed

text \<open>C32: readdir of a directory lists, after the two dot entries, each of its children exactly
  once: a name is listed if and only if that child's path resolves.\<close>

theorem readdir_lists_children:
  assumes "fs_reachable w" "fused_readdir p w = Inr names"
  shows "\<exists>ns. names = ''.'' # ''..'' # ns \<and> distinct ns \<and>
    (\<forall>n. n \<in> set ns \<longleftrightarrow> fs_abs w (path_tokens p @ [n]) \<noteq> None)"
proof -
  note base = fs_inv_base [OF fs_reachable_inv [OF assms(1)]]
  from assms(2) obtain i where i: "path_to_inode w p = Some i" "S_ISDIR (mode (inodes w i))"
    and ns: "names = ''.'' # ''..'' # map fst (entries (inodes w i))"
    by (auto simp: fused_readdir_def map_fst_entries split: option.splits if_splits)
  note il = path_to_inode_slot [OF base i(1)]
  have "distinct (map fst (entries (inodes w i)))" using fs_baseD(7) [OF base il(1)] by (simp add: slot_ok_def)
  moreover have "n \<in> set (map fst (entries (inodes w i))) \<longleftrightarrow> fs_abs w (path_tokens p @ [n]) \<noteq> None" for n
    using resolve_children [OF base, of "path_tokens p" i n] i(1) by (simp add: path_to_inode_resolve [OF base])
  ultimately show ?thesis using ns by blast
qed

theorem readdir_lists_children_witness:
  "fused_readdir ''/'' demo_data = Inr [''.'', ''..'', ''d'', ''f''] \<and> fs_abs demo_data [''f''] \<noteq> None"
proof -
  have r: "fused_readdir ''/'' demo_data = Inr [''.'', ''..'', ''d'', ''f'']" by code_simp
  from readdir_lists_children [OF demo_reachable(4) r] obtain ns where
    "[''.'', ''..'', ''d'', ''f''] = ''.'' # ''..'' # ns" "\<forall>n. n \<in> set ns \<longleftrightarrow> fs_abs demo_data (path_tokens ''/'' @ [n]) \<noteq> None"
    by blast
  then have "fs_abs demo_data (path_tokens ''/'' @ [''f'']) \<noteq> None" by (metis list.inject list.set_intros)
  with r show ?thesis by simp
qed

text \<open>For absolute paths rmdir never dereferences a null pointer (it does for a path of an
  existing directory written without a slash, which resolves because the first character is
  skipped), and it refuses the root, a missing path, a file and a non-empty directory without
  changing anything.\<close>

theorem rmdir_errors:
  assumes "abs_path p"
  shows "fst (fused_rmdir e p w) \<noteq> Inl SIGSEGV \<and>
    (p = ''/'' \<longrightarrow> fused_rmdir e p w = (Inl EBUSY, w)) \<and>
    (p \<noteq> ''/'' \<and> path_to_inode w p = None \<longrightarrow> fused_rmdir e p w = (Inl ENOENT, w)) \<and>
    (\<forall>i. p \<noteq> ''/'' \<and> path_to_inode w p = Some i \<and> \<not> S_ISDIR (mode (inodes w i)) \<longrightarrow>
       fused_rmdir e p w = (Inl ENOTDIR, w)) \<and>
    (\<forall>i. p \<noteq> ''/'' \<and> path_to_inode w p = Some i \<and> S_ISDIR (mode (inodes w i)) \<and>
       n_children (inodes w i) > 0 \<longrightarrow> fused_rmdir e p w = (Inl ENOTEMPTY, w))"
proof -
  have "CHR ''/'' \<in> set (strncpy0 p (MAX_PATH - 1))"
    using assms by (cases p) (auto simp: abs_path_def strncpy0_def)
  then have "strrchr (strncpy0 p (MAX_PATH - 1)) CHR ''/'' \<noteq> None" by (simp add: strrchr_None_iff)
  then show ?thesis
    by (auto simp: fused_rmdir_def Let_def split: option.splits)
qed

theorem rmdir_errors_witness:
  "fst (fused_rmdir demo_env ''/f'' demo_data) = Inl ENOTDIR \<and> fst (fused_rmdir demo_env ''xd'' demo_data) = Inl SIGSEGV"
proof -
  have f: "path_to_inode demo_data ''/f'' = Some 2" "\<not> S_ISDIR (mode (inodes demo_data 2))" by code_simp+
  have "abs_path ''/f''" by (simp add: abs_path_def)
  from rmdir_errors [OF this, of demo_env demo_data] f
  have "fused_rmdir demo_env ''/f'' demo_data = (Inl ENOTDIR, demo_data)" by blast
  moreover have "fst (fused_rmdir demo_env ''xd'' demo_data) = Inl SIGSEGV" by code_simp
  ultimately show ?thesis by simp
qed

section \<open>Defects\<close>

text \<open>A write that fails half way is not undone: when the host takes and keeps only the first
  \<open>n\<close> bytes, the call reports \<^verbatim>\<open>EIO\<close> and keeps the recorded size, but the bytes are in the backing
  file; a successful retry of the same write appends the buffer after them, so the file holds
  them twice and the recorded size is short of the backing file by \<open>n\<close>.\<close>

theorem failed_write_corrupts:
  assumes "host_sound e" "lookup_inode w fh = Some i" "isize (inodes w i) = int (length (content w i))"
    "backing_path (inodes w i) \<noteq> []" "\<not> fopen_fails e1 (backing_path (inodes w i))"
    "fwrite_accepts e1 0 (length buf) = n" "fclose_keeps e1 n = n" "n < length buf" "isize (inodes w i) + int (length buf) < 2 ^ 63"
    "fused_write e1 fh buf (isize (inodes w i)) w = (r, v)"
    "fused_write e fh buf (isize (inodes w i)) v = (r', u)"
  shows "r = Inl EIO \<and> r' = Inr (to_s32 (int (length buf))) \<and>
    content u i = content w i @ take n buf @ buf \<and> isize (inodes u i) = int (length (content u i)) - int n"
proof -
  let ?p = "backing_path (inodes w i)"
  have "fopen_ab e1 ?p (files w) = Some ((files w)(?p \<mapsto> content w i))"
    using assms(4,5) by (simp add: fopen_ab_def content_def)
  then have rv: "r = Inl EIO" "v = w\<lparr>files := (files w)(?p \<mapsto> content w i @ take n buf)\<rparr>"
    using assms(6-8,10) by (auto simp: fused_write_def assms(2) Let_def fwrite_count_def fwrite_append_def fclose_ab_def)
  have lk: "lookup_inode v fh = Some i"
    unfolding assms(2) [symmetric] by (rule lookup_inode_cong) (simp_all add: rv)
  have f: "inodes v i = inodes w i" "content v i = content w i @ take n buf"
    by (simp_all add: rv(2) content_def)
  have "fused_write e fh buf (isize (inodes w i)) v = (Inr (to_s32 (int (length buf))),
      upd_inode i (\<lambda>x. x\<lparr>isize := isize (inodes w i) + int (length buf), mtime := time_at e 0, ctime := time_at e 1\<rparr>)
        (v\<lparr>files := (files v)(?p \<mapsto> content v i @ buf)\<rparr>))"
    using fused_write_sound [OF assms(1) lk, of "isize (inodes w i)" buf] f assms(3,4,9) by simp
  with assms(11) have ru: "r' = Inr (to_s32 (int (length buf)))"
    "u = upd_inode i (\<lambda>x. x\<lparr>isize := isize (inodes w i) + int (length buf), mtime := time_at e 0, ctime := time_at e 1\<rparr>)
        (v\<lparr>files := (files v)(?p \<mapsto> content v i @ buf)\<rparr>)"
    by simp_all
  have "content u i = content w i @ take n buf @ buf" using f by (simp add: ru(2) content_def)
  moreover have "isize (inodes u i) = isize (inodes w i) + int (length buf)" by (simp add: ru(2))
  ultimately show ?thesis using rv(1) ru(1) assms(3,8) by simp
qed

theorem failed_write_corrupts_witness:
  "content (snd (fused_write demo_env 3 [7, 8, 9] 3 (snd (fused_write short_env 3 [7, 8, 9] 3 demo_data)))) 2
     = [1, 2, 3, 7, 8, 7, 8, 9]"
proof -
  have l: "lookup_inode demo_data 3 = Some 2" "isize (inodes demo_data 2) = 3" "content demo_data 2 = [1, 2, 3]"
    "backing_path (inodes demo_data 2) = backing_of 2" by code_simp+
  note p = prod.collapse [symmetric, of "fused_write short_env 3 [7, 8, 9] (isize (inodes demo_data 2)) demo_data"]
    prod.collapse [symmetric, of "fused_write demo_env 3 [7, 8, 9] (isize (inodes demo_data 2))
      (snd (fused_write short_env 3 [7, 8, 9] (isize (inodes demo_data 2)) demo_data))"]
  from failed_write_corrupts [OF host_sound_demo l(1) _ _ _ _ _ _ _ p, of 2]
  show ?thesis by (simp add: l short_env_def demo_env_def del: prod.collapse)
qed

text \<open>A write whose bytes stay in the buffer is reported as successful: when every \<^verbatim>\<open>fwrite\<close> takes all its
  bytes but \<^verbatim>\<open>fclose\<close> can only write out the first \<open>n\<close> of them, the recorded size is ahead of the backing
  file by the rest.\<close>

theorem unflushed_write_succeeds:
  assumes "lookup_inode w fh = Some i" "isize (inodes w i) = int (length (content w i))"
    "backing_path (inodes w i) \<noteq> []" "\<not> fopen_fails e (backing_path (inodes w i))"
    "length buf \<le> fwrite_accepts e 0 (length buf)" "fclose_keeps e (length buf) = n" "n \<le> length buf"
    "isize (inodes w i) + int (length buf) < 2 ^ 63" "fused_write e fh buf (isize (inodes w i)) w = (r, v)"
  shows "r = Inr (to_s32 (int (length buf))) \<and> content v i = content w i @ take n buf \<and>
    isize (inodes v i) = int (length (content v i)) + int (length buf - n)"
proof -
  let ?p = "backing_path (inodes w i)"
  have "fopen_ab e ?p (files w) = Some ((files w)(?p \<mapsto> content w i))"
    using assms(3,4) by (simp add: fopen_ab_def content_def)
  then have rv: "r = Inr (to_s32 (int (length buf)))"
    "v = upd_inode i (\<lambda>x. x\<lparr>isize := isize (inodes w i) + int (length buf), mtime := time_at e 0, ctime := time_at e 1\<rparr>)
       (w\<lparr>files := (files w)(?p \<mapsto> content w i @ take n buf)\<rparr>)"
    using assms(2,5,6,8,9)
    by (auto simp: fused_write_def assms(1) Let_def fwrite_count_def fwrite_append_def fclose_ab_def min_def)
  then show ?thesis using assms(2,7) by (simp add: content_def of_nat_diff)
qed

theorem unflushed_write_succeeds_witness:
  "fst (fused_write (demo_env\<lparr>fclose_keeps := (\<lambda>_. 1)\<rparr>) 3 [7, 8, 9] 3 demo_data) = Inr 3 \<and>
   content (snd (fused_write (demo_env\<lparr>fclose_keeps := (\<lambda>_. 1)\<rparr>) 3 [7, 8, 9] 3 demo_data)) 2 = [1, 2, 3, 7]"
proof -
  have l: "lookup_inode demo_data 3 = Some 2" "isize (inodes demo_data 2) = 3" "content demo_data 2 = [1, 2, 3]"
    "backing_path (inodes demo_data 2) = backing_of 2" by code_simp+
  note p = prod.collapse [symmetric, of "fused_write (demo_env\<lparr>fclose_keeps := (\<lambda>_. 1)\<rparr>) 3 [7, 8, 9] (isize (inodes demo_data 2)) demo_data"]
  from unflushed_write_succeeds [OF l(1) _ _ _ _ _ _ _ p, of 1]
  show ?thesis by (simp add: l demo_env_def del: prod.collapse)
qed

text \<open>Rmdir does not give its inode slot back: a mkdir followed by the rmdir of the same
  directory leaves one slot of the 1024 used up for good, and once all are used up every
  create and mkdir of a new name in an existing directory fails with \<^verbatim>\<open>ENOMEM\<close>.\<close>

theorem rmdir_leaks_slots:
  assumes "fs_reachable w" "fused_mkdir e p md w = (Inr u, v)" "fused_rmdir e' p v = (Inr u', z)"
  shows "n_inodes z = Suc (n_inodes w) \<and> (n_inodes z = MAX_INODES \<longrightarrow>
    (\<forall>q d md. path_to_inode z q = None \<longrightarrow> path_to_inode z (fst (split_path q)) = Some d \<longrightarrow>
       S_ISDIR (mode (inodes z d)) \<longrightarrow>
       fused_create e q md z = (Inl ENOMEM, z) \<and> fused_mkdir e q md z = (Inl ENOMEM, z)))"
proof -
  note inv = fs_reachable_inv [OF assms(1)]
  have v: "n_inodes v = Suc (n_inodes w)" "fs_inv v"
    using fused_mkdir_cases [OF inv assms(2)] enteredD [OF inv] by (metis sum.distinct(1))+
  have "n_inodes z = n_inodes v"
    by (rule fused_rmdir_Inr [OF v(2) assms(3)])
  with v(1) show ?thesis
    by (auto simp: fused_create_def fused_mkdir_def alloc_inode_def case_prod_beta Let_def)
qed

theorem rmdir_leaks_slots_witness:
  "n_inodes (snd (fused_rmdir demo_env ''/e'' (snd (fused_mkdir demo_env ''/e'' 0x1ED demo_mount)))) = 2 \<and>
   n_inodes demo_mount = 1"
proof -
  have a: "fst (fused_mkdir demo_env ''/e'' 0x1ED demo_mount) = Inr ()" by code_simp
  have b: "fst (fused_rmdir demo_env ''/e'' (snd (fused_mkdir demo_env ''/e'' 0x1ED demo_mount))) = Inr ()" by code_simp
  have n: "n_inodes demo_mount = 1" by code_simp
  from rmdir_leaks_slots [OF demo_reachable(1) succeeds [OF a] succeeds [OF b]] n show ?thesis by simp
qed

text \<open>Renaming a directory to a path inside itself reports success and loses it: neither
  the old nor the new path resolves afterwards, and the whole subtree is unreachable.\<close>

theorem rename_into_itself_loses:
  assumes "fs_reachable w" "abs_path p" "abs_path q" "p \<noteq> q"
    "take (length (path_tokens p)) (path_tokens q) = path_tokens p" "fused_rename e p q w = (Inr u, v)"
  shows "path_to_inode w p \<noteq> None \<and> path_to_inode v p = None \<and> path_to_inode v q = None"
proof -
  have "path_to_inode w p \<noteq> None"
    using assms(4,6) by (auto simp: fused_rename_def split: option.splits)
  with rename_inside_unreachable [OF fs_reachable_inv [OF assms(1)] assms(6,2-5)] show ?thesis by simp
qed

theorem rename_into_itself_loses_witness:
  "\<exists>v. fused_rename demo_env ''/d'' ''/d/x'' demo_data = (Inr (), v) \<and> path_to_inode v ''/d/x'' = None"
proof -
  have r: "fst (fused_rename demo_env ''/d'' ''/d/x'' demo_data) = Inr ()" by code_simp
  have t: "path_tokens ''/d'' = [''d'']" "path_tokens ''/d/x'' = [''d'', ''x'']" by code_simp+
  have "path_to_inode (snd (fused_rename demo_env ''/d'' ''/d/x'' demo_data)) ''/d/x'' = None"
    using rename_into_itself_loses [OF demo_reachable(4) _ _ _ _ succeeds [OF r]]
    by (simp add: abs_path_def t)
  with succeeds [OF r] show ?thesis by blast
qed

text \<open>Handles are not protected against reuse: when the most recently created file is
  unlinked and another file is created, the new file gets the handle of the old one, so reads
  and writes through the stale handle go to the new file.\<close>

theorem stale_handle_reused:
  assumes "fs_reachable w" "abs_path p" "abs_path q" "fused_create e p md w = (Inr fh, v)"
    "fused_unlink e' p v = (Inr u, x)" "fused_create e'' q md' x = (Inr fh', z)"
  shows "fh' = fh \<and> lookup_inode z fh = path_to_inode z q"
proof -
  note inv = fs_reachable_inv [OF assms(1)]
  have v: "fs_inv v" using fused_oper_inv [OF inv, of e "Create p md"] assms(4) by simp
  have x: "fs_inv x" using fused_oper_inv [OF v, of e' "Unlink p"] assms(5) by simp
  have z: "fs_inv z" using fused_oper_inv [OF x, of e'' "Create q md'"] assms(6) by simp
  note c = fused_create_abs [OF inv assms(4,2)] and c' = fused_create_abs [OF x assms(6,3)]
  have i: "path_to_inode v p = Some (n_inodes w)" "n_inodes v = Suc (n_inodes w)"
    using fused_create_cases [OF inv assms(4)] resolve_entered [OF inv _ assms(2)] enteredD [OF inv]
    by (simp_all add: path_to_inode_resolve [OF fs_inv_base [OF v]]) (metis fun_upd_same sum.distinct(1))+
  obtain i where "path_to_inode v p = Some i" "n_inodes x = (if i = n_inodes v - 1 then n_inodes v - 1 else n_inodes v)"
    by (rule fused_unlink_Inr [OF v assms(5)])
  with i have "n_inodes x = n_inodes w" by simp
  with c c' have "fh' = fh" by metis
  with c' show ?thesis unfolding path_to_inode_resolve [OF fs_inv_base [OF z]] by blast
qed

theorem stale_handle_reused_witness:
  "\<exists>x. fused_unlink demo_env ''/f'' demo_file = (Inr (), x) \<and> fst (fused_create demo_env ''/f'' 0x1A4 demo_dir) = Inr 3 \<and>
     fst (fused_create demo_env ''/g'' 0x1A4 x) = Inr 3"
proof -
  have a: "fst (fused_create demo_env ''/f'' 0x1A4 demo_dir) = Inr 3" by code_simp
  have f: "demo_file = snd (fused_create demo_env ''/f'' 0x1A4 demo_dir)" by (simp add: demo_file_def case_prod_beta)
  have b: "fst (fused_unlink demo_env ''/f'' (snd (fused_create demo_env ''/f'' 0x1A4 demo_dir))) = Inr ()" by code_simp
  let ?x = "snd (fused_unlink demo_env ''/f'' (snd (fused_create demo_env ''/f'' 0x1A4 demo_dir)))"
  have c: "isl (fst (fused_create demo_env ''/g'' 0x1A4 ?x)) = False" by code_simp
  then obtain fh' where c': "fst (fused_create demo_env ''/g'' 0x1A4 ?x) = Inr fh'"
    by (cases "fst (fused_create demo_env ''/g'' 0x1A4 ?x)") simp_all
  have "fh' = 3"
    using stale_handle_reused [OF demo_reachable(2) _ _ succeeds [OF a] succeeds [OF b] succeeds [OF c']]
    by (simp add: abs_path_def)
  with a b c' f show ?thesis by (metis succeeds)
qed

end
