(* ===== verification/Fused_Outcome.thy ===== *)
theory Fused_Outcome
  imports Fused_Props
begin

text \<open>
  When creating succeeds: the exact outcome of \<^verbatim>\<open>fused_create\<close> and \<^verbatim>\<open>fused_mkdir\<close>, with the error of each
  refusal, in terms of the abstract file system and the number of inode slots in use.
\<close>

section \<open>The verdict\<close>

definition afs_children :: "afs \<Rightarrow> string list \<Rightarrow> string set" where
  "afs_children A ts = {n. A (ts @ [n]) \<noteq> None}"

definition creation_verdict :: "nat \<Rightarrow> afs \<Rightarrow> string \<Rightarrow> errno option" where
  "creation_verdict slots A p =
     (let parent = path_tokens (fst (split_path p)) in
      if A (path_tokens p) \<noteq> None then Some EEXIST
      else if A parent \<noteq> Some ADir then Some ENOENT
      else if slots \<ge> MAX_INODES then Some ENOMEM
      else if card (afs_children A parent) \<ge> MAX_CHILDREN then Some ENOSPC
      else None)"

definition failure :: "'a res \<Rightarrow> errno option" where
  "failure r = (case r of Inl err \<Rightarrow> Some err | Inr _ \<Rightarrow> None)"

lemma failure_simps [simp]: "failure (Inl err) = Some err" "failure (Inr x) = None"
  by (simp_all add: failure_def)

lemma failure_None_iff: "failure r = None \<longleftrightarrow> (\<exists>x. r = Inr x)"
  by (cases r) simp_all

lemma afs_children_entries:
  assumes "fs_base w" "resolve w ts = Some i"
  shows "afs_children (fs_abs w) ts = set (map fst (entries (inodes w i)))" "distinct (map fst (entries (inodes w i)))"
  using resolve_children [OF assms] fs_baseD(7) [OF assms(1) resolve_live(1) [OF assms]]
  by (auto simp: afs_children_def slot_ok_def)

lemma afs_children_card:
  assumes "fs_base w" "resolve w ts = Some i"
  shows "card (afs_children (fs_abs w) ts) = n_children (inodes w i)"
  by (metis afs_children_entries [OF assms] distinct_card length_entries length_map)

lemma fs_abs_dir: "fs_abs w ts = Some ADir \<longleftrightarrow> (\<exists>i. resolve w ts = Some i \<and> S_ISDIR (mode (inodes w i)))"
  by (auto simp: fs_abs_def node_at_def)

lemma new_name_free:
  assumes "fs_base w" "abs_path p" "path_to_inode w p = None" "path_to_inode w (fst (split_path p)) = Some d"
  shows "find_child (inodes w d) (snd (split_path p)) = None"
proof -
  obtain pp nm where sp: "split_path p = (pp, nm)" by fastforce
  have r: "resolve w (path_tokens p) = None" "resolve w (path_tokens pp) = Some d"
    using assms(3,4) sp by (simp_all add: path_to_inode_resolve [OF assms(1)])
  with abs_path_split [OF assms(2) sp] have "path_tokens p = path_tokens pp @ [nm]" by (auto split: if_splits)
  with r have "fs_abs w (path_tokens pp @ [nm]) = None" by (simp add: fs_abs_def)
  with resolve_children [OF assms(1) r(2), of nm] sp show ?thesis by (simp add: find_child_None_iff)
qed

section \<open>The outcome\<close>

lemma dir_add_entry_failure:
  assumes "S_ISDIR (mode (inodes w d))" "find_child (inodes w d) nm = None"
  shows "failure (fst (dir_add_entry t (Some d) nm c w)) =
    (if n_children (inodes w d) \<ge> MAX_CHILDREN then Some ENOSPC else None)"
  using assms by (simp add: dir_add_entry_def)

lemma entering_failure:
  assumes "fs_inv w" "abs_path p" "path_to_inode w p = None" "path_to_inode w (fst (split_path p)) = Some d"
    "S_ISDIR (mode (inodes w d))" "n_inodes w < MAX_INODES"
  shows "failure (fst (dir_add_entry t (Some d) (snd (split_path p)) (n_inodes w) ((with_fresh e m sz w)\<lparr>files := fs\<rparr>))) =
    creation_verdict (n_inodes w) (fs_abs w) p"
proof -
  note base = fs_inv_base [OF assms(1)]
  have r: "resolve w (path_tokens p) = None" "resolve w (path_tokens (fst (split_path p))) = Some d"
    using assms(3,4) by (simp_all add: path_to_inode_resolve [OF base])
  have "inodes ((with_fresh e m sz w)\<lparr>files := fs\<rparr>) d = inodes w d"
    using resolve_live(1) [OF base r(2)] by simp
  with dir_add_entry_failure [of "(with_fresh e m sz w)\<lparr>files := fs\<rparr>" d "snd (split_path p)" t "n_inodes w"]
  show ?thesis
    using assms(5,6) new_name_free [OF base assms(2-4)] r fs_abs_dir [of w "path_tokens (fst (split_path p))"]
    by (simp add: creation_verdict_def Let_def afs_children_card [OF base r(2)] fs_abs_def)
qed

lemma refused_verdict:
  assumes "fs_inv w" "\<not> (path_to_inode w p = None \<and> n_inodes w < MAX_INODES \<and>
    (\<exists>d. path_to_inode w (fst (split_path p)) = Some d \<and> S_ISDIR (mode (inodes w d))))"
  shows "failure (fst (fused_create e p md w)) = creation_verdict (n_inodes w) (fs_abs w) p"
    "failure (fst (fused_mkdir e p md w)) = creation_verdict (n_inodes w) (fs_abs w) p"
  using assms(2) fs_abs_dir [of w "path_tokens (fst (split_path p))"]
  by (auto simp: fused_create_def fused_mkdir_def alloc_inode_def Let_def case_prod_beta creation_verdict_def
      fs_abs_def path_to_inode_resolve [OF fs_inv_base [OF assms(1)]] split: option.splits)

lemma creation_failure:
  assumes "fs_inv w" "abs_path p"
  shows "\<not> fopen_fails e (backing_of (n_inodes w)) \<Longrightarrow>
      failure (fst (fused_create e p md w)) = creation_verdict (n_inodes w) (fs_abs w) p"
    and "failure (fst (fused_mkdir e p md w)) = creation_verdict (n_inodes w) (fs_abs w) p"
proof -
  let ?free = "path_to_inode w p = None \<and> n_inodes w < MAX_INODES \<and>
    (\<exists>d. path_to_inode w (fst (split_path p)) = Some d \<and> S_ISDIR (mode (inodes w d)))"
  have kept: "failure (fst (case x of (Inl err, w3) \<Rightarrow> (Inl err, g w3) | (Inr u, w3) \<Rightarrow> (Inr (h w3), w3))) = failure (fst x)"
    for x :: "unit res \<times> fused_world" and g and h :: "fused_world \<Rightarrow> 'c"
    by (auto split: prod.split sum.split)
  have same: "(with_fresh e m sz w)\<lparr>files := files w\<rparr> = with_fresh e m sz w" for m sz
    by (simp add: with_fresh_def upd_inode_def)
  show "failure (fst (fused_create e p md w)) = creation_verdict (n_inodes w) (fs_abs w) p"
    if "\<not> fopen_fails e (backing_of (n_inodes w))"
  proof (cases ?free)
    case True
    then obtain d where d: "path_to_inode w p = None" "n_inodes w < MAX_INODES"
      "path_to_inode w (fst (split_path p)) = Some d" "S_ISDIR (mode (inodes w d))" by blast
    from that have "fopen_wb e (backing_of (n_inodes w)) (files w) = Some ((files w)(backing_of (n_inodes w) \<mapsto> []))"
      by (simp add: fopen_wb_def)
    then show ?thesis
      by (simp add: fused_create_entering [OF assms(1) d] Let_def kept entering_failure [OF assms d(1,3,4,2)])
  qed (rule refused_verdict(1) [OF assms(1)])
  show "failure (fst (fused_mkdir e p md w)) = creation_verdict (n_inodes w) (fs_abs w) p"
  proof (cases ?free)
    case True
    then obtain d where d: "path_to_inode w p = None" "n_inodes w < MAX_INODES"
      "path_to_inode w (fst (split_path p)) = Some d" "S_ISDIR (mode (inodes w d))" by blast
    from entering_failure [OF assms d(1,3,4,2), where fs = "files w" and e = e] show ?thesis
      by (simp add: fused_mkdir_entering [OF assms(1) d] kept same)
  qed (rule refused_verdict(2) [OF assms(1)])
qed

section \<open>Property\<close>

text \<open>C28: in every reachable state and for every absolute path, creating a file or a directory fails
  with EEXIST exactly if something is at the path, otherwise with ENOENT if the parent is not a directory,
  otherwise with ENOMEM if every inode slot has been handed out, otherwise with ENOSPC if the parent has as
  many children as fit, and succeeds in all other cases (a file provided its backing file can be opened).\<close>

theorem creation_outcome:
  assumes "fs_reachable w" "abs_path p" "\<forall>q. \<not> fopen_fails e q"
  shows "failure (fst (fused_create e p md w)) = creation_verdict (n_inodes w) (fs_abs w) p \<and>
    failure (fst (fused_mkdir e p md w)) = creation_verdict (n_inodes w) (fs_abs w) p"
  using creation_failure [OF fs_reachable_inv [OF assms(1)] assms(2)] assms(3) by blast

theorem creation_outcome_witness:
  "failure (fst (fused_create demo_env ''/d/g'' 0x1A4 demo_data)) = creation_verdict 3 (fs_abs demo_data) ''/d/g'' \<and>
   failure (fst (fused_create demo_env ''/d/g'' 0x1A4 demo_data)) = None \<and>
   failure (fst (fused_mkdir demo_env ''/f/g'' 0x1ED demo_data)) = creation_verdict 3 (fs_abs demo_data) ''/f/g'' \<and>
   creation_verdict 3 (fs_abs demo_data) ''/f/g'' = Some ENOENT"
proof -
  have e: "\<forall>q. \<not> fopen_fails demo_env q" using host_sound_demo by (simp add: host_sound_def)
  have n: "n_inodes demo_data = 3" by code_simp
  have "failure (fst (fused_create demo_env ''/d/g'' 0x1A4 demo_data)) = None" by code_simp
  moreover have "failure (fst (fused_mkdir demo_env ''/f/g'' 0x1ED demo_data)) = Some ENOENT" by code_simp
  ultimately show ?thesis
    using creation_outcome [OF demo_reachable(4) _ e, of "''/d/g''" "0x1A4"]
      creation_outcome [OF demo_reachable(4) _ e, of "''/f/g''" "0x1ED"]
    by (simp add: n abs_path_def)
qed

end
