(* ===== verification/Grpc_Props.thy ===== *)
theory Grpc_Props
  imports Grpc_Client Rpc_Props Fused_Outcome
begin

text \<open>
  A listing of the RPC server shows exactly the children of a directory, and the script of the
  demonstration client does on a storage node what its headings say: it creates a file and a directory,
  writes the text, reads it back and lists the names.
\<close>

section \<open>Listings of the RPC server\<close>

lemma listed_child:
  assumes "fs_inv w" "data_ok w" "resolve w ts = Some d" "i < n_children (inodes w d)"
  obtains c where "lookup_inode w (child_inodes (inodes w d) i) = Some c"
    "fs_abs w (ts @ [child_names (inodes w d) i]) = Some (node_at w c)"
    "S_ISDIR (mode (inodes w c)) \<or> isize (inodes w c) = int (length (content w c))"
proof -
  note base = fs_inv_base [OF assms(1)] and il = resolve_live(1) [OF fs_inv_base [OF assms(1)] assms(3)]
  let ?n = "child_names (inodes w d) i"
  have "(?n, child_inodes (inodes w d) i) \<in> set (entries (inodes w d))"
    using assms(4) by (auto simp: set_entries)
  from entry_edge [OF base il this] obtain c where
    c: "c < n_inodes w" "child_inodes (inodes w d) i = slot_ino c" "(d, ?n, c) \<in> edges w" by blast
  have r: "resolve w (ts @ [?n]) = Some c"
    using assms(3) c(3) unfolding resolve_rel [OF base] path_rel_snoc by blast
  have "lookup_inode w (slot_ino c) = Some c"
    using resolve_slot [OF base r] by (intro lookup_inode_slot [OF base]) simp_all
  moreover have "S_ISDIR (mode (inodes w c)) \<or> isize (inodes w c) = int (length (content w c))"
    using assms(2) resolve_live [OF base r] by (auto simp: data_ok_def)
  ultimately show ?thesis using c(2) r by (intro that) (simp_all add: fs_abs_def)
qed

definition shows_node :: "afs \<Rightarrow> string list \<Rightarrow> file_entry \<Rightarrow> bool" where
  "shows_node A ts x =
     (case A (ts @ [e_name x]) of
        None \<Rightarrow> False
      | Some ADir \<Rightarrow> e_is_directory x
      | Some (AFile b) \<Rightarrow> \<not> e_is_directory x \<and> e_size x = int (length b))"

lemma ReadDirectory_children:
  assumes "sound_run w" "fs_abs w (path_tokens (c_str (rpc_normalize_path p))) = Some ADir"
  shows "\<exists>d es. resolve w (path_tokens (c_str (rpc_normalize_path p))) = Some d \<and> rpc_ReadDirectory p w = (0, es) \<and>
    map e_name es = map fst (entries (inodes w d)) \<and>
    list_all (shows_node (fs_abs w) (path_tokens (c_str (rpc_normalize_path p)))) es"
proof -
  let ?ts = "path_tokens (c_str (rpc_normalize_path p))"
  have w: "fs_inv w" "data_ok w" using sound_run_ok [OF assms(1)] by simp_all
  from assms(2) obtain d where d: "resolve w ?ts = Some d" "S_ISDIR (mode (inodes w d))" by (auto simp: fs_abs_dir)
  let ?at = "\<lambda>i. the (lookup_inode w (child_inodes (inodes w d) i))"
  let ?e = "\<lambda>i. \<lparr>e_name = child_names (inodes w d) i, e_is_directory = S_ISDIR (mode (inodes w (?at i))),
      e_size = isize (inodes w (?at i)), e_mtime = mtime (inodes w (?at i))\<rparr>"
  have one: "lookup_inode w (child_inodes (inodes w d) i) = Some (?at i) \<and> shows_node (fs_abs w) ?ts (?e i)"
    if i: "i < n_children (inodes w d)" for i
  proof -
    obtain c where "lookup_inode w (child_inodes (inodes w d) i) = Some c"
      "fs_abs w (?ts @ [child_names (inodes w d) i]) = Some (node_at w c)"
      "S_ISDIR (mode (inodes w c)) \<or> isize (inodes w c) = int (length (content w c))"
      using listed_child [OF w d(1) i] by blast
    then show ?thesis by (auto simp: shows_node_def node_at_def)
  qed
  let ?f = "\<lambda>i. case lookup_inode w (child_inodes (inodes w d) i) of None \<Rightarrow> [] | Some c \<Rightarrow>
      [\<lparr>e_name = child_names (inodes w d) i, e_is_directory = S_ISDIR (mode (inodes w c)), e_size = isize (inodes w c),
        e_mtime = mtime (inodes w c)\<rparr>]"
  have "?f i = [?e i]" if "i < n_children (inodes w d)" for i
    using one [OF that] by (cases "lookup_inode w (child_inodes (inodes w d) i)") simp_all
  from concat_map_singletons [OF this] have "rpc_ReadDirectory p w = (0, map ?e [0..<n_children (inodes w d)])"
    using d unfolding rpc_ReadDirectory_def path_resolve [OF assms(1)] by simp
  moreover have "map e_name (map ?e [0..<n_children (inodes w d)]) = map fst (entries (inodes w d))"
    by (simp add: map_fst_entries arr_take_def o_def)
  ultimately show ?thesis using d(1) one by (intro exI conjI) (assumption | simp add: list_all_iff)+
qed

section \<open>Requests that succeed\<close>

lemma rpc_Create_new:
  assumes "sound_run w" "\<And>k. host_sound (e k)" "full = c_str (rpc_full_path (rpc_normalize_path p) n)" "abs_path full"
    "creation_verdict (n_inodes w) (fs_abs w) full = None"
  shows "\<exists>v. rpc_Create e p n md w = (0, v) \<and> sound_run v \<and> fs_abs v = (fs_abs w)(path_tokens full \<mapsto> AFile []) \<and>
    n_inodes v = Suc (n_inodes w)"
proof -
  note inv = sound_run_ok [OF assms(1), THEN conjunct1]
  obtain r v where c: "fused_create (e 0) full md w = (r, v)" by fastforce
  have "failure r = None"
    using creation_failure(1) [OF inv assms(4), of "e 0" md] assms(2) [of 0] assms(5) c by (simp add: host_sound_def)
  then obtain fh where r: "r = Inr fh" by (auto simp: failure_None_iff)
  have "n_inodes v = Suc (n_inodes w)"
    using inv c by (cases rule: fused_create_cases) (auto simp: r elim: enteredD [OF inv])
  moreover have "sound_run v"
    using sound.closed_create [OF assms(1), of "e 0" full md] assms(2) c by (simp add: op_in_bounds_def)
  ultimately show ?thesis
    using fused_create_abs [OF inv c [unfolded r] assms(4)] c r
    by (simp add: rpc_Create_def res_status_def flip: assms(3))
qed

lemma rpc_Mkdir_new:
  assumes "sound_run w" "\<And>k. host_sound (e k)" "full = c_str (rpc_full_path (rpc_normalize_path p) n)" "abs_path full"
    "creation_verdict (n_inodes w) (fs_abs w) full = None"
  shows "\<exists>v. rpc_Mkdir e p n md w = (0, v) \<and> sound_run v \<and> fs_abs v = (fs_abs w)(path_tokens full \<mapsto> ADir) \<and>
    n_inodes v = Suc (n_inodes w)"
proof -
  note inv = sound_run_ok [OF assms(1), THEN conjunct1]
  obtain r v where c: "fused_mkdir (e 0) full md w = (r, v)" by fastforce
  have "failure r = None"
    using creation_failure(2) [OF inv assms(4), of "e 0" md] assms(5) c by simp
  then obtain u where r: "r = Inr u" by (auto simp: failure_None_iff)
  have "n_inodes v = Suc (n_inodes w)"
    using inv c by (cases rule: fused_mkdir_cases) (auto simp: r elim: enteredD [OF inv])
  moreover have "sound_run v"
    using sound.closed_mkdir [OF assms(1), of "e 0" full md] assms(2) c by (simp add: op_in_bounds_def)
  ultimately show ?thesis
    using fused_mkdir_abs [OF inv c [unfolded r] assms(4)] c r
    by (simp add: rpc_Mkdir_def res_status_def flip: assms(3))
qed

lemma rpc_Write_accepted:
  assumes "sound_run w" "\<And>k. host_sound (e k)" "path = c_str (rpc_normalize_path p)"
    "fs_abs w (path_tokens path) = Some (AFile old)" "int (length old) \<le> off" "off + int (length d) < 2 ^ 63" "length d < 2 ^ 31"
  shows "w_status (fst (rpc_Write e p d off w)) = 0"
proof -
  note ok = sound_run_ok [OF assms(1)]
  note base = fs_inv_base [OF conjunct1 [OF ok]]
  from assms(4) obtain i where i: "resolve w (path_tokens path) = Some i" "\<not> S_ISDIR (mode (inodes w i))" "content w i = old"
    by (auto simp: fs_abs_def node_at_def split: if_splits)
  note l = resolve_lookup [OF base i(1)]
  have sz: "isize (inodes w i) = int (length old)" using ok i(2,3) l(2,3) by (simp add: data_ok_def)
  have "fst (fused_write (e 1) (ino (inodes w i)) d off w) = Inr (int (length d))"
    using fused_write_sound [OF assms(2) l(1) _ _ _ assms(6)] assms(5,7) sz file_backing [OF base l(2,3) i(2)] by simp
  then show ?thesis
    by (auto simp: rpc_Write_def path_resolve [OF assms(1)] i(1) rpc_write_inode_def simp flip: assms(3) split: prod.splits sum.splits)
qed

lemma rpc_Get_view:
  assumes "sound_run w" "\<And>k. host_sound (e k)" "rpc_Get e al p off n w = Some (r, v)"
  shows "sound_run v" "fs_abs v = fs_abs w"
proof -
  show "sound_run v"
    using sound_serve [OF assms(1), of e "RpcGet p off n" al] assms(2,3) by (simp add: request_in_bounds_def)
  note base = fs_inv_base [OF conjunct1 [OF sound_run_ok [OF assms(1)]]]
  have "v = w \<or> (\<exists>fh m. v = snd (fused_read (e 0) fh m off w))"
    using assms(3) by (auto simp: rpc_Get_def Let_def split: option.splits if_splits prod.splits sum.splits) (metis snd_conv)+
  moreover have "fs_abs (snd (fused_read (e 0) fh m off w)) = fs_abs w" for fh m
  proof -
    let ?v = "snd (fused_read (e 0) fh m off w)"
    have "node_at ?v i = node_at w i" for i
      by (auto simp: fused_read_def Let_def node_at_def content_def split: option.splits)
    then show ?thesis
      using same_table_resolve [OF base fused_read_table] by (auto simp: fs_abs_def map_option_case split: option.splits)
  qed
  ultimately show "fs_abs v = fs_abs w" by auto
qed

section \<open>The script\<close>

text \<open>What the script prints when every call does what it should; \<open>names\<close> are the names listed.\<close>

definition demo_output :: "string list \<Rightarrow> string" where
  "demo_output names =
     endl ''-------------- Creating file --------------'' @ endl [] @
     endl ''-------------- Creating directory --------------'' @ endl [] @
     endl ''-------------- Writing to a file --------------'' @ endl ''Number of bytes written: 40'' @ endl [] @
     endl ''-------------- Reading a file --------------'' @ endl (''The following was read: '' @ demo_text) @ endl [] @
     endl ''-------------- Listing directory --------------'' @ endl (''Found '' @ dec_str (length names) @ '' items.'') @
     concat (map (\<lambda>n. endl (''Filename: '' @ n)) names) @ endl []"

lemma demo_paths:
  "c_str (rpc_full_path (rpc_normalize_path ''/mnt/fused'') ''test.txt'') = ''/test.txt''"
  "c_str (rpc_full_path (rpc_normalize_path ''/mnt/fused'') ''testdir'') = ''/testdir''"
  "c_str (rpc_normalize_path ''/mnt/fused/test.txt'') = ''/test.txt''" "c_str (rpc_normalize_path ''/mnt/fused'') = ''/''"
  "path_tokens ''/test.txt'' = [''test.txt'']" "path_tokens ''/testdir'' = [''testdir'']"
  "fst (split_path ''/test.txt'') = ''/''" "fst (split_path ''/testdir'') = ''/''"
  "abs_path ''/test.txt''" "abs_path ''/testdir''"
  by code_simp+

lemma path_found: "sound_run w \<Longrightarrow> path_to_inode w p \<noteq> None \<longleftrightarrow> fs_abs w (path_tokens p) \<noteq> None"
  by (simp add: path_resolve fs_abs_def)

lemma root_is_dir: "sound_run w \<Longrightarrow> fs_abs w [] = Some ADir"
  using sound_run_ok [of w] by (auto simp: fs_abs_def node_at_def fs_inv_def fs_base_def)

lemma root_children_finite: "sound_run w \<Longrightarrow> finite (afs_children (fs_abs w) [])"
  using sound_run_ok [of w] resolve_children [of w "[]" 0] by (auto simp: afs_children_def fs_inv_def)

lemma afs_children_root_upd: "afs_children (A([n] \<mapsto> x)) [] = insert n (afs_children A [])"
  by (auto simp: afs_children_def)

lemma verdict_in_root:
  assumes "fs_abs w [] = Some ADir" "fst (split_path p) = ''/''" "fs_abs w (path_tokens p) = None" "n_inodes w < MAX_INODES"
    "card (afs_children (fs_abs w) []) < MAX_CHILDREN"
  shows "creation_verdict (n_inodes w) (fs_abs w) p = None"
  using assms by (simp add: creation_verdict_def)

lemma endl_app: "endl (xs @ ys) = xs @ endl ys"
  by (simp add: endl_def)

lemma demo_created:
  assumes "sound_run w" "\<And>j k. host_sound (e j k)" "fs_abs w [''test.txt''] = None" "fs_abs w [''testdir''] = None"
    "n_inodes w + 2 \<le> MAX_INODES" "card (afs_children (fs_abs w) []) + 2 \<le> MAX_CHILDREN"
  shows "\<exists>w1 w2. rpc_Create (e k) ''/mnt/fused'' ''test.txt'' md w = (0, w1) \<and>
    rpc_Mkdir (e (Suc k)) ''/mnt/fused'' ''testdir'' md' w1 = (0, w2) \<and> sound_run w2 \<and>
    fs_abs w2 = (fs_abs w)([''test.txt''] \<mapsto> AFile [], [''testdir''] \<mapsto> ADir)"
proof -
  have "creation_verdict (n_inodes w) (fs_abs w) ''/test.txt'' = None"
    using assms(3,5,6) root_is_dir [OF assms(1)] by (intro verdict_in_root) (simp_all add: demo_paths)
  from rpc_Create_new [where e = "e k" and md = md, OF assms(1,2) demo_paths(1) [symmetric] demo_paths(9) this]
  obtain w1 where w1: "rpc_Create (e k) ''/mnt/fused'' ''test.txt'' md w = (0, w1)" "sound_run w1"
    "fs_abs w1 = (fs_abs w)([''test.txt''] \<mapsto> AFile [])" "n_inodes w1 = Suc (n_inodes w)"
    unfolding demo_paths by blast
  have "card (afs_children (fs_abs w1) []) < MAX_CHILDREN"
    unfolding w1(3) afs_children_root_upd using assms(6) card_insert_le_m1 [of "MAX_CHILDREN - 1"]
      card_insert_if [OF root_children_finite [OF assms(1)], of "''test.txt''"] by (simp split: if_splits)
  then have "creation_verdict (n_inodes w1) (fs_abs w1) ''/testdir'' = None"
    using assms(4,5) root_is_dir [OF w1(2)] w1(4) by (intro verdict_in_root) (simp_all add: demo_paths w1(3))
  from rpc_Mkdir_new [where e = "e (Suc k)" and md = md', OF w1(2) assms(2) demo_paths(2) [symmetric] demo_paths(10) this] w1
  show ?thesis unfolding demo_paths by auto
qed

lemma demo_length: "length (str_bytes demo_text) = 40"
  by (simp add: str_bytes_def demo_text_def)

lemma demo_written:
  assumes "sound_run w" "\<And>j k. host_sound (e j k)" "fs_abs w [''test.txt''] = Some (AFile [])" "al 250"
  shows "\<exists>v u. rpc_Write (e k) ''/mnt/fused/test.txt'' (str_bytes demo_text) 0 w = (\<lparr>w_status = 0, w_bytes = 40\<rparr>, v) \<and>
    rpc_Get (e (Suc k)) al ''/mnt/fused/test.txt'' 0 250 v =
      Some (\<lparr>g_status = 0, g_data = str_bytes demo_text, g_bytes = 40\<rparr>, u) \<and>
    sound_run u \<and> fs_abs u = (fs_abs w)([''test.txt''] \<mapsto> AFile (str_bytes demo_text))"
proof -
  let ?p = "''/mnt/fused/test.txt''" and ?d = "str_bytes demo_text"
  obtain r v where wr: "rpc_Write (e k) ?p ?d 0 w = (r, v)" by fastforce
  have st: "w_status r = 0"
    using rpc_Write_accepted [where e = "e k" and old = "[]" and p = ?p and off = 0 and d = ?d, OF assms(1,2) refl] assms(3) wr by (simp add: demo_paths demo_length)
  have v: "fs_abs v = (fs_abs w)([''test.txt''] \<mapsto> AFile ?d)" "w_bytes r = 40"
    using rpc_Write_abs [OF assms(1,2) refl _ _ _ _ wr st] assms(3)
    by (simp_all add: demo_paths demo_length afs_write_def afs_bytes_def)
  have s: "sound_run v" using rpc_Write_sound [OF assms(1,2) _ wr] by (simp add: demo_length)
  obtain u where g: "rpc_Get (e (Suc k)) al ?p 0 250 v = Some (\<lparr>g_status = 0, g_data = ?d, g_bytes = 40\<rparr>, u)"
    using rpc_Get_abs [where e = "e (Suc k)" and p = ?p and b = ?d and al = al and n = 250 and off = 0, OF s assms(2) refl] assms(4) by (auto simp: demo_paths demo_length v(1))
  from rpc_Get_view [OF s assms(2) g] v st wr g show ?thesis by (metis (full_types) old.unit.exhaust write_reply.surjective)
qed

section \<open>Properties\<close>

text \<open>C17: on a storage node with room (for two inodes, two entries in the root and the read buffer) whose
  host does not fail and has not failed before, and where neither name is taken, with all five RPCs
  delivered, the script of the demonstration client creates the file and the directory, writes the
  text, prints exactly that text when it reads the file, and lists every child of the root exactly
  once; nothing else changes. (A second run finds the names taken and fails.)\<close>

theorem demo_script:
  assumes "sound_run w" "\<forall>j k. host_sound (e j k)" "al 250" "fs_abs w [''test.txt''] = None" "fs_abs w [''testdir''] = None"
    "n_inodes w + 2 \<le> MAX_INODES" "card (afs_children (fs_abs w) []) + 2 \<le> MAX_CHILDREN"
  shows "\<exists>v names. grpc_main (storage_service strerror e al) (w, k) = (0, demo_output names, v, k + 5) \<and>
    fs_abs v = (fs_abs w)([''test.txt''] \<mapsto> AFile (str_bytes demo_text), [''testdir''] \<mapsto> ADir) \<and>
    distinct names \<and> set names = afs_children (fs_abs v) []"
proof -
  have hs: "\<And>j k. host_sound (e j k)" using assms(2) by blast
  obtain w1 w2 where c: "rpc_Create (e k) ''/mnt/fused'' ''test.txt'' 755 w = (0, w1)"
    "rpc_Mkdir (e (Suc k)) ''/mnt/fused'' ''testdir'' 755 w1 = (0, w2)" "sound_run w2"
    "fs_abs w2 = (fs_abs w)([''test.txt''] \<mapsto> AFile [], [''testdir''] \<mapsto> ADir)"
    using demo_created [where e = e, OF assms(1) hs assms(4-7)] by blast
  obtain v u where d: "rpc_Write (e (Suc (Suc k))) ''/mnt/fused/test.txt'' (str_bytes demo_text) 0 w2 = (\<lparr>w_status = 0, w_bytes = 40\<rparr>, v)"
    "rpc_Get (e (Suc (Suc (Suc k)))) al ''/mnt/fused/test.txt'' 0 250 v =
      Some (\<lparr>g_status = 0, g_data = str_bytes demo_text, g_bytes = 40\<rparr>, u)"
    "sound_run u" "fs_abs u = (fs_abs w2)([''test.txt''] \<mapsto> AFile (str_bytes demo_text))"
    using demo_written [where e = e and al = al and k = "Suc (Suc k)", OF c(3) hs] assms(3) c(4) by auto
  obtain es where es: "rpc_ReadDirectory ''/mnt/fused'' u = (0, es)" "map e_name es = map fst (entries (inodes u 0))"
    using ReadDirectory_children [OF d(3), of "''/mnt/fused''"] root_is_dir [OF d(3)] by (auto simp: demo_paths)
  have "sound_run v" using rpc_Write_sound [OF c(3) hs _ d(1)] by (simp add: demo_length)
  moreover have "fs_abs v = fs_abs u" using rpc_Get_view(2) [OF _ hs d(2)] calculation by simp
  ultimately have found: "path_to_inode w2 ''/test.txt'' \<noteq> None" "path_to_inode v ''/test.txt'' \<noteq> None"
    using path_found [OF c(3), of "''/test.txt''"] path_found [of v "''/test.txt''"] c(4) d(4) by (simp_all add: demo_paths)
  have dir: "rpc_ReadDirectory_text ''/mnt/fused'' u = []"
    using root_is_dir [OF d(3)] by (auto simp: rpc_ReadDirectory_text_def demo_paths path_resolve [OF d(3)] fs_abs_dir)
  have num: "int_str 40 = ''40''" "int_str (int (length es)) = dec_str (length es)" by code_simp (simp add: int_str_def)
  have "grpc_main (storage_service strerror e al) (w, k) = (0, demo_output (map e_name es), u, k + 5)"
    using found by (auto simp: grpc_main_def grpc_step_def storage_service_def grpc_Create_def grpc_Mkdir_def grpc_Write_def
        grpc_Get_def grpc_ReadDirectory_def c d es(1) dir demo_output_def rpc_error_text_def rpc_Write_text_def rpc_Get_text_def
        demo_paths call_ok_def str_bytes_chars num Let_def o_def)
  moreover have "fs_abs u = (fs_abs w)([''test.txt''] \<mapsto> AFile (str_bytes demo_text), [''testdir''] \<mapsto> ADir)"
    unfolding d(4) c(4) by auto
  moreover have "distinct (map e_name es) \<and> set (map e_name es) = afs_children (fs_abs u) []"
    using afs_children_entries [of u "[]" 0] sound_run_ok [OF d(3)] unfolding es(2) by auto
  ultimately show ?thesis by blast
qed

theorem demo_script_witness:
  "\<exists>v names. grpc_main (storage_service (\<lambda>_. ''error'') (\<lambda>_ _. demo_host) (\<lambda>_. True)) (demo_server, 0) = (0, demo_output names, v, 5) \<and>
     fs_abs v [''test.txt''] = Some (AFile (str_bytes demo_text)) \<and> ''testdir'' \<in> set names"
proof -
  have "card (afs_children (fs_abs demo_server) []) = n_children (inodes demo_server 0)"
    using sound_run_ok [OF demo_server_sound(2)] by (intro afs_children_card) auto
  also have "n_children (inodes demo_server 0) = 0" by code_simp
  finally have c: "card (afs_children (fs_abs demo_server) []) = 0" .
  have free: "fs_abs demo_server [''test.txt''] = None" "fs_abs demo_server [''testdir''] = None" "n_inodes demo_server = 1"
    by code_simp+
  from demo_script [of demo_server "\<lambda>_ _. demo_host" "\<lambda>_. True", where strerror = "\<lambda>_. ''error''" and k = 0]
  obtain v names where "grpc_main (storage_service (\<lambda>_. ''error'') (\<lambda>_ _. demo_host) (\<lambda>_. True)) (demo_server, 0) = (0, demo_output names, v, 5)"
    "fs_abs v = (fs_abs demo_server)([''test.txt''] \<mapsto> AFile (str_bytes demo_text), [''testdir''] \<mapsto> ADir)"
    "set names = afs_children (fs_abs v) []" by (auto simp: c free)
  then show ?thesis by (intro exI conjI) (assumption | simp add: afs_children_def)+
qed

text \<open>A listing of the RPC server shows each child of a directory exactly once, with its kind and, for
  a file, its true length.\<close>

theorem rpc_listing_exact:
  assumes "sound_run w" "ts = path_tokens (c_str (rpc_normalize_path p))" "fs_abs w ts = Some ADir"
  shows "\<exists>es. rpc_ReadDirectory p w = (0, es) \<and> distinct (map e_name es) \<and> set (map e_name es) = afs_children (fs_abs w) ts \<and>
    list_all (shows_node (fs_abs w) ts) es"
proof -
  obtain d es where "resolve w ts = Some d" "rpc_ReadDirectory p w = (0, es)" "map e_name es = map fst (entries (inodes w d))"
    "list_all (shows_node (fs_abs w) ts) es"
    using ReadDirectory_children [OF assms(1), of p] assms(2,3) by auto
  moreover from this(3) have "e_name ` set es = fst ` set (entries (inodes w d))" by (metis list.set_map)
  ultimately show ?thesis
    using afs_children_entries [of w ts d] fs_inv_base [OF conjunct1 [OF sound_run_ok [OF assms(1)]]] by simp
qed

end
