(* ===== verification/Crc32.thy ===== *)
theory Crc32
  imports Fused_Prelude
begin

text \<open>
  \<^verbatim>\<open>metadata_crc32\<close>, the bitwise CRC-32 the write-ahead log computes over its records, and its error detection: each step of the computation is injective, so two inputs of
  the same length that differ in a single byte never have the same checksum.
\<close>

section \<open>Definitions\<close>

text \<open>\<^verbatim>\<open>crc = (crc >> 1) ^ (0xEDB88320 & -(crc & 1))\<close>\<close>

definition crc_bit :: "u32 \<Rightarrow> u32" where
  "crc_bit crc = drop_bit 1 crc XOR (0xEDB88320 AND - (crc AND 1))"

definition crc_byte :: "u32 \<Rightarrow> byte \<Rightarrow> u32" where
  "crc_byte crc b = (crc_bit ^^ 8) (crc XOR ucast b)"

definition metadata_crc32 :: "byte list \<Rightarrow> u32" where
  "metadata_crc32 data = NOT (foldl crc_byte 0xFFFFFFFF data)"

section \<open>Error detection\<close>

lemma xor_right_cancel [simp]: "a XOR c = b XOR c \<longleftrightarrow> a = b" for a b c :: "'a::len word"
proof
  assume "a XOR c = b XOR c"
  then have "(a XOR c) XOR c = (b XOR c) XOR c" by simp
  then show "a = b" by (simp only: xor.assoc xor_self_eq xor.right_neutral)
qed simp

lemma xor_left_cancel [simp]: "c XOR a = c XOR b \<longleftrightarrow> a = b" for a b c :: "'a::len word"
  by (simp only: xor.commute [of c] xor_right_cancel)

lemma crc_bit_if: "crc_bit c = drop_bit 1 c XOR (if bit c 0 then 0xEDB88320 else 0)"
proof (cases "bit c 0")
  case True
  then have "c AND 1 = 1" by (simp add: and_one_eq odd_iff_mod_2_eq_one bit_0)
  with True show ?thesis by (simp add: crc_bit_def)
next
  case False
  then have "c AND 1 = 0" by (simp add: and_one_eq even_iff_mod_2_eq_zero bit_0)
  with False show ?thesis by (simp add: crc_bit_def)
qed

lemma crc_bit_msb: "bit (crc_bit c) 31 \<longleftrightarrow> bit c 0"
proof -
  have "\<not> bit (drop_bit 1 c) 31" by (auto simp: bit_drop_bit_eq dest: bit_imp_le_length)
  moreover have "bit (0xEDB88320 :: u32) 31" by simp
  ultimately show ?thesis by (simp add: crc_bit_if bit_xor_iff)
qed

lemma crc_bit_inj: "crc_bit c = crc_bit d \<Longrightarrow> c = d"
proof (rule bit_word_eqI)
  fix k
  assume eq: "crc_bit c = crc_bit d" and k: "k < LENGTH(32)"
  have low: "bit c 0 = bit d 0" using crc_bit_msb [of c] crc_bit_msb [of d] eq by simp
  with eq have "drop_bit 1 c = drop_bit 1 d"
    by (simp add: crc_bit_if split: if_splits)
  then have "bit (drop_bit 1 c) (k - 1) = bit (drop_bit 1 d) (k - 1)" by simp
  with low show "bit c k = bit d k"
    by (cases k) (simp_all add: bit_drop_bit_eq)
qed

lemma crc_bits_inj: "(crc_bit ^^ n) c = (crc_bit ^^ n) d \<Longrightarrow> c = d"
  by (induction n) (auto dest: crc_bit_inj)

lemma crc_byte_inj_state: "crc_byte c b = crc_byte d b \<Longrightarrow> c = d"
  unfolding crc_byte_def by (drule crc_bits_inj) simp

lemma crc_byte_inj_data: "crc_byte c a = crc_byte c b \<Longrightarrow> a = b"
proof -
  assume "crc_byte c a = crc_byte c b"
  then have "c XOR ucast a = c XOR (ucast b :: u32)" unfolding crc_byte_def by (rule crc_bits_inj)
  then have "(ucast a :: u32) = ucast b" by simp
  then have "unat (ucast a :: u32) = unat (ucast b :: u32)" by simp
  moreover have "unat (ucast x :: u32) = unat x" for x :: byte
  proof -
    have "unat x < 2 ^ 8" using unsigned_less [of x] by simp
    then show ?thesis by (simp add: unsigned_ucast_eq take_bit_nat_eq_self)
  qed
  ultimately show "a = b" by (simp add: word_unat_eq_iff)
qed

lemma crc_fold_inj_state: "foldl crc_byte c xs = foldl crc_byte d xs \<Longrightarrow> c = d"
  by (induction xs arbitrary: c d) (auto dest: crc_byte_inj_state)

lemma crc_single_byte:
  assumes "i < length data" "b \<noteq> data ! i"
  shows "metadata_crc32 (data[i := b]) \<noteq> metadata_crc32 data"
proof
  let ?p = "take i data" and ?s = "drop (Suc i) data"
  assume "metadata_crc32 (data[i := b]) = metadata_crc32 data"
  then have "foldl crc_byte 0xFFFFFFFF (?p @ b # ?s) = foldl crc_byte 0xFFFFFFFF (?p @ data ! i # ?s)"
    using assms(1) id_take_nth_drop [OF assms(1)] by (simp add: metadata_crc32_def upd_conv_take_nth_drop)
  then have "crc_byte (foldl crc_byte 0xFFFFFFFF ?p) b = crc_byte (foldl crc_byte 0xFFFFFFFF ?p) (data ! i)"
    by (auto dest: crc_fold_inj_state)
  with assms(2) show False by (auto dest: crc_byte_inj_data)
qed

end
