(* ===== verification/Metadata.thy ===== *)
theory Metadata
  imports Byte_Codec Crc32
begin

text \<open>
  The metadata manager: \<^verbatim>\<open>distributed_core/include/metadata_manager.h\<close> and
  \<^verbatim>\<open>distributed_core/src/metadata_manager.c\<close>. The hash map is 1024 buckets of (key, entry pointer)
  nodes; entries live in a heap (\<open>heap\<close>, an address is its index), because callers keep pointers
  to them. The write-ahead log is the bytes of its file. Fallible host calls (\<^verbatim>\<open>malloc\<close>, \<^verbatim>\<open>write\<close>,
  \<^verbatim>\<open>fsync\<close>, \<^verbatim>\<open>read\<close>, the clock) answer through \<open>wal_env\<close> and \<open>replay_env\<close>. Operations run under
  the manager's locks. This theory holds the definitions.
\<close>

section \<open>Data\<close>

abbreviation MAX_STORAGE_NODES :: nat where "MAX_STORAGE_NODES \<equiv> 16"
abbreviation MAX_PATH_LENGTH :: nat where "MAX_PATH_LENGTH \<equiv> 4096"
abbreviation HASH_MAP_SIZE :: nat where "HASH_MAP_SIZE \<equiv> 1024"
abbreviation FILE_STATE_CREATING :: u32 where "FILE_STATE_CREATING \<equiv> 0"
abbreviation FILE_STATE_DELETED :: u32 where "FILE_STATE_DELETED \<equiv> 3"
abbreviation WAL_OP_CREATE :: u32 where "WAL_OP_CREATE \<equiv> 1"
abbreviation WAL_OP_UPDATE :: u32 where "WAL_OP_UPDATE \<equiv> 2"
abbreviation WAL_OP_DELETE :: u32 where "WAL_OP_DELETE \<equiv> 3"
abbreviation UINT64_MAX :: u64 where "UINT64_MAX \<equiv> - 1"

record metadata_entry =
  file_id :: string
  fpath :: string
  fstate :: u32
  fsize :: u64
  fmode :: u32
  fuid :: u32
  fgid :: u32
  created_time :: u64
  modified_time :: u64
  accessed_time :: u64
  storage_nodes :: "u32 list"
  storage_node_ips :: "string list"
  storage_node_ports :: "u32 list"
  num_storage_nodes :: u32
  primary_node_idx :: u32
  version :: u64
  stripe_size :: u64
  num_replicas :: u32

record metadata_manager =
  buckets :: "(string \<times> nat) list arr"
  heap :: "metadata_entry arr"
  heap_next :: nat
  wal :: "byte list"
  current_lsn :: u64
  total_entries :: u64
  total_size :: u64

text \<open>\<open>now\<close> and \<open>alloc_ok\<close> answer by call site; \<open>write_hdr\<close> and \<open>write_data\<close> are what the two \<^verbatim>\<open>write\<close> calls return: -1 or the number of bytes.\<close>

record wal_env =
  now :: "nat \<Rightarrow> time_t"
  hdr_pad :: u32
  alloc_ok :: "nat \<Rightarrow> bool"
  write_hdr :: int
  write_data :: int
  fsync_fails :: bool

record replay_env =
  malloc_null :: "nat \<Rightarrow> bool"
  read_fails :: "nat \<Rightarrow> bool"
  junk :: "nat \<Rightarrow> byte"

section \<open>Hashing and identifiers\<close>

text \<open>\<^verbatim>\<open>char\<close> is signed: characters from 128 on are subtracted.\<close>

definition char_int :: "char \<Rightarrow> int" where
  "char_int c = (if of_char c < (128 :: int) then of_char c else of_char c - 256)"

definition hash_string :: "string \<Rightarrow> nat" where
  "hash_string str =
     unat (foldl (\<lambda>hash c. (push_bit 5 hash + hash) + word_of_int (char_int c)) (5381 :: u32) str) mod HASH_MAP_SIZE"

text \<open>\<^verbatim>\<open>%lx\<close> and \<^verbatim>\<open>%ld\<close>\<close>

definition hex_digit :: "nat \<Rightarrow> char" where
  "hex_digit d = (if d < 10 then char_of (48 + d) else char_of (87 + d))"

fun hex_str :: "nat \<Rightarrow> string" where
  "hex_str n = (if n < 16 then [hex_digit n] else hex_str (n div 16) @ [hex_digit (n mod 16)])"

declare hex_str.simps [simp del]

definition long_str :: "int \<Rightarrow> string" where
  "long_str x = (if x < 0 then CHR ''-'' # dec_str (nat (- x)) else dec_str (nat x))"

definition new_file_id :: "string \<Rightarrow> time_t \<Rightarrow> string" where
  "new_file_id path t = take 63 (hex_str (hash_string path) @ ''_'' @ long_str t)"

section \<open>Serialization\<close>

text \<open>The bytes of \<^verbatim>\<open>metadata_entry_t\<close> before its lock (5400 of 5456).\<close>

definition entry_bytes :: "metadata_entry \<Rightarrow> byte list" where
  "entry_bytes x =
     cbuf_enc 64 (file_id x) @ cbuf_enc 4096 (fpath x) @ u32_enc (fstate x) @ u32_enc 0
     @ u64_enc (fsize x) @ u32_enc (fmode x) @ u32_enc (fuid x) @ u32_enc (fgid x) @ u32_enc 0
     @ u64_enc (created_time x) @ u64_enc (modified_time x) @ u64_enc (accessed_time x)
     @ arr_enc u32_enc (storage_nodes x) @ arr_enc (cbuf_enc 64) (storage_node_ips x)
     @ arr_enc u32_enc (storage_node_ports x) @ u32_enc (num_storage_nodes x) @ u32_enc (primary_node_idx x)
     @ u64_enc (version x) @ u64_enc (stripe_size x) @ u32_enc (num_replicas x) @ u32_enc 0"

definition metadata_serialize :: "bool \<Rightarrow> metadata_entry \<Rightarrow> byte list option" where
  "metadata_serialize malloc_ok x = (if malloc_ok then Some (entry_bytes x) else None)"

definition entry_of_bytes :: "byte list \<Rightarrow> metadata_entry" where
  "entry_of_bytes bs = \<lparr>file_id = cbuf_dec (slice 0 64 bs), fpath = cbuf_dec (slice 64 4096 bs),
     fstate = u32_dec (slice 4160 4 bs), fsize = u64_dec (slice 4168 8 bs), fmode = u32_dec (slice 4176 4 bs),
     fuid = u32_dec (slice 4180 4 bs), fgid = u32_dec (slice 4184 4 bs),
     created_time = u64_dec (slice 4192 8 bs), modified_time = u64_dec (slice 4200 8 bs),
     accessed_time = u64_dec (slice 4208 8 bs), storage_nodes = arr_dec u32_dec 4 16 (slice 4216 64 bs),
     storage_node_ips = arr_dec cbuf_dec 64 16 (slice 4280 1024 bs),
     storage_node_ports = arr_dec u32_dec 4 16 (slice 5304 64 bs),
     num_storage_nodes = u32_dec (slice 5368 4 bs), primary_node_idx = u32_dec (slice 5372 4 bs),
     version = u64_dec (slice 5376 8 bs), stripe_size = u64_dec (slice 5384 8 bs),
     num_replicas = u32_dec (slice 5392 4 bs)\<rparr>"

text \<open>\<^verbatim>\<open>memcpy\<close> of \<open>len\<close> bytes into a zeroed struct of 5456 bytes; a longer input overruns the heap
  block.\<close>

datatype deserialize_error = No_memory | Heap_overflow

definition metadata_deserialize :: "bool \<Rightarrow> byte list \<Rightarrow> deserialize_error + metadata_entry" where
  "metadata_deserialize calloc_ok buffer =
     (if \<not> calloc_ok then Inl No_memory
      else if length buffer > 5456 then Inl Heap_overflow
      else Inr (entry_of_bytes (overwrite buffer (replicate 5456 0))))"

section \<open>Write-ahead log\<close>

text \<open>The first 40 of the 48 bytes of \<^verbatim>\<open>wal_entry_t\<close>: sequence number, operation, padding, time,
  the data pointer and the data length. The padding \<open>pd\<close> is what the
  stack holds there. The checksum is the member after them.\<close>

definition wal_header :: "u64 \<Rightarrow> u32 \<Rightarrow> u32 \<Rightarrow> time_t \<Rightarrow> u64 \<Rightarrow> nat \<Rightarrow> byte list" where
  "wal_header lsn op pd t ptr n =
     u64_enc lsn @ u32_enc op @ u32_enc pd @ u64_enc (word_of_int t) @ u64_enc ptr @ u64_enc (of_nat n)"

definition wal_append ::
  "wal_env \<Rightarrow> u64 \<Rightarrow> u32 \<Rightarrow> metadata_entry \<Rightarrow> metadata_manager \<Rightarrow> u64 \<times> metadata_manager" where
  "wal_append e ptr op x mgr =
     (case metadata_serialize (alloc_ok e 1) x of
        None \<Rightarrow> (UINT64_MAX, mgr)
      | Some data \<Rightarrow>
         let lsn = current_lsn mgr + 1;
             m1 = mgr\<lparr>current_lsn := lsn\<rparr>;
             hdr = wal_header lsn op (hdr_pad e) (now e 2) ptr (length data)
         in if write_hdr e < 0 then (UINT64_MAX, m1)
            else let m2 = m1\<lparr>wal := wal m1 @ take (nat (write_hdr e)) hdr\<rparr>
              in if write_data e < 0 then (UINT64_MAX, m2)
                 else let m3 = m2\<lparr>wal := wal m2 @ take (nat (write_data e)) data\<rparr>
                   in if fsync_fails e then (UINT64_MAX, m3) else (lsn, m3))"

text \<open>The loop of \<^verbatim>\<open>wal_replay\<close>: \<open>hdr\<close> is the 48-byte variable \<^verbatim>\<open>wal_entry\<close>, of which each iteration
  overwrites at most the first 40 bytes, \<open>rest\<close> the unread part of the file. \<^verbatim>\<open>read\<close> and \<^verbatim>\<open>malloc\<close>
  answer by the number of unread bytes and the size asked for.\<close>

datatype replay_result = Replayed u64 | Replay_failed u64 | Replay_crashed

function replay_loop :: "replay_env \<Rightarrow> byte list \<Rightarrow> u64 \<Rightarrow> byte list \<Rightarrow> replay_result" where
  "replay_loop e hdr lsn rest =
     (if read_fails e (length rest) then Replay_failed lsn
      else if rest = [] then Replayed lsn
      else let hdr1 = overwrite (take 40 rest) hdr;
               rest1 = drop 40 rest;
               n = unat (u64_dec (slice 32 8 hdr1));
               got = take n rest1;
               rest2 = drop n rest1
        in if n > 0 \<and> malloc_null e n
           then if rest1 = [] then Replay_crashed else Replay_failed lsn
           else if read_fails e (length rest1) then Replay_failed lsn
           else let data = got @ map (junk e) [length got..<n]
             in if metadata_crc32 data \<noteq> u32_dec (slice 40 4 hdr1) then replay_loop e hdr1 lsn rest2
                else if n > 5456 then Replay_crashed
                else replay_loop e hdr1 (u64_dec (slice 0 8 hdr1)) rest2)"
  by pat_completeness auto
termination
  by (relation "measure (\<lambda>(e, hdr, lsn, rest). length rest)") (auto simp: neq_Nil_conv)

declare replay_loop.simps [simp del]

text \<open>\<open>stack\<close> is what the uninitialised variable \<^verbatim>\<open>wal_entry\<close> holds at the start.\<close>

definition wal_replay :: "replay_env \<Rightarrow> byte list \<Rightarrow> metadata_manager \<Rightarrow> (int \<times> metadata_manager) option" where
  "wal_replay e stack mgr =
     (case replay_loop e stack (current_lsn mgr) (wal mgr) of
        Replayed lsn \<Rightarrow> Some (0, mgr\<lparr>current_lsn := lsn\<rparr>)
      | Replay_failed lsn \<Rightarrow> Some (- 1, mgr\<lparr>current_lsn := lsn\<rparr>)
      | Replay_crashed \<Rightarrow> None)"

definition wal_truncate :: "u64 \<Rightarrow> metadata_manager \<Rightarrow> int \<times> metadata_manager" where
  "wal_truncate lsn mgr = (0, mgr\<lparr>wal := []\<rparr>)"

section \<open>The manager\<close>

definition empty_manager :: "byte list \<Rightarrow> metadata_manager" where
  "empty_manager file = \<lparr>buckets = (\<lambda>_. []), heap = (\<lambda>_. entry_of_bytes (replicate 5400 0)), heap_next = 0,
     wal = file, current_lsn = 0, total_entries = 0, total_size = 0\<rparr>"

text \<open>\<^term>\<open>None\<close> is a crash; a missing log file is opened empty.\<close>

definition metadata_manager_init ::
  "replay_env \<Rightarrow> byte list \<Rightarrow> bool \<Rightarrow> bool \<Rightarrow> byte list \<Rightarrow> metadata_manager option option" where
  "metadata_manager_init e stack calloc_ok open_ok file =
     (if \<not> calloc_ok \<or> \<not> open_ok then Some None
      else case wal_replay e stack (empty_manager file) of
             None \<Rightarrow> None | Some (rc, mgr) \<Rightarrow> Some (Some mgr))"

definition bucket_find :: "string \<Rightarrow> (string \<times> nat) list \<Rightarrow> nat option" where
  "bucket_find k nodes = map_option snd (find (\<lambda>nd. fst nd = k) nodes)"

definition metadata_lookup :: "metadata_manager \<Rightarrow> string \<Rightarrow> nat option" where
  "metadata_lookup mgr k = bucket_find k (buckets mgr (hash_string k))"

definition metadata_lookup_by_path :: "metadata_manager \<Rightarrow> string \<Rightarrow> nat option" where
  "metadata_lookup_by_path mgr p =
     map_option snd (find (\<lambda>nd. fpath (heap mgr (snd nd)) = p \<and> fstate (heap mgr (snd nd)) \<noteq> FILE_STATE_DELETED)
       (concat (map (buckets mgr) [0..<HASH_MAP_SIZE])))"

definition upd_entry :: "nat \<Rightarrow> (metadata_entry \<Rightarrow> metadata_entry) \<Rightarrow> metadata_manager \<Rightarrow> metadata_manager" where
  "upd_entry a f mgr = mgr\<lparr>heap := (heap mgr)(a := f (heap mgr a))\<rparr>"

text \<open>A new heap cell and a node for it at the head of its bucket.\<close>

definition insert_node :: "metadata_entry \<Rightarrow> metadata_manager \<Rightarrow> metadata_manager" where
  "insert_node x mgr =
     (let a = heap_next mgr; idx = hash_string (file_id x) in
      mgr\<lparr>heap := (heap mgr)(a := x), heap_next := a + 1,
          buckets := (buckets mgr)(idx := (strncpy0 (file_id x) 63, a) # buckets mgr idx)\<rparr>)"

text \<open>\<^term>\<open>None\<close> is a crash: the result of the node's \<^verbatim>\<open>malloc\<close> is used unchecked.\<close>

definition metadata_create_entry ::
  "wal_env \<Rightarrow> u64 \<Rightarrow> string \<Rightarrow> u32 \<Rightarrow> u32 \<Rightarrow> u32 \<Rightarrow> metadata_manager \<Rightarrow> (nat option \<times> metadata_manager) option" where
  "metadata_create_entry e ptr path md u g mgr =
     (if \<not> alloc_ok e 0 then Some (None, mgr)
      else let x = (entry_of_bytes (replicate 5456 0))\<lparr>file_id := new_file_id path (now e 0),
                 fpath := strncpy0 path (MAX_PATH_LENGTH - 1), fstate := FILE_STATE_CREATING, fsize := 0,
                 fmode := md, fuid := u, fgid := g, created_time := word_of_int (now e 1),
                 modified_time := word_of_int (now e 1), accessed_time := word_of_int (now e 1),
                 num_storage_nodes := 0, version := 1, stripe_size := 4194304, num_replicas := 0\<rparr>;
               (lsn, m1) = wal_append e ptr WAL_OP_CREATE x mgr
        in if lsn = UINT64_MAX then Some (None, m1)
           else if \<not> alloc_ok e 2 then None
           else let m2 = insert_node x m1
                in Some (Some (heap_next m1), m2\<lparr>total_entries := total_entries m2 + 1\<rparr>))"

definition metadata_update_entry :: "wal_env \<Rightarrow> u64 \<Rightarrow> nat \<Rightarrow> metadata_manager \<Rightarrow> int \<times> metadata_manager" where
  "metadata_update_entry e ptr a mgr =
     (let (lsn, m1) = wal_append e ptr WAL_OP_UPDATE (heap mgr a) mgr in
      if lsn = UINT64_MAX then (- 1, m1)
      else (0, upd_entry a (\<lambda>x. x\<lparr>version := version x + 1, modified_time := word_of_int (now e 3)\<rparr>) m1))"

definition metadata_delete_entry :: "wal_env \<Rightarrow> u64 \<Rightarrow> string \<Rightarrow> metadata_manager \<Rightarrow> int \<times> metadata_manager" where
  "metadata_delete_entry e ptr k mgr =
     (case metadata_lookup mgr k of
        None \<Rightarrow> (- 1, mgr)
      | Some a \<Rightarrow>
         let m1 = upd_entry a (\<lambda>x. x\<lparr>fstate := FILE_STATE_DELETED\<rparr>) mgr;
             (lsn, m2) = wal_append e ptr WAL_OP_DELETE (heap m1 a) m1
         in if lsn = UINT64_MAX then (- 1, m2)
            else (0, m2\<lparr>total_entries := total_entries m2 - 1,
                        total_size := total_size m2 - fsize (heap m2 a)\<rparr>))"

definition metadata_assign_storage_nodes ::
  "wal_env \<Rightarrow> u64 \<Rightarrow> nat \<Rightarrow> string list \<Rightarrow> u32 list \<Rightarrow> u32 \<Rightarrow> metadata_manager \<Rightarrow> int \<times> metadata_manager" where
  "metadata_assign_storage_nodes e ptr a ips ports num_nodes mgr =
     (if unat num_nodes > MAX_STORAGE_NODES then (- 1, mgr)
      else let n = unat num_nodes;
               m1 = upd_entry a (\<lambda>x. x\<lparr>
                 storage_node_ips := map (\<lambda>s. strncpy0 s 63) (take n ips) @ drop n (storage_node_ips x),
                 storage_node_ports := take n ports @ drop n (storage_node_ports x),
                 num_storage_nodes := num_nodes, primary_node_idx := 0\<rparr>) mgr
        in metadata_update_entry e ptr a m1)"

definition metadata_apply_entry :: "bool \<Rightarrow> metadata_entry \<Rightarrow> metadata_manager \<Rightarrow> int \<times> metadata_manager" where
  "metadata_apply_entry calloc_ok x mgr =
     (case metadata_lookup mgr (file_id x) of
        Some a \<Rightarrow>
          let old_size = fsize (heap mgr a); m1 = upd_entry a (\<lambda>_. x) mgr in
          (0, m1\<lparr>total_size := (if fsize x \<ge> old_size then total_size m1 + (fsize x - old_size)
                                else total_size m1 - (old_size - fsize x))\<rparr>)
      | None \<Rightarrow>
          if \<not> calloc_ok then (- 1, mgr)
          else let m1 = insert_node x mgr
               in (0, m1\<lparr>total_entries := total_entries m1 + 1, total_size := total_size m1 + fsize x\<rparr>))"

end
