(* ===== verification/Metadata_Props.thy ===== *)
theory Metadata_Props
  imports Metadata
begin

text \<open>
  The metadata manager: the byte format of an entry, the hash map as a map from file ids to
  entries (\<open>meta_map\<close>) that applying a committed entry updates at one key, what follows for
  replicas that apply the same entries (locale \<open>keyed_store\<close>), and the write-ahead log: what
  appending writes, and what replay makes of it.
\<close>

section \<open>Entry format\<close>

definition entry_ok :: "metadata_entry \<Rightarrow> bool" where
  "entry_ok x \<longleftrightarrow> cbuf_ok 64 (file_id x) \<and> cbuf_ok 4096 (fpath x) \<and>
     length (storage_nodes x) = 16 \<and> length (storage_node_ips x) = 16 \<and> length (storage_node_ports x) = 16 \<and>
     (\<forall>s \<in> set (storage_node_ips x). cbuf_ok 64 s)"

lemma entry_arrays:
  assumes "entry_ok x"
  shows "length (arr_enc u32_enc (storage_nodes x)) = 64" "length (arr_enc u32_enc (storage_node_ports x)) = 64"
    "length (arr_enc (cbuf_enc 64) (storage_node_ips x)) = 1024"
    "arr_dec u32_dec 4 16 (arr_enc u32_enc (storage_nodes x)) = storage_nodes x"
    "arr_dec u32_dec 4 16 (arr_enc u32_enc (storage_node_ports x)) = storage_node_ports x"
    "arr_dec cbuf_dec 64 16 (arr_enc (cbuf_enc 64) (storage_node_ips x)) = storage_node_ips x"
proof -
  have n: "length (storage_nodes x) = 16" "length (storage_node_ports x) = 16" "length (storage_node_ips x) = 16"
    and ips: "\<And>s. s \<in> set (storage_node_ips x) \<Longrightarrow> cbuf_ok 64 s"
    using assms by (simp_all add: entry_ok_def)
  show "length (arr_enc u32_enc (storage_nodes x)) = 64" "length (arr_enc u32_enc (storage_node_ports x)) = 64"
    "length (arr_enc (cbuf_enc 64) (storage_node_ips x)) = 1024"
    using n ips by (simp_all add: c32.arr_enc_length cbuf.arr_enc_length)
  show "arr_dec u32_dec 4 16 (arr_enc u32_enc (storage_nodes x)) = storage_nodes x"
    "arr_dec u32_dec 4 16 (arr_enc u32_enc (storage_node_ports x)) = storage_node_ports x"
    "arr_dec cbuf_dec 64 16 (arr_enc (cbuf_enc 64) (storage_node_ips x)) = storage_node_ips x"
    using c32.arr_dec_enc [of "storage_nodes x" "[]"] c32.arr_dec_enc [of "storage_node_ports x" "[]"]
      cbuf.arr_dec_enc [of "storage_node_ips x" 64 "[]"] n ips by simp_all
qed

lemma entry_cbufs:
  assumes "entry_ok x"
  shows "length (cbuf_enc 64 (file_id x)) = 64" "length (cbuf_enc 4096 (fpath x)) = 4096"
    "cbuf_dec (cbuf_enc 64 (file_id x)) = file_id x" "cbuf_dec (cbuf_enc 4096 (fpath x)) = fpath x"
  using assms by (simp_all add: entry_ok_def codec_simps)

lemma length_entry_bytes: "entry_ok x \<Longrightarrow> length (entry_bytes x) = 5400"
  by (simp add: entry_bytes_def codec_simps entry_arrays entry_cbufs)

lemma entry_of_entry_bytes: "entry_ok x \<Longrightarrow> entry_of_bytes (entry_bytes x @ rest) = x"
  by (simp add: entry_of_bytes_def entry_bytes_def codec_simps entry_arrays entry_cbufs)

interpretation entry_codec: fixed_codec entry_bytes entry_of_bytes 5400 entry_ok
  using entry_of_entry_bytes [of _ "[]"] by unfold_locales (simp_all add: length_entry_bytes)

lemma metadata_deserialize_bytes:
  assumes "entry_ok x"
  shows "metadata_deserialize True (entry_bytes x) = Inr x"
  using assms by (simp add: metadata_deserialize_def overwrite_def length_entry_bytes entry_of_entry_bytes)

section \<open>The hash map as a map\<close>

definition node_addrs :: "metadata_manager \<Rightarrow> nat set" where
  "node_addrs m = (\<Union>i<HASH_MAP_SIZE. snd ` set (buckets m i))"

text \<open>Every node is in the bucket of its key, points to an allocated entry with that file id, and
  no entry has two nodes.\<close>

definition mgr_inv :: "metadata_manager \<Rightarrow> bool" where
  "mgr_inv m \<longleftrightarrow>
     (\<forall>i<HASH_MAP_SIZE. \<forall>(k, a) \<in> set (buckets m i).
        hash_string k = i \<and> a < heap_next m \<and> file_id (heap m a) = k)"

definition meta_map :: "metadata_manager \<Rightarrow> string \<rightharpoonup> metadata_entry" where
  "meta_map m k = map_option (heap m) (metadata_lookup m k)"

definition totals_ok :: "metadata_manager \<Rightarrow> bool" where
  "totals_ok m \<longleftrightarrow> total_entries m = of_nat (card (node_addrs m)) \<and>
     total_size m = (\<Sum>a\<in>node_addrs m. fsize (heap m a))"

definition id_ok :: "metadata_entry \<Rightarrow> bool" where
  "id_ok x \<longleftrightarrow> length (file_id x) \<le> 63"

lemma hash_string_less [simp]: "hash_string k < HASH_MAP_SIZE"
  by (simp add: hash_string_def)

lemma bucket_find_SomeD: "bucket_find k nodes = Some a \<Longrightarrow> (k, a) \<in> set nodes"
  by (induction nodes) (auto simp: bucket_find_def split: if_splits)

lemma bucket_find_NoneD: "bucket_find k nodes = None \<Longrightarrow> k \<notin> fst ` set nodes"
  by (auto simp: bucket_find_def find_None_iff)

lemma bucket_find_Cons: "bucket_find k ((k', a) # nodes) = (if k' = k then Some a else bucket_find k nodes)"
  by (simp add: bucket_find_def)

lemma mgr_invD:
  assumes "mgr_inv m" "i < HASH_MAP_SIZE" "(k, a) \<in> set (buckets m i)"
  shows "hash_string k = i" "a < heap_next m" "file_id (heap m a) = k"
proof -
  from assms(1,2) have "\<forall>(k, a) \<in> set (buckets m i). hash_string k = i \<and> a < heap_next m \<and> file_id (heap m a) = k"
    by (simp add: mgr_inv_def)
  from bspec [OF this assms(3)] show "hash_string k = i" "a < heap_next m" "file_id (heap m a) = k" by simp_all
qed

lemma mgr_invI:
  "(\<And>i k a. i < HASH_MAP_SIZE \<Longrightarrow> (k, a) \<in> set (buckets m i) \<Longrightarrow>
     hash_string k = i \<and> a < heap_next m \<and> file_id (heap m a) = k) \<Longrightarrow> mgr_inv m"
  by (auto simp: mgr_inv_def)

lemma lookup_node:
  assumes "mgr_inv m" "metadata_lookup m k = Some a"
  shows "(k, a) \<in> set (buckets m (hash_string k))" "a < heap_next m" "file_id (heap m a) = k" "a \<in> node_addrs m"
proof -
  show n: "(k, a) \<in> set (buckets m (hash_string k))"
    using assms(2) by (auto simp: metadata_lookup_def dest: bucket_find_SomeD)
  show "a < heap_next m" "file_id (heap m a) = k" by (rule mgr_invD [OF assms(1) _ n], simp)+
  from n show "a \<in> node_addrs m"
    unfolding node_addrs_def by (intro UN_I [of "hash_string k"]) (auto intro: rev_image_eqI)
qed

lemma node_addrs_below:
  assumes "mgr_inv m"
  shows "node_addrs m \<subseteq> {..<heap_next m}" "finite (node_addrs m)"
proof -
  show *: "node_addrs m \<subseteq> {..<heap_next m}"
    using mgr_invD(2) [OF assms] by (auto simp: node_addrs_def)
  show "finite (node_addrs m)" by (rule finite_subset [OF *]) simp
qed

lemma id_ok_key: "id_ok x \<Longrightarrow> strncpy0 (file_id x) 63 = file_id x"
  by (simp add: id_ok_def strncpy0_def)

lemma insert_node_simps:
  assumes "id_ok x"
  shows "heap (insert_node x m) = (heap m)(heap_next m := x)" "heap_next (insert_node x m) = Suc (heap_next m)"
    "buckets (insert_node x m) = (buckets m)(hash_string (file_id x) :=
       (file_id x, heap_next m) # buckets m (hash_string (file_id x)))"
    "wal (insert_node x m) = wal m" "current_lsn (insert_node x m) = current_lsn m"
    "total_entries (insert_node x m) = total_entries m" "total_size (insert_node x m) = total_size m"
  using assms by (simp_all add: insert_node_def Let_def id_ok_key)

lemma insert_node_inv:
  assumes "mgr_inv m" "id_ok x"
  shows "mgr_inv (insert_node x m)" "meta_map (insert_node x m) = (meta_map m)(file_id x \<mapsto> x)"
    "node_addrs (insert_node x m) = insert (heap_next m) (node_addrs m)" "heap_next m \<notin> node_addrs m"
proof -
  note s = insert_node_simps [OF assms(2), of m]
  show "mgr_inv (insert_node x m)"
  proof (rule mgr_invI)
    fix i k a
    assume i: "i < HASH_MAP_SIZE" "(k, a) \<in> set (buckets (insert_node x m) i)"
    then consider "k = file_id x" "a = heap_next m" "i = hash_string (file_id x)" | "(k, a) \<in> set (buckets m i)"
      by (auto simp: s split: if_splits)
    then show "hash_string k = i \<and> a < heap_next (insert_node x m) \<and> file_id (heap (insert_node x m) a) = k"
    proof cases
      case 2
      from mgr_invD [OF assms(1) i(1) this] show ?thesis by (simp add: s less_SucI)
    qed (simp add: s)
  qed
  show new: "heap_next m \<notin> node_addrs m" using node_addrs_below(1) [OF assms(1)] by auto
  show "meta_map (insert_node x m) = (meta_map m)(file_id x \<mapsto> x)"
  proof
    fix k
    show "meta_map (insert_node x m) k = ((meta_map m)(file_id x \<mapsto> x)) k"
    proof (cases "k = file_id x")
      case True
      then show ?thesis by (simp add: meta_map_def metadata_lookup_def s bucket_find_Cons)
    next
      case False
      then have "metadata_lookup (insert_node x m) k = metadata_lookup m k"
        by (simp add: metadata_lookup_def s bucket_find_Cons)
      moreover have "a \<noteq> heap_next m" if "metadata_lookup m k = Some a" for a
        using lookup_node(2) [OF assms(1) that] by simp
      ultimately show ?thesis using False
        by (cases "metadata_lookup m k") (simp_all add: meta_map_def s)
    qed
  qed
  have "snd ` set (buckets (insert_node x m) i) = (if i = hash_string (file_id x) then {heap_next m} else {})
      \<union> snd ` set (buckets m i)" for i
    by (simp add: s)
  then have "node_addrs (insert_node x m) = (\<Union>i<HASH_MAP_SIZE. if i = hash_string (file_id x) then {heap_next m} else {})
      \<union> node_addrs m"
    unfolding node_addrs_def by (simp add: UN_Un_distrib)
  also have "(\<Union>i<HASH_MAP_SIZE. if i = hash_string (file_id x) then {heap_next m} else {}) = {heap_next m}"
    using hash_string_less [of "file_id x"] by (auto split: if_splits)
  finally show "node_addrs (insert_node x m) = insert (heap_next m) (node_addrs m)" by simp
qed

lemma upd_entry_simps [simp]:
  "heap (upd_entry a f m) = (heap m)(a := f (heap m a))" "buckets (upd_entry a f m) = buckets m"
  "heap_next (upd_entry a f m) = heap_next m" "wal (upd_entry a f m) = wal m"
  "current_lsn (upd_entry a f m) = current_lsn m" "total_entries (upd_entry a f m) = total_entries m"
  "total_size (upd_entry a f m) = total_size m" "metadata_lookup (upd_entry a f m) = metadata_lookup m"
  "node_addrs (upd_entry a f m) = node_addrs m"
  by (auto simp: upd_entry_def metadata_lookup_def node_addrs_def)

lemma upd_entry_inv:
  assumes "mgr_inv m" "metadata_lookup m (file_id x) = Some a"
  shows "mgr_inv (upd_entry a (\<lambda>_. x) m)" "meta_map (upd_entry a (\<lambda>_. x) m) = (meta_map m)(file_id x \<mapsto> x)"
proof -
  note l = lookup_node [OF assms]
  show "mgr_inv (upd_entry a (\<lambda>_. x) m)"
  proof (rule mgr_invI)
    fix i k b
    assume i: "i < HASH_MAP_SIZE" "(k, b) \<in> set (buckets (upd_entry a (\<lambda>_. x) m) i)"
    from mgr_invD [OF assms(1) i(1), of k b] i(2) l(3)
    show "hash_string k = i \<and> b < heap_next (upd_entry a (\<lambda>_. x) m) \<and> file_id (heap (upd_entry a (\<lambda>_. x) m) b) = k"
      by (cases "b = a") auto
  qed
  show "meta_map (upd_entry a (\<lambda>_. x) m) = (meta_map m)(file_id x \<mapsto> x)"
  proof
    fix k
    have "b \<noteq> a" if "metadata_lookup m k = Some b" "k \<noteq> file_id x" for b
      using lookup_node(3) [OF assms(1) that(1)] l(3) that(2) by auto
    then show "meta_map (upd_entry a (\<lambda>_. x) m) k = ((meta_map m)(file_id x \<mapsto> x)) k"
      using assms(2) by (cases "metadata_lookup m k"; cases "k = file_id x") (auto simp: meta_map_def)
  qed
qed

text \<open>Field updates outside the map.\<close>

lemma mgr_fields [simp]:
  "mgr_inv (m\<lparr>total_size := s\<rparr>) = mgr_inv m" "mgr_inv (m\<lparr>total_entries := t\<rparr>) = mgr_inv m"
  "meta_map (m\<lparr>total_size := s\<rparr>) = meta_map m" "meta_map (m\<lparr>total_entries := t\<rparr>) = meta_map m"
  "node_addrs (m\<lparr>total_size := s\<rparr>) = node_addrs m" "node_addrs (m\<lparr>total_entries := t\<rparr>) = node_addrs m"
  by (auto simp: mgr_inv_def meta_map_def metadata_lookup_def node_addrs_def fun_eq_iff)

lemma apply_entry_correct:
  assumes "mgr_inv m" "id_ok x" "metadata_apply_entry True x m = (rc, m')"
  shows "rc = 0 \<and> mgr_inv m' \<and> meta_map m' = (meta_map m)(file_id x \<mapsto> x) \<and> wal m' = wal m \<and>
    (totals_ok m \<longrightarrow> totals_ok m')"
proof (cases "metadata_lookup m (file_id x)")
  case None
  then have m': "rc = 0" "m' = (insert_node x m)\<lparr>total_entries := total_entries (insert_node x m) + 1,
      total_size := total_size (insert_node x m) + fsize x\<rparr>"
    using assms(3) by (auto simp: metadata_apply_entry_def Let_def)
  note i = insert_node_inv [OF assms(1,2)] and s = insert_node_simps [OF assms(2), of m]
    and fin = node_addrs_below(2) [OF assms(1)]
  have "(\<Sum>a\<in>node_addrs m. fsize (if a = heap_next m then x else heap m a)) = (\<Sum>a\<in>node_addrs m. fsize (heap m a))"
    using i(4) by (intro sum.cong) auto
  then have "totals_ok m'" if "totals_ok m"
    using that fin i(3,4) by (simp add: totals_ok_def m'(2) s add.commute fun_upd_def)
  with m' i s show ?thesis by simp
next
  case (Some a)
  let ?old = "fsize (heap m a)"
  note u = upd_entry_inv [OF assms(1) Some] and l = lookup_node [OF assms(1) Some]
    and fin = node_addrs_below(2) [OF assms(1)]
  have eq: "total_size m + (fsize x - ?old) = total_size m - (?old - fsize x)" by simp
  have m': "rc = 0" "m' = (upd_entry a (\<lambda>_. x) m)\<lparr>total_size := total_size m + (fsize x - ?old)\<rparr>"
    using assms(3) Some eq by (auto simp: metadata_apply_entry_def Let_def split: if_splits)
  have "(\<Sum>b\<in>node_addrs m. fsize (if b = a then x else heap m b)) = fsize x + (\<Sum>b\<in>node_addrs m - {a}. fsize (heap m b))"
    using fin l(4) by (simp add: sum.remove [of _ a])
  moreover have "(\<Sum>b\<in>node_addrs m. fsize (heap m b)) = ?old + (\<Sum>b\<in>node_addrs m - {a}. fsize (heap m b))"
    using fin l(4) by (simp add: sum.remove [of _ a])
  ultimately have "totals_ok m'" if "totals_ok m"
    using that by (simp add: totals_ok_def m'(2) fun_upd_def)
  with m' u show ?thesis by simp
qed

section \<open>Replicated application\<close>

text \<open>A store with one entry per key, updated by a put: the contract the consensus layer's apply
  callback relies on.\<close>

locale keyed_store =
  fixes store_inv :: "'s \<Rightarrow> bool" and look :: "'s \<Rightarrow> 'k \<rightharpoonup> 'v" and put :: "'v \<Rightarrow> 's \<Rightarrow> 's"
    and key :: "'v \<Rightarrow> 'k" and val_ok :: "'v \<Rightarrow> bool"
  assumes put_inv: "store_inv s \<Longrightarrow> val_ok v \<Longrightarrow> store_inv (put v s)"
    and look_put: "store_inv s \<Longrightarrow> val_ok v \<Longrightarrow> look (put v s) = (look s)(key v \<mapsto> v)"
begin

lemma puts_inv: "store_inv s \<Longrightarrow> \<forall>v \<in> set vs. val_ok v \<Longrightarrow> store_inv (fold put vs s)"
  by (induction vs arbitrary: s) (auto simp: put_inv)

text \<open>The last value put under a key is the one found.\<close>

lemma look_puts:
  "store_inv s \<Longrightarrow> \<forall>v \<in> set vs. val_ok v \<Longrightarrow>
     look (fold put vs s) k = (case find (\<lambda>v. key v = k) (rev vs) of None \<Rightarrow> look s k | Some v \<Rightarrow> Some v)"
proof (induction vs arbitrary: s)
  case (Cons v vs)
  then have "look (fold put vs (put v s)) k =
      (case find (\<lambda>v. key v = k) (rev vs) of None \<Rightarrow> look (put v s) k | Some v \<Rightarrow> Some v)"
    using put_inv by simp
  then show ?case using Cons.prems look_put by (auto simp: find_append split: option.splits)
qed simp

lemma same_puts_agree:
  assumes "store_inv s" "store_inv t" "look s = look t" "\<forall>v \<in> set vs. val_ok v"
  shows "look (fold put vs s) = look (fold put vs t)"
  by (rule ext) (auto simp: look_puts assms split: option.splits)

lemma puts_idempotent:
  assumes "store_inv s" "\<forall>v \<in> set vs. val_ok v"
  shows "look (fold put vs (fold put vs s)) = look (fold put vs s)"
  by (rule ext) (auto simp: look_puts puts_inv assms split: option.splits)

end

definition apply_committed :: "metadata_entry \<Rightarrow> metadata_manager \<Rightarrow> metadata_manager" where
  "apply_committed x m = snd (metadata_apply_entry True x m)"

interpretation meta: keyed_store mgr_inv meta_map apply_committed file_id id_ok
  by unfold_locales
    (use apply_entry_correct [OF _ _ prod.collapse [symmetric]] in \<open>simp_all add: apply_committed_def\<close>)

section \<open>The log file\<close>

definition wal_sound :: "wal_env \<Rightarrow> bool" where
  "wal_sound e \<longleftrightarrow> (\<forall>k. alloc_ok e k) \<and> 40 \<le> write_hdr e \<and> 5400 \<le> write_data e \<and> \<not> fsync_fails e"

definition replay_sound :: "replay_env \<Rightarrow> bool" where
  "replay_sound e \<longleftrightarrow> (\<forall>n. \<not> malloc_null e n \<and> \<not> read_fails e n)"

text \<open>What the log says: sequence number, operation and entry of each record, read at the offsets
  the append code writes them to.\<close>

function log_records :: "byte list \<Rightarrow> (u64 \<times> u32 \<times> metadata_entry) list" where
  "log_records bs = (if length bs < 5440 then []
     else (u64_dec (slice 0 8 bs), u32_dec (slice 8 4 bs), entry_of_bytes (slice 40 5400 bs))
            # log_records (drop 5440 bs))"
  by pat_completeness auto
termination
  by (relation "measure length") auto

declare log_records.simps [simp del]

text \<open>Appending a list of operations one after the other, each with what the host answers and the
  address of its data.\<close>

type_synonym log_op = "wal_env \<times> u64 \<times> u32 \<times> metadata_entry"

fun append_all :: "log_op list \<Rightarrow> metadata_manager \<Rightarrow> metadata_manager" where
  "append_all [] m = m"
| "append_all ((e, ptr, op, x) # ops) m = append_all ops (snd (wal_append e ptr op x m))"

fun numbered :: "u64 \<Rightarrow> log_op list \<Rightarrow> (u64 \<times> u32 \<times> metadata_entry) list" where
  "numbered lsn [] = []"
| "numbered lsn ((e, ptr, op, x) # ops) = (lsn + 1, op, x) # numbered (lsn + 1) ops"

lemma length_wal_header [codec_simps]: "length (wal_header lsn op pd t ptr n) = 40"
  by (simp add: wal_header_def codec_simps)

lemma wal_header_fields [codec_simps]:
  "u64_dec (slice 0 8 (wal_header lsn op pd t ptr n)) = lsn"
  "u32_dec (slice 8 4 (wal_header lsn op pd t ptr n)) = op"
  "u64_dec (slice 32 8 (wal_header lsn op pd t ptr n)) = of_nat n"
  by (simp_all add: wal_header_def codec_simps)

lemma wal_append_sound:
  assumes "wal_sound e" "entry_ok x"
  shows "wal_append e ptr op x m = (current_lsn m + 1, m\<lparr>current_lsn := current_lsn m + 1,
     wal := wal m @ wal_header (current_lsn m + 1) op (hdr_pad e) (now e 2) ptr 5400 @ entry_bytes x\<rparr>)"
proof -
  have "take (nat (write_hdr e)) (wal_header lsn op pd t ptr n) = wal_header lsn op pd t ptr n" for lsn pd t n
    using assms(1) by (intro take_all) (simp add: wal_sound_def codec_simps le_nat_iff)
  moreover have "take (nat (write_data e)) (entry_bytes x) = entry_bytes x"
    using assms by (intro take_all) (simp add: wal_sound_def length_entry_bytes le_nat_iff)
  ultimately show ?thesis
    using assms by (simp add: wal_append_def metadata_serialize_def wal_sound_def Let_def length_entry_bytes)
qed

lemma log_records_append:
  "5440 dvd length a \<Longrightarrow> log_records (a @ b) = log_records a @ log_records b"
proof (induction a rule: log_records.induct)
  case (1 a)
  show ?case
  proof (cases "length a < 5440")
    case True
    with 1 have "a = []" using nat_dvd_not_less [of "length a" 5440] by auto
    then show ?thesis by (subst (2) log_records.simps) simp
  next
    case False
    then have l: "\<not> length (a @ b) < 5440" "drop 5440 (a @ b) = drop 5440 a @ b"
      "slice 0 8 (a @ b) = slice 0 8 a" "slice 8 4 (a @ b) = slice 8 4 a" "slice 40 5400 (a @ b) = slice 40 5400 a"
      by (simp_all add: slice_append1)
    have "5440 dvd length (drop 5440 a)" using "1.prems" False by (simp add: dvd_diff_nat)
    with 1 False have "log_records (drop 5440 a @ b) = log_records (drop 5440 a) @ log_records b" by simp
    with False l show ?thesis
      by (subst log_records.simps, subst (2) log_records.simps) simp
  qed
qed

lemma log_records_one:
  assumes "entry_ok x"
  shows "log_records (wal_header lsn op pd t ptr 5400 @ entry_bytes x) = [(lsn, op, x)]"
proof -
  have "log_records [] = []" by (subst log_records.simps) simp
  with assms show ?thesis
    by (subst log_records.simps) (simp add: codec_simps length_entry_bytes entry_codec.dec_enc)
qed

lemma append_all_records:
  assumes "\<forall>(e, ptr, op, x) \<in> set ops. wal_sound e \<and> entry_ok x" "5440 dvd length (wal m)"
  shows "log_records (wal (append_all ops m)) = log_records (wal m) @ numbered (current_lsn m) ops \<and>
    current_lsn (append_all ops m) = current_lsn m + of_nat (length ops)"
  using assms
proof (induction ops arbitrary: m)
  case (Cons a ops)
  obtain e ptr op x where a: "a = (e, ptr, op, x)" by (metis prod_cases4)
  with Cons.prems have x: "wal_sound e" "entry_ok x" by simp_all
  let ?m = "snd (wal_append e ptr op x m)"
  have m: "wal ?m = wal m @ wal_header (current_lsn m + 1) op (hdr_pad e) (now e 2) ptr 5400 @ entry_bytes x"
    "current_lsn ?m = current_lsn m + 1"
    by (simp_all add: wal_append_sound [OF x])
  have "5440 dvd length (wal ?m)"
    using Cons.prems(2) by (simp add: m codec_simps length_entry_bytes [OF x(2)])
  with Cons m show ?case
    by (simp add: a log_records_append log_records_one [OF x(2)] add.assoc)
qed simp

section \<open>Replay\<close>

lemma replay_record:
  assumes "replay_sound e" "length hdr = 48" "entry_ok x"
  shows "replay_loop e hdr lsn ((wal_header l op pd t ptr 5400 @ entry_bytes x) @ rest) =
    replay_loop e (wal_header l op pd t ptr 5400 @ drop 40 hdr)
      (if metadata_crc32 (entry_bytes x) = u32_dec (slice 40 4 hdr) then l else lsn) rest"
proof -
  let ?h = "wal_header l op pd t ptr 5400"
  have c: "slice 40 4 (?h @ drop 40 hdr) = slice 40 4 hdr"
    by (simp add: slice_append2 codec_simps slice_def)
  have n: "unat (u64_dec (slice 32 8 (?h @ drop 40 hdr))) = 5400" by (simp add: codec_simps)
  have "?h \<noteq> []" using length_wal_header [of l op pd t ptr 5400] by auto
  then show ?thesis
    using assms(1)
    by (subst replay_loop.simps)
      (simp add: replay_sound_def Let_def overwrite_def codec_simps length_entry_bytes [OF assms(3)] n [simplified] c)
qed

definition log_file :: "(u64 \<times> u32 \<times> u32 \<times> time_t \<times> u64 \<times> metadata_entry) list \<Rightarrow> byte list" where
  "log_file rs = concat (map (\<lambda>(l, op, pd, t, ptr, x). wal_header l op pd t ptr 5400 @ entry_bytes x) rs)"

lemma replay_log_file:
  assumes "replay_sound e" "length stack = 48" "\<forall>(l, op, pd, t, ptr, x) \<in> set rs. entry_ok x"
  shows "replay_loop e stack lsn (log_file rs) =
    Replayed (foldl (\<lambda>acc (l, op, pd, t, ptr, x).
      if metadata_crc32 (entry_bytes x) = u32_dec (slice 40 4 stack) then l else acc) lsn rs)"
  using assms(2,3)
proof (induction rs arbitrary: stack lsn)
  case Nil
  then show ?case using assms(1) by (subst replay_loop.simps) (simp add: log_file_def replay_sound_def)
next
  case (Cons r rs)
  obtain l op pd t ptr x where r: "r = (l, op, pd, t, ptr, x)" by (metis prod_cases6)
  with Cons.prems have x: "entry_ok x" by simp
  let ?s = "wal_header l op pd t ptr 5400 @ drop 40 stack"
  have s: "length ?s = 48" "slice 40 4 ?s = slice 40 4 stack"
    using Cons.prems(1) by (simp_all add: codec_simps slice_def)
  have fl: "log_file (r # rs) = (wal_header l op pd t ptr 5400 @ entry_bytes x) @ log_file rs"
    by (simp add: log_file_def r)
  have IH: "replay_loop e ?s k (log_file rs) = Replayed (foldl (\<lambda>acc (l, op, pd, t, ptr, x).
      if metadata_crc32 (entry_bytes x) = u32_dec (slice 40 4 stack) then l else acc) k rs)" for k
    using Cons.IH [OF s(1), of k] Cons.prems(2) unfolding s(2) by simp
  show ?case
    unfolding fl replay_record [OF assms(1) Cons.prems(1) x] IH by (simp add: r)
qed

section \<open>A concrete entry\<close>

definition demo_entry :: "string \<Rightarrow> u64 \<Rightarrow> metadata_entry" where
  "demo_entry k sz = \<lparr>file_id = k, fpath = ''/a'', fstate = 1, fsize = sz, fmode = 0x81A4, fuid = 0, fgid = 0,
     created_time = 5, modified_time = 5, accessed_time = 5, storage_nodes = replicate 16 0,
     storage_node_ips = replicate 16 [], storage_node_ports = replicate 16 0, num_storage_nodes = 0,
     primary_node_idx = 0, version = 1, stripe_size = 4194304, num_replicas = 0\<rparr>"

definition demo_wal_env :: wal_env where
  "demo_wal_env = \<lparr>now = (\<lambda>_. 5), hdr_pad = 7, alloc_ok = (\<lambda>_. True), write_hdr = 40, write_data = 5400, fsync_fails = False\<rparr>"

definition demo_replay_env :: replay_env where
  "demo_replay_env = \<lparr>malloc_null = (\<lambda>_. False), read_fails = (\<lambda>_. False), junk = (\<lambda>_. 0)\<rparr>"

lemma demo_entry_ok [simp]: "entry_ok (demo_entry ''1_5'' sz)" "id_ok (demo_entry ''1_5'' sz)"
  "id_ok (demo_entry ''2_5'' sz)" "wal_sound demo_wal_env" "replay_sound demo_replay_env"
  by (simp_all add: demo_entry_def entry_ok_def id_ok_def cbuf_ok_def wal_sound_def demo_wal_env_def
      replay_sound_def demo_replay_env_def)

lemma empty_manager_ok [simp]: "mgr_inv (empty_manager f)" "totals_ok (empty_manager f)" "meta_map (empty_manager f) = Map.empty"
  by (auto simp: mgr_inv_def totals_ok_def node_addrs_def meta_map_def empty_manager_def metadata_lookup_def bucket_find_def)

section \<open>Properties\<close>

text \<open>C21: a metadata entry whose strings fit their arrays is serialized to 5400 bytes from which
  deserialization restores it exactly.\<close>

theorem entry_roundtrip:
  assumes "entry_ok x" "metadata_serialize True x = Some bs"
  shows "length bs = 5400 \<and> metadata_deserialize True bs = Inr x"
  using assms by (auto simp: metadata_serialize_def length_entry_bytes metadata_deserialize_bytes)

theorem entry_roundtrip_witness:
  "\<exists>bs. metadata_serialize True (demo_entry ''1_5'' 9) = Some bs \<and> metadata_deserialize True bs = Inr (demo_entry ''1_5'' 9)"
  using entry_roundtrip [of "demo_entry ''1_5'' 9"] by (simp add: metadata_serialize_def)

text \<open>C22: applying a committed entry changes the table at its file id only, to exactly that
  entry, whether the id was present or not, and keeps the statistics right: the number of
  entries and the sum of their sizes.\<close>

theorem apply_refines_map:
  assumes "mgr_inv m" "id_ok x" "metadata_apply_entry True x m = (rc, m')"
  shows "rc = 0 \<and> mgr_inv m' \<and> meta_map m' = (meta_map m)(file_id x \<mapsto> x) \<and> wal m' = wal m \<and>
    (totals_ok m \<longrightarrow> totals_ok m')"
  by (rule apply_entry_correct [OF assms])

theorem apply_refines_map_witness:
  "\<exists>m'. metadata_apply_entry True (demo_entry ''1_5'' 9) (empty_manager []) = (0, m') \<and>
     meta_map m' = [''1_5'' \<mapsto> demo_entry ''1_5'' 9] \<and> totals_ok m'"
proof -
  obtain rc m' where r: "metadata_apply_entry True (demo_entry ''1_5'' 9) (empty_manager []) = (rc, m')" by fastforce
  have "file_id (demo_entry ''1_5'' 9) = ''1_5''" by (simp add: demo_entry_def)
  with apply_refines_map [OF _ _ r] r show ?thesis by simp
qed

text \<open>Replicas that start from the same table and apply the same committed entries have the
  same table, whatever their bucket chains look like; an id holds the last entry applied for it.\<close>

theorem replicas_agree:
  assumes "mgr_inv s" "mgr_inv t" "meta_map s = meta_map t" "\<forall>x \<in> set xs. id_ok x"
  shows "meta_map (fold apply_committed xs s) = meta_map (fold apply_committed xs t) \<and>
    meta_map (fold apply_committed xs s) k =
      (case find (\<lambda>x. file_id x = k) (rev xs) of None \<Rightarrow> meta_map s k | Some x \<Rightarrow> Some x)"
  using meta.same_puts_agree [OF assms] meta.look_puts [OF assms(1,4)] by blast

theorem replicas_agree_witness:
  "meta_map (fold apply_committed [demo_entry ''1_5'' 1, demo_entry ''2_5'' 2, demo_entry ''1_5'' 3] (empty_manager [])) ''1_5''
     = Some (demo_entry ''1_5'' 3)"
proof -
  have "file_id (demo_entry k n) = k" for k n by (simp add: demo_entry_def)
  with replicas_agree [of "empty_manager []" "empty_manager []"
      "[demo_entry ''1_5'' 1, demo_entry ''2_5'' 2, demo_entry ''1_5'' 3]" "''1_5''"]
  show ?thesis by simp
qed

text \<open>The checksum detects every corruption of a single byte: changing one byte of the data
  always changes its CRC.\<close>

theorem crc_detects_byte_change:
  assumes "i < length data" "b \<noteq> data ! i"
  shows "metadata_crc32 (data[i := b]) \<noteq> metadata_crc32 data"
  by (rule crc_single_byte [OF assms])

theorem crc_detects_byte_change_witness: "metadata_crc32 [1, 7, 3] \<noteq> metadata_crc32 [1, 2, 3]"
  using crc_detects_byte_change [of 1 "[1, 2, 3]" 7] by simp

text \<open>C36: the log is faithful on a host without failures: when the log so far is a sequence of whole
  records (its length is a multiple of 5440), every entry appended is well formed, and each append
  can allocate, has both its writes taken completely and its \<^verbatim>\<open>fsync\<close> succeed, then after any
  sequence of operations the records in the log file are the earlier records followed by the
  operations in order, each with its entry intact and consecutive sequence numbers. (After a failed
  or short write the log has a gap or a torn record: the code advances the number before it writes
  and takes a short write as success.)\<close>

theorem wal_log_faithful:
  assumes "\<forall>(e, ptr, op, x) \<in> set ops. wal_sound e \<and> entry_ok x" "5440 dvd length (wal m)"
  shows "log_records (wal (append_all ops m)) = log_records (wal m) @ numbered (current_lsn m) ops \<and>
    current_lsn (append_all ops m) = current_lsn m + of_nat (length ops)"
  by (rule append_all_records [OF assms])

theorem wal_log_faithful_witness:
  "log_records (wal (append_all
     [(demo_wal_env, 0, WAL_OP_CREATE, demo_entry ''1_5'' 1), (demo_wal_env, 8, WAL_OP_UPDATE, demo_entry ''1_5'' 2)]
     (empty_manager []))) = [(1, WAL_OP_CREATE, demo_entry ''1_5'' 1), (2, WAL_OP_UPDATE, demo_entry ''1_5'' 2)]"
proof -
  have "log_records [] = []" by (subst log_records.simps) simp
  moreover have "wal (empty_manager []) = []" "current_lsn (empty_manager []) = 0" by (simp_all add: empty_manager_def)
  ultimately show ?thesis
    using wal_log_faithful [of "[(demo_wal_env, 0, WAL_OP_CREATE, demo_entry ''1_5'' 1),
        (demo_wal_env, 8, WAL_OP_UPDATE, demo_entry ''1_5'' 2)]" "empty_manager []"]
    by simp
qed

text \<open>Replay ends on every well-formed log, but the checksum it compares with is not in the
  log: the header that is written and read back stops before the checksum member, so each
  record is checked against the four bytes the uninitialised variable happens to hold, and the
  sequence number is recovered only from records whose CRC is equal to them.\<close>

theorem replay_checks_stack_garbage:
  assumes "replay_sound e" "length stack = 48" "\<forall>(l, op, pd, t, ptr, x) \<in> set rs. entry_ok x"
  shows "replay_loop e stack lsn (log_file rs) =
    Replayed (foldl (\<lambda>acc (l, op, pd, t, ptr, x).
      if metadata_crc32 (entry_bytes x) = u32_dec (slice 40 4 stack) then l else acc) lsn rs)"
  by (rule replay_log_file [OF assms])

theorem replay_checks_stack_garbage_witness:
  "replay_loop demo_replay_env (replicate 40 0 @ u32_enc (NOT (metadata_crc32 (entry_bytes (demo_entry ''1_5'' 1)))) @ replicate 4 0)
     0 (log_file [(1, WAL_OP_CREATE, 7, 5, 0, demo_entry ''1_5'' 1)]) = Replayed 0"
proof -
  let ?c = "metadata_crc32 (entry_bytes (demo_entry ''1_5'' 1))"
  let ?s = "replicate 40 0 @ u32_enc (NOT ?c) @ replicate 4 0"
  have s: "length ?s = 48" "u32_dec (slice 40 4 ?s) = NOT ?c" by (simp_all add: codec_simps)
  have "?c \<noteq> NOT ?c"
  proof
    assume "?c = NOT ?c"
    then have "bit ?c 0 = bit (NOT ?c) 0" by simp
    then show False by (simp add: bit_not_iff)
  qed
  with replay_checks_stack_garbage [OF demo_entry_ok(5) s(1), of "[(1, WAL_OP_CREATE, 7, 5, 0, demo_entry ''1_5'' 1)]" 0]
  show ?thesis unfolding s(2) by simp
qed

text \<open>Nothing is recovered from the log: after a restart the table is empty for every log
  file on which initialisation returns, because replay discards what it decodes.\<close>

theorem recovery_restores_nothing:
  assumes "metadata_manager_init e stack True True f = Some (Some m)"
  shows "meta_map m = Map.empty \<and> (\<forall>p. metadata_lookup_by_path m p = None) \<and> total_entries m = 0 \<and> wal m = f"
proof -
  obtain lsn where m: "m = (empty_manager f)\<lparr>current_lsn := lsn\<rparr>"
    using assms by (auto simp: metadata_manager_init_def wal_replay_def split: option.splits replay_result.splits)
  then show ?thesis
    by (auto simp: m meta_map_def metadata_lookup_def metadata_lookup_by_path_def empty_manager_def bucket_find_def
        find_None_iff)
qed

theorem recovery_restores_nothing_witness:
  "\<exists>m. metadata_manager_init demo_replay_env (replicate 48 0) True True (log_file [(1, WAL_OP_CREATE, 7, 5, 0, demo_entry ''1_5'' 1)])
     = Some (Some m) \<and> meta_map m = Map.empty"
proof -
  let ?f = "log_file [(1, WAL_OP_CREATE, 7, 5, 0, demo_entry ''1_5'' 1)]"
  have "\<exists>lsn. replay_loop demo_replay_env (replicate 48 0) 0 ?f = Replayed lsn"
    using replay_log_file [OF demo_entry_ok(5), of "replicate 48 0" "[(1, WAL_OP_CREATE, 7, 5, 0, demo_entry ''1_5'' 1)]" 0]
    by simp
  then obtain m where m: "metadata_manager_init demo_replay_env (replicate 48 0) True True ?f = Some (Some m)"
    by (auto simp: metadata_manager_init_def wal_replay_def empty_manager_def)
  with recovery_restores_nothing [OF m] show ?thesis by blast
qed

section \<open>Further defects\<close>

text \<open>Deleting an entry that is already deleted decrements the counters again; with one entry in
  the table the count wraps around.\<close>

theorem double_delete_wraps:
  assumes "mgr_inv m" "wal_sound e" "entry_ok (heap m a)" "metadata_lookup m k = Some a" "total_entries m = 1"
    "current_lsn m + 1 \<noteq> UINT64_MAX" "current_lsn m + 2 \<noteq> UINT64_MAX"
  shows "\<exists>m1 m2. metadata_delete_entry e p k m = (0, m1) \<and> metadata_delete_entry e p k m1 = (0, m2) \<and>
    total_entries m2 = UINT64_MAX"
proof -
  have ok: "entry_ok ((heap m a)\<lparr>fstate := FILE_STATE_DELETED\<rparr>)" using assms(3) by (simp add: entry_ok_def)
  note w = wal_append_sound [OF assms(2) ok]
  let ?m1 = "snd (metadata_delete_entry e p k m)"
  have d1: "metadata_delete_entry e p k m = (0, ?m1)" "total_entries ?m1 = 0" "metadata_lookup ?m1 k = Some a"
    "heap ?m1 a = (heap m a)\<lparr>fstate := FILE_STATE_DELETED\<rparr>" "current_lsn ?m1 = current_lsn m + 1"
    using assms(4-6) by (simp_all add: metadata_delete_entry_def w metadata_lookup_def Let_def)
  then have "metadata_delete_entry e p k ?m1 = (0, snd (metadata_delete_entry e p k ?m1))"
    "total_entries (snd (metadata_delete_entry e p k ?m1)) = UINT64_MAX"
    using assms(7) by (simp_all add: metadata_delete_entry_def w Let_def)
  with d1(1) show ?thesis by blast
qed

text \<open>The record of an update is written before the version is advanced, so the log holds the
  old version.\<close>

theorem update_logs_old_version:
  assumes "wal_sound e" "entry_ok (heap m a)" "5440 dvd length (wal m)" "current_lsn m + 1 \<noteq> UINT64_MAX"
    "metadata_update_entry e p a m = (rc, m')"
  shows "rc = 0 \<and> last (log_records (wal m')) = (current_lsn m + 1, WAL_OP_UPDATE, heap m a) \<and>
    version (heap m' a) = version (heap m a) + 1"
  using assms(3-5)
  by (auto simp: metadata_update_entry_def wal_append_sound [OF assms(1,2)] log_records_append log_records_one [OF assms(2)])

text \<open>File ids are a hash of the path modulo 1024 and the time in seconds: different paths can
  get the same id.\<close>

theorem file_ids_collide: "new_file_id ''/ab'' t = new_file_id ''/bA'' t"
proof -
  have "hash_string ''/ab'' = hash_string ''/bA''"
    by (simp add: hash_string_def char_int_def)
  then show ?thesis by (simp add: new_file_id_def)
qed

end
