(* ===== verification/Id_Table.thy ===== *)
theory Id_Table
  imports Fused_Prelude
begin

text \<open>
  The network engine's peers and the storage interface's nodes are kept the same way: a fixed
  array with a count, a new record put after the last one, a record removed by shifting the
  later ones left. \<open>id_registry\<close> is the contract of such a table on the list of its ids; the
  lemmas about arrays discharge it for both.
\<close>

section \<open>The array\<close>

definition tbl_ids :: "('r \<Rightarrow> 'k) \<Rightarrow> nat \<Rightarrow> 'r arr \<Rightarrow> 'k list" where
  "tbl_ids key n a = map key (arr_take n a)"

definition tbl_find :: "('r \<Rightarrow> 'k) \<Rightarrow> nat \<Rightarrow> 'r arr \<Rightarrow> 'k \<Rightarrow> nat option" where
  "tbl_find key n a k = find_idx n (\<lambda>i. key (a i) = k)"

lemma length_tbl_ids [simp]: "length (tbl_ids key n a) = n"
  by (simp add: tbl_ids_def)

lemma tbl_find_None_iff: "tbl_find key n a k = None \<longleftrightarrow> k \<notin> set (tbl_ids key n a)"
  by (auto simp: tbl_find_def find_idx_None_iff tbl_ids_def set_arr_take)

lemma tbl_ids_add: "tbl_ids key (Suc n) (a(n := r)) = tbl_ids key n a @ [key r]"
  by (simp add: tbl_ids_def arr_simps)

lemma remove1_nth:
  assumes "i < length xs" "xs ! i = x" "\<forall>j<i. xs ! j \<noteq> x"
  shows "remove1 x xs = remove_nth i xs"
proof -
  have "x \<notin> set (take i xs)" using assms by (auto simp: in_set_conv_nth)
  moreover have "xs = take i xs @ x # drop (Suc i) xs"
    using id_take_nth_drop [OF assms(1)] assms(2) by simp
  ultimately show ?thesis
    by (metis remove1_append remove1.simps(2) remove_nth_def)
qed

lemma tbl_ids_remove:
  assumes "tbl_find key n a k = Some i"
  shows "tbl_ids key (n - 1) (shift_left i n a) = remove1 k (tbl_ids key n a)" "k \<in> set (tbl_ids key n a)"
proof -
  from assms have i: "i < n" "key (a i) = k" "\<forall>j<i. key (a j) \<noteq> k"
    by (auto simp: tbl_find_def find_idx_Some_iff)
  have "remove1 k (tbl_ids key n a) = remove_nth i (tbl_ids key n a)"
    by (rule remove1_nth) (use i in \<open>auto simp: tbl_ids_def\<close>)
  then show "tbl_ids key (n - 1) (shift_left i n a) = remove1 k (tbl_ids key n a)"
    using arr_take_shift_left [OF i(1), of a] by (simp add: tbl_ids_def map_remove_nth)
  show "k \<in> set (tbl_ids key n a)" using i by (auto simp: tbl_ids_def set_arr_take)
qed

lemma tbl_ids_update:
  "key r = key (a i) \<Longrightarrow> tbl_ids key n (a(i := r)) = tbl_ids key n a"
  unfolding tbl_ids_def by (rule nth_equalityI) auto

section \<open>The contract\<close>

locale id_registry =
  fixes ids :: "'t \<Rightarrow> 'k list" and enroll :: "'x \<Rightarrow> 't \<Rightarrow> 't option" and withdraw :: "'k \<Rightarrow> 't \<Rightarrow> 't option"
    and key :: "'x \<Rightarrow> 'k" and room :: "'t \<Rightarrow> nat"
  assumes enroll_ids: "enroll x t = Some t' \<Longrightarrow> ids t' = ids t @ [key x] \<and> room t' = room t"
    and enroll_full: "enroll x t = None \<longleftrightarrow> room t \<le> length (ids t)"
    and withdraw_ids: "withdraw k t = Some t' \<Longrightarrow> ids t' = remove1 k (ids t) \<and> room t' = room t"
    and withdraw_missing: "withdraw k t = None \<longleftrightarrow> k \<notin> set (ids t)"
begin

definition fits :: "'t \<Rightarrow> bool" where
  "fits t \<longleftrightarrow> length (ids t) \<le> room t"

lemma enroll_fits: "enroll x t = Some t' \<Longrightarrow> fits t'"
  using enroll_ids [of x t t'] enroll_full [of x t] by (auto simp: fits_def)

lemma withdraw_fits: "fits t \<Longrightarrow> withdraw k t = Some t' \<Longrightarrow> fits t'"
  using withdraw_ids [of k t t'] by (auto simp: fits_def length_remove1)

lemma enroll_distinct:
  "enroll x t = Some t' \<Longrightarrow> distinct (ids t) \<Longrightarrow> key x \<notin> set (ids t) \<Longrightarrow> distinct (ids t')"
  by (simp add: enroll_ids)

lemma withdraw_gone: "distinct (ids t) \<Longrightarrow> withdraw k t = Some t' \<Longrightarrow> withdraw k t' = None \<and> distinct (ids t')"
  using withdraw_ids [of k t t'] withdraw_missing [of k t'] by (simp add: distinct_remove1)

lemma withdraw_others: "withdraw k t = Some t' \<Longrightarrow> k' \<noteq> k \<Longrightarrow> k' \<in> set (ids t') \<longleftrightarrow> k' \<in> set (ids t)"
  using withdraw_ids [of k t t'] by simp

lemma enroll_withdraw:
  assumes "enroll x t = Some t'" "key x \<notin> set (ids t)"
  shows "\<exists>t''. withdraw (key x) t' = Some t'' \<and> ids t'' = ids t"
proof -
  have t': "ids t' = ids t @ [key x]" using enroll_ids [OF assms(1)] by simp
  then obtain t'' where w: "withdraw (key x) t' = Some t''"
    using withdraw_missing [of "key x" t'] by fastforce
  have "ids t'' = ids t"
    using withdraw_ids [OF w] t' assms(2) by (simp add: remove1_append)
  with w show ?thesis by blast
qed

text \<open>An id enrolled twice is still present after it has been withdrawn once.\<close>

lemma duplicate_survives:
  assumes "enroll x t = Some t'" "key x \<in> set (ids t)" "withdraw (key x) t' = Some t''"
  shows "key x \<in> set (ids t'')"
  using enroll_ids [OF assms(1)] withdraw_ids [OF assms(3)] assms(2) by (simp add: remove1_append)

end

end
