(* ===== verification/Network.thy ===== *)
theory Network
  imports Byte_Codec Id_Table
begin

text \<open>
  The network engine: \<^verbatim>\<open>distributed_core/include/network_engine.h\<close> and
  \<^verbatim>\<open>distributed_core/src/network_engine.c\<close>. Sockets are integers; what the operating system answers
  (\<^verbatim>\<open>socket\<close>, name resolution, \<^verbatim>\<open>connect\<close>, \<^verbatim>\<open>send\<close>, \<^verbatim>\<open>recv\<close>, \<^verbatim>\<open>accept\<close>, \<^verbatim>\<open>poll\<close>, \<^verbatim>\<open>malloc\<close>) are arguments,
  and what the engine does to it (bytes sent, sockets closed, payloads handed to the message
  handler) is the list of \<open>net_effect\<close>. This theory holds the definitions.
\<close>

section \<open>Data\<close>

abbreviation MAX_PEERS :: nat where "MAX_PEERS \<equiv> 32"
abbreviation MAX_PENDING_CONNECTIONS :: nat where "MAX_PENDING_CONNECTIONS \<equiv> 128"
abbreviation RECV_BUFFER_SIZE :: nat where "RECV_BUFFER_SIZE \<equiv> 65536"
abbreviation MAX_POLL_FDS :: nat where "MAX_POLL_FDS \<equiv> 128"
abbreviation MAGIC_NUMBER :: u32 where "MAGIC_NUMBER \<equiv> 0xFEEDFACE"
abbreviation MSG_TYPE_PAXOS :: u32 where "MSG_TYPE_PAXOS \<equiv> 1"

record message_header =
  magic :: u32
  mtype :: u32
  hdr_sender_id :: u32
  hdr_sequence :: u32
  payload_len :: u32
  checksum :: u32

record network_message =
  header :: message_header
  payload :: "byte list option"

record peer_connection =
  peer_id :: u32
  ip_address :: string
  port :: u16
  socket_fd :: int
  connected :: bool
  last_heartbeat :: time_t

record network_engine =
  self_id :: u32
  listen_port :: u16
  listen_fd :: int
  peers :: "peer_connection arr"
  num_peers :: nat
  inbound_fds :: "int arr"
  num_inbound_fds :: nat
  running :: bool
  message_handler :: bool
  send_sequence :: u32
  messages_sent :: u64
  messages_received :: u64
  bytes_sent :: u64
  bytes_received :: u64

datatype net_effect =
    Closed int
  | Sent int "byte list"
  | Handled u32 u32 "byte list option" u32

text \<open>Answers to one connection attempt and one \<^verbatim>\<open>send\<close> (-1 or the number of bytes taken).\<close>

record net_env =
  socket_result :: int
  resolves :: bool
  connect_ok :: bool
  clock :: time_t
  buffer_ok :: bool
  send_result :: int

datatype recv_result = Recv "byte list" | Recv_closed | Recv_again | Recv_error

datatype poll_result = Poll_failed | Poll_interrupted | Poll_timeout | Poll_ready

section \<open>Messages\<close>

definition header_bytes :: "message_header \<Rightarrow> byte list" where
  "header_bytes h = u32_enc (magic h) @ u32_enc (mtype h) @ u32_enc (hdr_sender_id h)
     @ u32_enc (hdr_sequence h) @ u32_enc (payload_len h) @ u32_enc (checksum h)"

definition header_of_bytes :: "byte list \<Rightarrow> message_header" where
  "header_of_bytes bs = \<lparr>magic = u32_dec (slice 0 4 bs), mtype = u32_dec (slice 4 4 bs),
     hdr_sender_id = u32_dec (slice 8 4 bs), hdr_sequence = u32_dec (slice 12 4 bs),
     payload_len = u32_dec (slice 16 4 bs), checksum = u32_dec (slice 20 4 bs)\<rparr>"

datatype net_error = Net_invalid | Net_nomem | Net_out_of_bounds

definition network_serialize_message :: "bool \<Rightarrow> network_message \<Rightarrow> net_error + byte list" where
  "network_serialize_message malloc_ok msg =
     (if \<not> malloc_ok then Inl Net_nomem
      else let n = unat (payload_len (header msg)) in
        if n > 0
        then case payload msg of
               None \<Rightarrow> Inl Net_out_of_bounds
             | Some p \<Rightarrow> if n > length p then Inl Net_out_of_bounds
                         else Inr (header_bytes (header msg) @ take n p)
        else Inr (header_bytes (header msg)))"

text \<open>\<open>buffer\<close> is the whole receive buffer, of which the first \<open>len\<close> bytes were received.\<close>

definition network_deserialize_message :: "bool \<Rightarrow> byte list \<Rightarrow> nat \<Rightarrow> net_error + network_message" where
  "network_deserialize_message malloc_ok buffer len =
     (if len < 24 then Inl Net_invalid
      else let h = header_of_bytes buffer; n = unat (payload_len h) in
        if magic h \<noteq> MAGIC_NUMBER then Inl Net_invalid
        else if n > 0
        then if \<not> malloc_ok then Inl Net_nomem
             else if 24 + n > length buffer then Inl Net_out_of_bounds
             else Inr \<lparr>header = h, payload = Some (slice 24 n buffer)\<rparr>
        else Inr \<lparr>header = h, payload = None\<rparr>)"

section \<open>Life cycle\<close>

definition network_engine_init :: "u32 \<Rightarrow> u16 \<Rightarrow> bool \<Rightarrow> bool \<Rightarrow> network_engine option" where
  "network_engine_init nid lport handler calloc_ok =
     (if \<not> calloc_ok then None
      else Some \<lparr>self_id = nid, listen_port = lport, listen_fd = - 1,
        peers = (\<lambda>_. \<lparr>peer_id = 0, ip_address = [], port = 0, socket_fd = - 1, connected = False, last_heartbeat = 0\<rparr>),
        num_peers = 0, inbound_fds = (\<lambda>_. 0), num_inbound_fds = 0, running = False, message_handler = handler,
        send_sequence = 0, messages_sent = 0, messages_received = 0, bytes_sent = 0, bytes_received = 0\<rparr>)"

definition network_engine_start ::
  "int \<Rightarrow> bool \<Rightarrow> bool \<Rightarrow> bool \<Rightarrow> network_engine \<Rightarrow> int \<times> net_effect list \<times> network_engine" where
  "network_engine_start fd bind_ok listen_ok thread_ok eng =
     (if running eng then (- 1, [], eng)
      else let e1 = eng\<lparr>listen_fd := fd\<rparr> in
        if fd < 0 then (- 1, [], e1)
        else if \<not> bind_ok then (- 1, [Closed fd], e1)
        else if \<not> listen_ok then (- 1, [Closed fd], e1)
        else if \<not> thread_ok then (- 1, [Closed fd], e1\<lparr>running := False\<rparr>)
        else (0, [], e1\<lparr>running := True\<rparr>))"

definition network_engine_stop :: "network_engine \<Rightarrow> network_engine" where
  "network_engine_stop eng = eng\<lparr>running := False\<rparr>"

definition network_engine_destroy :: "network_engine \<Rightarrow> net_effect list" where
  "network_engine_destroy eng =
     map Closed (filter (\<lambda>fd. fd \<ge> 0)
       (listen_fd eng # map (\<lambda>i. socket_fd (peers eng i)) [0..<MAX_PEERS] @ arr_take (num_inbound_fds eng) (inbound_fds eng)))"

section \<open>Peers\<close>

definition upd_peer :: "nat \<Rightarrow> (peer_connection \<Rightarrow> peer_connection) \<Rightarrow> network_engine \<Rightarrow> network_engine" where
  "upd_peer i f eng = eng\<lparr>peers := (peers eng)(i := f (peers eng i))\<rparr>"

definition network_connect_peer :: "net_env \<Rightarrow> peer_connection \<Rightarrow> int \<times> net_effect list \<times> peer_connection" where
  "network_connect_peer e p =
     (if socket_result e < 0 then (- 1, [], p)
      else if \<not> resolves e then (- 1, [Closed (socket_result e)], p)
      else if \<not> connect_ok e then (- 1, [Closed (socket_result e)], p)
      else (0, [], p\<lparr>socket_fd := socket_result e, connected := True, last_heartbeat := clock e\<rparr>))"

definition network_engine_add_peer ::
  "net_env \<Rightarrow> u32 \<Rightarrow> string \<Rightarrow> u16 \<Rightarrow> network_engine \<Rightarrow> int \<times> net_effect list \<times> network_engine" where
  "network_engine_add_peer e nid ip prt eng =
     (if num_peers eng \<ge> MAX_PEERS then (- 1, [], eng)
      else let p0 = (peers eng (num_peers eng))\<lparr>peer_id := nid, ip_address := strncpy0 ip 63, port := prt,
                       connected := False, socket_fd := - 1\<rparr>;
               (rc, effs, p1) = network_connect_peer e p0
        in (0, effs, eng\<lparr>peers := (peers eng)(num_peers eng := p1), num_peers := num_peers eng + 1\<rparr>))"

definition find_peer :: "network_engine \<Rightarrow> u32 \<Rightarrow> nat option" where
  "find_peer eng nid = tbl_find peer_id (num_peers eng) (peers eng) nid"

definition payload_sum :: "byte list \<Rightarrow> u32" where
  "payload_sum bs = foldl (\<lambda>acc b. acc + ucast b) 0 bs"

definition network_engine_send ::
  "net_env \<Rightarrow> u32 \<Rightarrow> u32 \<Rightarrow> byte list \<Rightarrow> network_engine \<Rightarrow> int \<times> net_effect list \<times> network_engine" where
  "network_engine_send e nid ty pl eng =
     (case find_peer eng nid of
        None \<Rightarrow> (- 1, [], eng)
      | Some i \<Rightarrow>
         let (rc, effs, p) = (if \<not> connected (peers eng i) \<or> socket_fd (peers eng i) < 0
                              then network_connect_peer e (peers eng i) else (0, [], peers eng i));
             e1 = upd_peer i (\<lambda>_. p) eng
         in if rc \<noteq> 0 then (- 1, effs, e1)
            else if \<not> connected p then (- 1, effs, e1)
            else let e2 = e1\<lparr>send_sequence := send_sequence e1 + 1\<rparr>;
                     msg = \<lparr>header = \<lparr>magic = MAGIC_NUMBER, mtype = ty, hdr_sender_id = self_id eng,
                              hdr_sequence = send_sequence e1, payload_len = of_nat (length pl),
                              checksum = payload_sum pl\<rparr>, payload = Some pl\<rparr>
                 in case network_serialize_message (buffer_ok e) msg of
                      Inl err \<Rightarrow> (- 1, effs, e2)
                    | Inr buf \<Rightarrow>
                        if send_result e < 0
                        then (- 1, effs @ (if socket_fd p \<ge> 0 then [Closed (socket_fd p)] else []),
                              upd_peer i (\<lambda>p. p\<lparr>socket_fd := - 1, connected := False\<rparr>) e2)
                        else (0, effs @ [Sent (socket_fd p) (take (nat (send_result e)) buf)],
                              e2\<lparr>messages_sent := messages_sent e2 + 1,
                                 bytes_sent := bytes_sent e2 + word_of_int (send_result e)\<rparr>))"

text \<open>The answers to the \<open>k\<close>-th send of a broadcast are \<open>es k\<close>.\<close>

fun broadcast_loop ::
  "(nat \<Rightarrow> net_env) \<Rightarrow> nat \<Rightarrow> u32 list \<Rightarrow> u32 \<Rightarrow> byte list \<Rightarrow> network_engine \<Rightarrow> nat \<times> net_effect list \<times> network_engine" where
  "broadcast_loop es k [] ty pl eng = (0, [], eng)"
| "broadcast_loop es k (nid # nids) ty pl eng =
     (let (rc, effs, e1) = network_engine_send (es k) nid ty pl eng;
          (n, effs', e2) = broadcast_loop es (Suc k) nids ty pl e1
      in ((if rc = 0 then Suc n else n), effs @ effs', e2))"

definition network_engine_broadcast ::
  "(nat \<Rightarrow> net_env) \<Rightarrow> u32 \<Rightarrow> byte list \<Rightarrow> network_engine \<Rightarrow> nat \<times> net_effect list \<times> network_engine" where
  "network_engine_broadcast es ty pl eng =
     broadcast_loop es 0 (tbl_ids peer_id (min (num_peers eng) MAX_PEERS) (peers eng)) ty pl eng"

definition network_engine_is_peer_connected :: "network_engine \<Rightarrow> u32 \<Rightarrow> bool" where
  "network_engine_is_peer_connected eng nid =
     (case find_peer eng nid of None \<Rightarrow> False | Some i \<Rightarrow> connected (peers eng i))"

definition network_engine_remove_peer :: "u32 \<Rightarrow> network_engine \<Rightarrow> int \<times> net_effect list \<times> network_engine" where
  "network_engine_remove_peer nid eng =
     (case find_peer eng nid of
        None \<Rightarrow> (- 1, [], eng)
      | Some i \<Rightarrow>
         (0, (if socket_fd (peers eng i) \<ge> 0 then [Closed (socket_fd (peers eng i))] else []),
          eng\<lparr>peers := shift_left i (num_peers eng) (peers eng), num_peers := num_peers eng - 1\<rparr>))"

definition network_engine_get_connected_peers :: "network_engine \<Rightarrow> nat \<Rightarrow> u32 list" where
  "network_engine_get_connected_peers eng max_peers =
     take max_peers (map peer_id (filter connected (arr_take (num_peers eng) (peers eng))))"

section \<open>Event loop\<close>

definition network_remove_inbound_fd :: "int \<Rightarrow> network_engine \<Rightarrow> network_engine" where
  "network_remove_inbound_fd fd eng =
     (if fd < 0 then eng
      else case find_idx (num_inbound_fds eng) (\<lambda>i. inbound_fds eng i = fd) of
             None \<Rightarrow> eng
           | Some i \<Rightarrow> eng\<lparr>inbound_fds := shift_left i (num_inbound_fds eng) (inbound_fds eng),
                          num_inbound_fds := num_inbound_fds eng - 1\<rparr>)"

definition poll_set :: "network_engine \<Rightarrow> int list" where
  "poll_set eng = listen_fd eng # take (MAX_POLL_FDS - 1)
     (map socket_fd (filter (\<lambda>p. connected p \<and> socket_fd p \<ge> 0) (arr_take (num_peers eng) (peers eng)))
      @ filter (\<lambda>fd. fd \<ge> 0) (arr_take (num_inbound_fds eng) (inbound_fds eng)))"

definition accept_connection :: "int \<Rightarrow> network_engine \<Rightarrow> net_effect list \<times> network_engine" where
  "accept_connection client_fd eng =
     (if client_fd < 0 then ([], eng)
      else if num_inbound_fds eng < MAX_PENDING_CONNECTIONS
      then ([], eng\<lparr>inbound_fds := (inbound_fds eng)(num_inbound_fds eng := client_fd),
                    num_inbound_fds := num_inbound_fds eng + 1\<rparr>)
      else ([Closed client_fd], eng))"

definition drop_connection :: "int \<Rightarrow> network_engine \<Rightarrow> network_engine" where
  "drop_connection fd eng =
     (let e1 = network_remove_inbound_fd fd eng in
      case find_idx (num_peers e1) (\<lambda>j. socket_fd (peers e1 j) = fd) of
        None \<Rightarrow> e1
      | Some j \<Rightarrow> upd_peer j (\<lambda>p. p\<lparr>connected := False, socket_fd := - 1\<rparr>) e1)"

text \<open>One readable socket; \<open>buf\<close> is the receive buffer, kept from one \<^verbatim>\<open>recv\<close> to the next. \<^term>\<open>None\<close> is a
  read beyond the buffer.\<close>

definition handle_readable ::
  "bool \<Rightarrow> int \<Rightarrow> recv_result \<Rightarrow> byte list \<times> network_engine \<Rightarrow>
     (net_effect list \<times> byte list \<times> network_engine) option" where
  "handle_readable malloc_ok fd r st =
     (case st of (buf, eng) \<Rightarrow>
      case r of
        Recv_again \<Rightarrow> Some ([], buf, eng)
      | Recv_closed \<Rightarrow> Some ([Closed fd], buf, drop_connection fd eng)
      | Recv_error \<Rightarrow> Some ([Closed fd], buf, drop_connection fd eng)
      | Recv bs \<Rightarrow>
         let buf1 = overwrite bs buf in
         (case network_deserialize_message malloc_ok buf1 (length bs) of
            Inl Net_out_of_bounds \<Rightarrow> None
          | Inl _ \<Rightarrow> Some ([], buf1, eng)
          | Inr msg \<Rightarrow>
              Some ((if message_handler eng
                     then [Handled (hdr_sender_id (header msg)) (mtype (header msg)) (payload msg) (payload_len (header msg))]
                     else []),
                    buf1, eng\<lparr>messages_received := messages_received eng + 1,
                              bytes_received := bytes_received eng + of_nat (length bs)\<rparr>)))"

fun readable_loop ::
  "bool \<Rightarrow> (int \<Rightarrow> recv_result option) \<Rightarrow> int list \<Rightarrow> byte list \<times> network_engine \<Rightarrow>
     (net_effect list \<times> byte list \<times> network_engine) option" where
  "readable_loop malloc_ok recv [] st = Some ([], st)"
| "readable_loop malloc_ok recv (fd # fds) st =
     (case recv fd of
        None \<Rightarrow> readable_loop malloc_ok recv fds st
      | Some r \<Rightarrow> Option.bind (handle_readable malloc_ok fd r st) (\<lambda>(effs, st1).
          map_option (\<lambda>(effs', st2). (effs @ effs', st2)) (readable_loop malloc_ok recv fds st1)))"

text \<open>One iteration of the loop of \<^verbatim>\<open>network_event_loop\<close>; the first component says whether it goes
  round again. \<open>accept_fd\<close> is \<^term>\<open>None\<close> when the listening socket is not ready.\<close>

definition event_loop_iteration ::
  "poll_result \<Rightarrow> int option \<Rightarrow> bool \<Rightarrow> (int \<Rightarrow> recv_result option) \<Rightarrow> byte list \<times> network_engine \<Rightarrow>
     (bool \<times> net_effect list \<times> byte list \<times> network_engine) option" where
  "event_loop_iteration pr accept_fd malloc_ok recv st =
     (case st of (buf, eng) \<Rightarrow>
      case pr of
        Poll_failed \<Rightarrow> Some (False, [], st)
      | Poll_interrupted \<Rightarrow> Some (True, [], st)
      | Poll_timeout \<Rightarrow> Some (True, [], st)
      | Poll_ready \<Rightarrow>
         let fds = tl (poll_set eng);
             (effs, e1) = (case accept_fd of None \<Rightarrow> ([], eng) | Some fd \<Rightarrow> accept_connection fd eng)
         in map_option (\<lambda>(effs', st'). (True, effs @ effs', st')) (readable_loop malloc_ok recv fds (buf, e1)))"

end
