(* ===== verification/Network_Props.thy ===== *)
theory Network_Props
  imports Network
begin

text \<open>
  The network engine: the wire header is a fixed-width encoding, the peers are a table with the
  contract of \<open>id_registry\<close>, a send and the matching receive deliver the payload when the frame
  arrives in one piece, and what happens when it does not; what a broadcast reports; which
  sockets are closed twice.
\<close>

section \<open>Frames\<close>

lemma length_header_bytes [codec_simps]: "length (header_bytes h) = 24"
  by (simp add: header_bytes_def codec_simps)

lemma header_of_header_bytes [codec_simps]: "header_of_bytes (header_bytes h @ rest) = h"
  by (simp add: header_of_bytes_def header_bytes_def codec_simps)

interpretation header_codec: fixed_codec header_bytes header_of_bytes 24 "\<lambda>_. True"
  using header_of_header_bytes [of _ "[]"] by unfold_locales (simp_all add: length_header_bytes)

text \<open>The frame of a message: its header and payload.\<close>

definition frame_header :: "u32 \<Rightarrow> u32 \<Rightarrow> u32 \<Rightarrow> byte list \<Rightarrow> message_header" where
  "frame_header nid ty sq pl = \<lparr>magic = MAGIC_NUMBER, mtype = ty, hdr_sender_id = nid, hdr_sequence = sq,
     payload_len = of_nat (length pl), checksum = payload_sum pl\<rparr>"

definition frame :: "u32 \<Rightarrow> u32 \<Rightarrow> u32 \<Rightarrow> byte list \<Rightarrow> byte list" where
  "frame nid ty sq pl = header_bytes (frame_header nid ty sq pl) @ pl"

lemma frame_header_simps [simp]:
  "magic (frame_header nid ty sq pl) = MAGIC_NUMBER" "mtype (frame_header nid ty sq pl) = ty"
  "hdr_sender_id (frame_header nid ty sq pl) = nid" "payload_len (frame_header nid ty sq pl) = of_nat (length pl)"
  by (simp_all add: frame_header_def)

lemma length_frame [codec_simps]: "length (frame nid ty sq pl) = 24 + length pl"
  by (simp add: frame_def codec_simps)

lemma payload_len_unat: "length pl < 2 ^ 32 \<Longrightarrow> unat (of_nat (length pl) :: u32) = length pl"
  by (simp add: unat_of_nat)

lemma serialize_frame:
  assumes "length pl < 2 ^ 32"
  shows "network_serialize_message True \<lparr>header = frame_header nid ty sq pl, payload = Some pl\<rparr> = Inr (frame nid ty sq pl)"
  using payload_len_unat [OF assms] by (simp add: network_serialize_message_def Let_def frame_def)

lemma take_frame: "24 \<le> k \<Longrightarrow> take k (frame nid ty sq pl) = header_bytes (frame_header nid ty sq pl) @ take (k - 24) pl"
  by (simp add: frame_def codec_simps)

text \<open>What the receiver makes of the first \<open>k\<close> bytes of a frame, the payload padded with what
  the receive buffer held before.\<close>

lemma deserialize_segment:
  assumes "24 \<le> k" "k \<le> 24 + length pl" "24 + length pl \<le> length buf" "length pl < 2 ^ 32" "pl \<noteq> []"
  shows "network_deserialize_message True (overwrite (take k (frame nid ty sq pl)) buf) k =
    Inr \<lparr>header = frame_header nid ty sq pl, payload = Some (take (k - 24) pl @ slice k (24 + length pl - k) buf)\<rparr>"
proof -
  let ?b = "overwrite (take k (frame nid ty sq pl)) buf"
  have b: "?b = header_bytes (frame_header nid ty sq pl) @ take (k - 24) pl @ drop k buf"
    using assms(1,2) by (simp add: overwrite_def take_frame [OF assms(1)] length_header_bytes)
  have h: "header_of_bytes ?b = frame_header nid ty sq pl" by (simp add: b codec_simps)
  have n: "unat (of_nat (length pl) :: u32) = length pl" by (rule payload_len_unat [OF assms(4)])
  have s: "slice 24 (length pl) ?b = take (k - 24) pl @ slice k (24 + length pl - k) buf"
    using assms(1,2) by (simp add: b slice_append2 length_header_bytes) (simp add: slice_def min_def add.commute)
  have l: "length ?b = length buf" using assms(1-3) by (simp add: length_overwrite codec_simps)
  show ?thesis
    using assms(1,3,5) by (simp add: network_deserialize_message_def Let_def h n s l)
qed

section \<open>The peer table\<close>

definition peer_ids :: "network_engine \<Rightarrow> u32 list" where
  "peer_ids eng = tbl_ids peer_id (num_peers eng) (peers eng)"

definition peer_enroll :: "net_env \<times> u32 \<times> string \<times> u16 \<Rightarrow> network_engine \<Rightarrow> network_engine option" where
  "peer_enroll x eng = (case x of (e, nid, ip, prt) \<Rightarrow>
     (case network_engine_add_peer e nid ip prt eng of (rc, effs, e') \<Rightarrow> if rc = 0 then Some e' else None))"

definition peer_withdraw :: "u32 \<Rightarrow> network_engine \<Rightarrow> network_engine option" where
  "peer_withdraw nid eng = (case network_engine_remove_peer nid eng of (rc, effs, e') \<Rightarrow> if rc = 0 then Some e' else None)"

lemma connect_keeps_id: "network_connect_peer e p = (rc, effs, p') \<Longrightarrow> peer_id p' = peer_id p"
  by (auto simp: network_connect_peer_def split: if_splits)

lemma peer_enroll_ids:
  "peer_enroll x eng = Some e' \<Longrightarrow> peer_ids e' = peer_ids eng @ [fst (snd x)]"
  by (auto simp: peer_enroll_def network_engine_add_peer_def peer_ids_def tbl_ids_add Let_def
      dest: connect_keeps_id split: prod.splits if_splits)

lemma peer_enroll_full: "peer_enroll x eng = None \<longleftrightarrow> MAX_PEERS \<le> length (peer_ids eng)"
  by (auto simp: peer_enroll_def network_engine_add_peer_def peer_ids_def Let_def split: prod.splits if_splits)

lemma peer_withdraw_ids: "peer_withdraw nid eng = Some e' \<Longrightarrow> peer_ids e' = remove1 nid (peer_ids eng)"
  by (auto simp: peer_withdraw_def network_engine_remove_peer_def peer_ids_def find_peer_def
      dest: tbl_ids_remove(1) split: option.splits if_splits)

lemma peer_withdraw_missing: "peer_withdraw nid eng = None \<longleftrightarrow> nid \<notin> set (peer_ids eng)"
  by (auto simp: peer_withdraw_def network_engine_remove_peer_def peer_ids_def find_peer_def
      tbl_find_None_iff [symmetric] split: option.splits)

interpretation peer_tbl: id_registry peer_ids peer_enroll peer_withdraw "\<lambda>x. fst (snd x)" "\<lambda>_. MAX_PEERS"
  by unfold_locales (simp_all add: peer_enroll_ids peer_enroll_full peer_withdraw_ids peer_withdraw_missing)

section \<open>Sending\<close>

text \<open>The peer a send goes to and what it does to the connection first.\<close>

lemma send_cases:
  assumes "network_engine_send e nid ty pl eng = (rc, effs, eng')"
  shows "peer_ids eng' = peer_ids eng \<and> num_peers eng' = num_peers eng \<and>
    (rc = 0 \<and> (\<exists>cs fd bs. effs = cs @ [Sent fd bs] \<and> set cs \<subseteq> range Closed) \<and> messages_sent eng' = messages_sent eng + 1
     \<or> rc = - 1 \<and> set effs \<subseteq> range Closed \<and> messages_sent eng' = messages_sent eng)"
proof (cases "find_peer eng nid")
  case None
  with assms show ?thesis by (auto simp: network_engine_send_def)
next
  case (Some i)
  obtain crc ceffs p where c: "(if \<not> connected (peers eng i) \<or> socket_fd (peers eng i) < 0
      then network_connect_peer e (peers eng i) else (0, [], peers eng i)) = (crc, ceffs, p)"
    by (metis prod_cases3)
  have p: "peer_id p = peer_id (peers eng i)" "set ceffs \<subseteq> range Closed"
    using c by (auto simp: network_connect_peer_def split: if_splits)
  have ids: "tbl_ids peer_id n ((peers eng)(i := p)) = tbl_ids peer_id n (peers eng)"
    "tbl_ids peer_id n ((peers eng)(i := p\<lparr>socket_fd := f, connected := b\<rparr>)) = tbl_ids peer_id n (peers eng)" for n f b
    by (simp_all add: tbl_ids_update p(1))
  show ?thesis
    using assms p(2) unfolding network_engine_send_def Some option.case c Let_def prod.case
    by (auto simp: peer_ids_def upd_peer_def ids split: if_splits sum.splits)
qed

definition is_sent :: "net_effect \<Rightarrow> bool" where
  "is_sent ef = (case ef of Sent fd bs \<Rightarrow> True | _ \<Rightarrow> False)"

lemma is_sent_simps [simp]: "is_sent (Sent fd bs)" "\<not> is_sent (Closed fd)"
  by (simp_all add: is_sent_def)

lemma no_sent: "set cs \<subseteq> range Closed \<Longrightarrow> filter is_sent cs = []"
  by (auto simp: filter_empty_conv)

lemma broadcast_counts:
  "broadcast_loop es k nids ty pl eng = (n, effs, eng') \<Longrightarrow>
     n = length (filter is_sent effs) \<and> n \<le> length nids \<and> messages_sent eng' = messages_sent eng + of_nat n \<and>
     peer_ids eng' = peer_ids eng"
proof (induction nids arbitrary: k n effs eng eng')
  case (Cons nid nids)
  obtain rc ef e1 where s: "network_engine_send (es k) nid ty pl eng = (rc, ef, e1)" by (metis prod_cases3)
  obtain n1 ef1 e2 where r: "broadcast_loop es (Suc k) nids ty pl e1 = (n1, ef1, e2)" by (metis prod_cases3)
  have eq: "n = (if rc = 0 then Suc n1 else n1)" "effs = ef @ ef1" "eng' = e2"
    using Cons.prems by (simp_all add: s r)
  from send_cases [OF s] Cons.IH [OF r] show ?case
    unfolding eq by (auto simp: no_sent)
qed simp

definition env_good :: "net_env \<Rightarrow> bool" where
  "env_good e \<longleftrightarrow> socket_result e \<ge> 0 \<and> resolves e \<and> connect_ok e \<and> buffer_ok e \<and> send_result e \<ge> 0"

lemma send_good:
  assumes "env_good e" "nid \<in> set (peer_ids eng)" "length pl < 2 ^ 32"
  shows "\<exists>effs eng'. network_engine_send e nid ty pl eng = (0, effs, eng')"
proof -
  obtain i where i: "find_peer eng nid = Some i"
    using assms(2) tbl_find_None_iff [of peer_id "num_peers eng" "peers eng" nid]
    by (auto simp: find_peer_def peer_ids_def)
  have ser: "network_serialize_message True \<lparr>header = \<lparr>magic = MAGIC_NUMBER, mtype = ty, hdr_sender_id = a, hdr_sequence = q,
      payload_len = of_nat (length pl), checksum = payload_sum pl\<rparr>, payload = Some pl\<rparr> = Inr (frame a ty q pl)" for a q
    using serialize_frame [OF assms(3), of a ty q] by (simp add: frame_header_def)
  show ?thesis
    using assms(1) by (auto simp: network_engine_send_def i network_connect_peer_def env_good_def Let_def upd_peer_def ser)
qed

lemma broadcast_good:
  assumes "\<forall>k. env_good (es k)" "length pl < 2 ^ 32"
  shows "set nids \<subseteq> set (peer_ids eng) \<Longrightarrow> fst (broadcast_loop es k nids ty pl eng) = length nids"
proof (induction nids arbitrary: k eng)
  case (Cons nid nids)
  then obtain effs e1 where s: "network_engine_send (es k) nid ty pl eng = (0, effs, e1)"
    using send_good [of "es k" nid eng pl ty] assms by auto
  with send_cases [OF s] Cons show ?case by (simp add: case_prod_beta)
qed simp

lemma send_connected:
  assumes "find_peer eng nid = Some i" "connected (peers eng i)" "socket_fd (peers eng i) = fd" "fd \<ge> 0"
    "buffer_ok e" "send_result e \<ge> 0" "length pl < 2 ^ 32"
  shows "\<exists>eng'. network_engine_send e nid ty pl eng =
      (0, [Sent fd (take (nat (send_result e)) (frame (self_id eng) ty (send_sequence eng) pl))], eng') \<and>
    messages_sent eng' = messages_sent eng + 1 \<and> send_sequence eng' = send_sequence eng + 1"
proof -
  have ser: "network_serialize_message True \<lparr>header = \<lparr>magic = MAGIC_NUMBER, mtype = ty, hdr_sender_id = a, hdr_sequence = q,
      payload_len = of_nat (length pl), checksum = payload_sum pl\<rparr>, payload = Some pl\<rparr> = Inr (frame a ty q pl)" for a q
    using serialize_frame [OF assms(7), of a ty q] by (simp add: frame_header_def)
  show ?thesis
    using assms(2-6) by (simp add: network_engine_send_def assms(1) Let_def upd_peer_def ser)
qed

section \<open>Receiving\<close>

lemma receive_segment:
  assumes "24 \<le> k" "k \<le> 24 + length pl" "24 + length pl \<le> length buf" "length pl < 2 ^ 32" "pl \<noteq> []"
    "message_handler r"
  shows "handle_readable True fd (Recv (take k (frame nid ty sq pl))) (buf, r) =
    Some ([Handled nid ty (Some (take (k - 24) pl @ slice k (24 + length pl - k) buf)) (of_nat (length pl))],
      overwrite (take k (frame nid ty sq pl)) buf,
      r\<lparr>messages_received := messages_received r + 1, bytes_received := bytes_received r + of_nat k\<rparr>)"
proof -
  have "length (take k (frame nid ty sq pl)) = k" using assms(2) by (simp add: codec_simps)
  with deserialize_segment [OF assms(1-5), of nid ty sq] assms(6) show ?thesis
    by (simp add: handle_readable_def Let_def)
qed

section \<open>A concrete engine\<close>

definition demo_engine :: "u32 \<Rightarrow> network_engine" where
  "demo_engine nid = (case network_engine_init nid 7000 True True of Some eng \<Rightarrow> eng)"

definition demo_net_env :: net_env where
  "demo_net_env = \<lparr>socket_result = 9, resolves = True, connect_ok = True, clock = 5, buffer_ok = True, send_result = 27\<rparr>"

text \<open>Node 1 with peers 2 and 3.\<close>

definition demo_net :: network_engine where
  "demo_net = snd (snd (network_engine_add_peer demo_net_env 3 ''n3'' 7003
     (snd (snd (network_engine_add_peer demo_net_env 2 ''n2'' 7002 (demo_engine 1))))))"

lemma demo_net_simps [simp]:
  "self_id demo_net = 1" "num_peers demo_net = 2" "message_handler demo_net" "peer_id (peers demo_net 0) = 2"
  "peer_id (peers demo_net (Suc 0)) = 3" "connected (peers demo_net i) \<longleftrightarrow> i < 2" "send_sequence demo_net = 0"
  "socket_fd (peers demo_net i) = (if i < 2 then 9 else - 1)"
  by (simp_all add: demo_net_def demo_engine_def network_engine_init_def network_engine_add_peer_def network_connect_peer_def
      demo_net_env_def Let_def less_Suc_eq numeral_2_eq_2)

lemma demo_net_ids [simp]: "peer_ids demo_net = [2, 3]" "find_peer demo_net 2 = Some 0"
  by (simp_all add: peer_ids_def tbl_ids_def arr_take_def find_peer_def tbl_find_def find_idx_def numeral_2_eq_2)

section \<open>Properties\<close>

text \<open>C40: a message sent to a connected peer is delivered intact when its frame is taken by one
  \<^verbatim>\<open>send\<close> and arrives in one \<^verbatim>\<open>recv\<close>: the peer's handler is called once, with the sender's id, the
  type and exactly the payload, whatever its receive buffer held before.\<close>

theorem frame_delivery:
  assumes "find_peer s nid = Some i" "connected (peers s i)" "socket_fd (peers s i) = fd" "fd \<ge> 0" "buffer_ok e"
    "send_result e = 24 + int (length pl)" "pl \<noteq> []" "24 + length pl \<le> RECV_BUFFER_SIZE"
    "length buf = RECV_BUFFER_SIZE" "message_handler r"
  shows "\<exists>bs s' buf' r'. network_engine_send e nid ty pl s = (0, [Sent fd bs], s') \<and>
    handle_readable True rfd (Recv bs) (buf, r) = Some ([Handled (self_id s) ty (Some pl) (of_nat (length pl))], buf', r') \<and>
    messages_sent s' = messages_sent s + 1 \<and> messages_received r' = messages_received r + 1"
proof -
  have n: "nat (send_result e) = 24 + length pl" "send_result e \<ge> 0" "length pl < 2 ^ 32"
    using assms(6,8) by auto
  let ?f = "frame (self_id s) ty (send_sequence s) pl"
  have whole: "take (24 + length pl) ?f = ?f" by (simp add: codec_simps)
  obtain s' where s': "network_engine_send e nid ty pl s = (0, [Sent fd ?f], s')" "messages_sent s' = messages_sent s + 1"
    using send_connected [OF assms(1-5) n(2,3), of ty] unfolding n(1) whole by blast
  from receive_segment [of "24 + length pl" pl buf r rfd "self_id s" ty "send_sequence s"] assms(7-10) n(3) s'
  show ?thesis unfolding whole by (simp add: slice_def)
qed

theorem frame_delivery_witness:
  "\<exists>bs s' buf' r'. network_engine_send demo_net_env 2 MSG_TYPE_PAXOS [1, 2, 3] demo_net = (0, [Sent 9 bs], s') \<and>
    handle_readable True 4 (Recv bs) (replicate RECV_BUFFER_SIZE 0xFF, demo_net) =
      Some ([Handled 1 MSG_TYPE_PAXOS (Some [1, 2, 3]) 3], buf', r')"
  using frame_delivery [of demo_net 2 0 9 demo_net_env "[1, 2, 3]" "replicate RECV_BUFFER_SIZE 0xFF" demo_net MSG_TYPE_PAXOS 4]
  by (auto simp: demo_net_env_def)

text \<open>There is no reassembly. When the bytes of a frame arrive in two pieces (a metadata
  proposal is larger than a TCP segment), the handler is called on the first piece with a payload
  of the announced length whose missing end is whatever the receive buffer held before; the rest,
  unless it happens to look like a frame itself, is discarded. The checksum in the header is not
  looked at.\<close>

theorem split_frame_corrupts:
  assumes "24 \<le> k" "k < 24 + length pl" "24 + length pl \<le> length buf" "length pl < 2 ^ 32" "message_handler r"
    "length pl + 24 - k < 24 \<or> u32_dec (slice (k - 24) 4 pl) \<noteq> MAGIC_NUMBER"
  shows "\<exists>buf' r'. handle_readable True fd (Recv (take k (frame nid ty sq pl))) (buf, r) =
      Some ([Handled nid ty (Some (take (k - 24) pl @ slice k (24 + length pl - k) buf)) (of_nat (length pl))], buf', r') \<and>
    (\<exists>buf''. handle_readable True fd (Recv (drop k (frame nid ty sq pl))) (buf', r') = Some ([], buf'', r'))"
proof -
  have "pl \<noteq> []" using assms(1,2) by auto
  note seg = receive_segment [OF assms(1) _ assms(3,4) this assms(5), of fd nid ty sq]
  let ?buf' = "overwrite (take k (frame nid ty sq pl)) buf"
  have d: "drop k (frame nid ty sq pl) = drop (k - 24) pl" "length (drop (k - 24) pl) = length pl + 24 - k"
    using assms(1,2) by (simp_all add: frame_def codec_simps)
  have "\<exists>buf''. handle_readable True fd (Recv (drop (k - 24) pl)) (?buf', r') = Some ([], buf'', r')" for r'
  proof (cases "length pl + 24 - k < 24")
    case True
    with d(2) show ?thesis by (simp add: handle_readable_def network_deserialize_message_def Let_def)
  next
    case False
    then have "slice 0 4 (overwrite (drop (k - 24) pl) ?buf') = slice (k - 24) 4 pl"
      using d(2) by (simp add: slice_overwrite) (simp add: slice_def)
    with assms(6) False have "magic (header_of_bytes (overwrite (drop (k - 24) pl) ?buf')) \<noteq> MAGIC_NUMBER"
      by (simp add: header_of_bytes_def)
    with d(2) show ?thesis by (simp add: handle_readable_def network_deserialize_message_def Let_def)
  qed
  with seg assms(2) show ?thesis unfolding d(1) by auto
qed

theorem split_frame_corrupts_witness:
  "\<exists>buf' r'. handle_readable True 4 (Recv (take 25 (frame 2 MSG_TYPE_PAXOS 0 [1, 2, 3]))) (replicate RECV_BUFFER_SIZE 0xFF, demo_net) =
      Some ([Handled 2 MSG_TYPE_PAXOS (Some [1, 0xFF, 0xFF]) 3], buf', r')"
proof -
  have "slice 25 2 (replicate RECV_BUFFER_SIZE (0xFF :: byte)) = [0xFF, 0xFF]"
    by (simp add: slice_def numeral_2_eq_2)
  with split_frame_corrupts [of 25 "[1, 2, 3]" "replicate RECV_BUFFER_SIZE 0xFF" demo_net 4 2 MSG_TYPE_PAXOS 0] show ?thesis
    by auto
qed

text \<open>A broadcast attempts every peer; its result is the number of sends that took bytes, at
  most the number of peers, and exactly that number when the host does not fail. Peers are
  neither lost nor reordered by reconnecting.\<close>

theorem broadcast_reports_sends:
  assumes "network_engine_broadcast es ty pl eng = (n, effs, eng')" "num_peers eng \<le> MAX_PEERS"
  shows "n = length (filter is_sent effs) \<and> n \<le> num_peers eng \<and> messages_sent eng' = messages_sent eng + of_nat n \<and>
    peer_ids eng' = peer_ids eng \<and> ((\<forall>k. env_good (es k)) \<and> length pl < 2 ^ 32 \<longrightarrow> n = num_peers eng)"
proof -
  have b: "broadcast_loop es 0 (peer_ids eng) ty pl eng = (n, effs, eng')"
    using assms by (simp add: network_engine_broadcast_def peer_ids_def)
  have "n = num_peers eng" if "\<forall>k. env_good (es k)" "length pl < 2 ^ 32"
    using broadcast_good [OF that, of "peer_ids eng" eng 0 ty] b by (simp add: peer_ids_def)
  with broadcast_counts [OF b] show ?thesis by (simp add: peer_ids_def)
qed

theorem broadcast_reports_sends_witness:
  "\<exists>effs eng'. network_engine_broadcast (\<lambda>_. demo_net_env) MSG_TYPE_PAXOS [1, 2, 3] demo_net = (2, effs, eng') \<and>
     length (filter is_sent effs) = 2"
proof -
  obtain n effs eng' where b: "network_engine_broadcast (\<lambda>_. demo_net_env) MSG_TYPE_PAXOS [1, 2, 3] demo_net = (n, effs, eng')"
    by (metis prod_cases3)
  have "env_good demo_net_env" by (simp add: env_good_def demo_net_env_def)
  with broadcast_reports_sends [OF b] b show ?thesis by auto
qed

section \<open>Further defects\<close>

text \<open>Of several frames that arrive in one \<^verbatim>\<open>recv\<close> only the first is handled, whatever follows it.\<close>

theorem coalesced_frames_lost:
  assumes "24 + length pl + length rest \<le> length buf" "pl \<noteq> []" "length pl < 2 ^ 32" "message_handler r"
  shows "\<exists>buf' r'. handle_readable True fd (Recv (frame nid ty sq pl @ rest)) (buf, r) =
      Some ([Handled nid ty (Some pl) (of_nat (length pl))], buf', r') \<and> messages_received r' = messages_received r + 1"
proof -
  let ?b = "overwrite (frame nid ty sq pl @ rest) buf"
  have b: "?b = header_bytes (frame_header nid ty sq pl) @ pl @ rest @ drop (24 + length pl + length rest) buf"
    by (simp add: overwrite_def frame_def length_header_bytes add.assoc)
  have h: "header_of_bytes ?b = frame_header nid ty sq pl" by (simp add: b codec_simps)
  have s: "slice 24 (length pl) ?b = pl"
    by (simp add: b slice_append2 length_header_bytes) (simp add: slice_def)
  have l: "length ?b = length buf" using assms(1) by (simp add: length_overwrite codec_simps)
  show ?thesis
    using assms by (simp add: handle_readable_def network_deserialize_message_def Let_def h s l codec_simps
        payload_len_unat [OF assms(3)])
qed

text \<open>Removing a peer leaves the socket of the last peer in the slot behind the table as well;
  destroying the engine closes it a second time, when its number may already be in use for
  something else.\<close>

lemma count_upt:
  assumes "J \<subseteq> {..<n}" "\<forall>j\<in>J. P j"
  shows "card J \<le> length (filter P [0..<n])"
proof -
  have "J \<subseteq> set (filter P [0..<n])" using assms by auto
  then have "card J \<le> card (set (filter P [0..<n]))" by (intro card_mono) simp_all
  also have "\<dots> \<le> length (filter P [0..<n])" by (rule card_length)
  finally show ?thesis .
qed

lemma destroy_counts:
  assumes "fd \<ge> 0" "J \<subseteq> {..<MAX_PEERS}" "\<forall>j\<in>J. socket_fd (peers eng j) = fd"
  shows "card J \<le> length (filter (\<lambda>ef. ef = Closed fd) (network_engine_destroy eng))"
proof -
  have eq: "x = fd \<and> 0 \<le> x \<longleftrightarrow> x = fd" for x using assms(1) by auto
  have "length (filter (\<lambda>j. socket_fd (peers eng j) = fd) [0..<MAX_PEERS])
      \<le> length (filter (\<lambda>ef. ef = Closed fd) (network_engine_destroy eng))"
    by (simp add: network_engine_destroy_def filter_map o_def conj_commute eq del: upt_rec_numeral)
  with count_upt [OF assms(2,3)] show ?thesis by (rule order_trans)
qed

theorem destroy_closes_twice:
  assumes "find_peer eng nid = Some i" "num_peers eng \<le> MAX_PEERS" "socket_fd (peers eng (num_peers eng - 1)) = fd" "fd \<ge> 0"
    "network_engine_remove_peer nid eng = (rc, effs, eng')"
  shows "length (filter (\<lambda>ef. ef = Closed fd) (effs @ network_engine_destroy eng')) \<ge> 2"
proof -
  let ?n = "num_peers eng"
  have i: "i < ?n" using assms(1) by (auto simp: find_peer_def tbl_find_def dest: find_idx_SomeD)
  have p: "peers eng' = shift_left i ?n (peers eng)"
    and e: "effs = (if socket_fd (peers eng i) \<ge> 0 then [Closed (socket_fd (peers eng i))] else [])"
    using assms(1,5) by (auto simp: network_engine_remove_peer_def)
  have last: "socket_fd (peers eng' (?n - 1)) = fd" by (simp add: p shift_left_apply assms(3) [simplified])
  show ?thesis
  proof (cases "i = ?n - 1")
    case True
    have "1 \<le> length (filter (\<lambda>ef. ef = Closed fd) (network_engine_destroy eng'))"
      using destroy_counts [OF assms(4), of "{?n - 1}" eng'] last i assms(2) by simp
    with e True assms(3,4) show ?thesis by simp
  next
    case False
    then have "Suc (?n - 2) = ?n - 1" "i \<le> ?n - 2" using i by linarith+
    then have "socket_fd (peers eng' (?n - 2)) = fd"
      using False i assms(3) by (simp add: p shift_left_apply)
    then have "card {?n - 1, ?n - 2} \<le> length (filter (\<lambda>ef. ef = Closed fd) (network_engine_destroy eng'))"
      using last i assms(2) by (intro destroy_counts [OF assms(4)]) auto
    moreover have "card {?n - 1, ?n - 2} = 2" using False i by auto
    ultimately show ?thesis by simp
  qed
qed

end
