(* ===== verification/Paxos.thy ===== *)
theory Paxos
  imports Byte_Codec
begin

text \<open>
  The consensus module: \<^verbatim>\<open>distributed_core/include/paxos.h\<close> and \<^verbatim>\<open>distributed_core/src/paxos.c\<close>.
  A node is the record \<open>paxos_node\<close>; a handler returns its result, the response message, the
  calls it makes to the callbacks in order (\<open>paxos_effect\<close>) and the new node. The callbacks and
  \<^verbatim>\<open>malloc\<close> answer through \<open>paxos_env\<close>. \<^verbatim>\<open>paxos_propose\<close> waits twice for other threads, so it is
  three steps: up to the first wait, between the waits, and after the second. The wait loop
  itself is \<open>paxos_wait_for_condition\<close>, run on the wake-ups it sees. Every step runs under the
  locks the code takes, so steps of different threads do not overlap.
\<close>

section \<open>Data\<close>

abbreviation PAXOS_PHASE_PREPARE :: u32 where "PAXOS_PHASE_PREPARE \<equiv> 1"
abbreviation PAXOS_PHASE_PROMISE :: u32 where "PAXOS_PHASE_PROMISE \<equiv> 2"
abbreviation PAXOS_PHASE_ACCEPT :: u32 where "PAXOS_PHASE_ACCEPT \<equiv> 3"
abbreviation PAXOS_PHASE_ACCEPTED :: u32 where "PAXOS_PHASE_ACCEPTED \<equiv> 4"
abbreviation PAXOS_PHASE_LEARN :: u32 where "PAXOS_PHASE_LEARN \<equiv> 5"

text \<open>A \<^verbatim>\<open>void *\<close> and its length: the bytes it points to (\<^term>\<open>None\<close> is \<^verbatim>\<open>NULL\<close>) and the \<^verbatim>\<open>size_t\<close>.\<close>

record paxos_message =
  m_phase :: u32
  m_proposal_id :: u64
  m_sequence_number :: u64
  m_sender_id :: u32
  m_acceptor_id :: u32
  m_accepted_id :: u64
  m_value :: "byte list option"
  m_value_len :: u64
  m_is_noop :: bool

record paxos_proposal =
  proposal_id :: u64
  sequence_number :: u64
  proposed_value :: "byte list option"
  value_len :: u64
  promise_count :: u32
  accept_count :: u32
  reject_count :: u32
  in_use :: bool
  completed :: bool
  committed :: bool

text \<open>A callback field says whether the pointer is set.\<close>

record paxos_node =
  node_id :: u32
  total_nodes :: u32
  quorum_size :: u32
  highest_proposal_seen :: u64
  highest_sequence_committed :: u64
  highest_sequence_persisted :: u64
  next_sequence_number :: u64
  last_accepted_proposal :: u64
  active_proposals :: "paxos_proposal arr"
  max_proposals :: nat
  persist_callback :: bool
  apply_callback :: bool
  broadcast_callback :: bool
  proposal_timeout_ms :: u32

datatype paxos_effect =
    E_persist u64 "byte list option" u64
  | E_apply u64 "byte list option" u64
  | E_broadcast paxos_message

record paxos_env =
  persist_fails :: "u64 \<Rightarrow> bool"
  broadcast_fails :: "u32 \<Rightarrow> bool"
  malloc_fails :: bool

definition zero_message :: paxos_message where
  "zero_message = \<lparr>m_phase = 0, m_proposal_id = 0, m_sequence_number = 0, m_sender_id = 0,
     m_acceptor_id = 0, m_accepted_id = 0, m_value = None, m_value_len = 0, m_is_noop = False\<rparr>"

definition zero_proposal :: paxos_proposal where
  "zero_proposal = \<lparr>proposal_id = 0, sequence_number = 0, proposed_value = None, value_len = 0,
     promise_count = 0, accept_count = 0, reject_count = 0, in_use = False, completed = False,
     committed = False\<rparr>"

section \<open>Node life cycle\<close>

definition paxos_init :: "u32 \<Rightarrow> u32 \<Rightarrow> bool \<Rightarrow> bool \<Rightarrow> bool \<Rightarrow> paxos_node option" where
  "paxos_init nid total_n persist_cb apply_cb calloc_ok =
     (if total_n < 3 \<or> total_n mod 2 = 0 then None
      else if \<not> calloc_ok then None
      else Some \<lparr>node_id = nid, total_nodes = total_n, quorum_size = total_n div 2 + 1,
             highest_proposal_seen = 0, highest_sequence_committed = 0,
             highest_sequence_persisted = 0, next_sequence_number = 1, last_accepted_proposal = 0,
             active_proposals = (\<lambda>_. zero_proposal), max_proposals = 256,
             persist_callback = persist_cb, apply_callback = apply_cb, broadcast_callback = False,
             proposal_timeout_ms = 3000\<rparr>)"

definition paxos_set_broadcast_callback :: "bool \<Rightarrow> paxos_node \<Rightarrow> paxos_node" where
  "paxos_set_broadcast_callback cb n = n\<lparr>broadcast_callback := cb\<rparr>"

definition paxos_set_proposal_timeout :: "u32 \<Rightarrow> paxos_node \<Rightarrow> paxos_node" where
  "paxos_set_proposal_timeout ms n = (if ms = 0 then n else n\<lparr>proposal_timeout_ms := ms\<rparr>)"

section \<open>Proposer\<close>

definition paxos_release_proposal_slot :: "paxos_proposal \<Rightarrow> paxos_proposal" where
  "paxos_release_proposal_slot p = p\<lparr>proposed_value := None, proposal_id := 0, sequence_number := 0,
     value_len := 0, promise_count := 0, accept_count := 0, reject_count := 0, in_use := False,
     completed := False, committed := False\<rparr>"

definition upd_proposal :: "nat \<Rightarrow> (paxos_proposal \<Rightarrow> paxos_proposal) \<Rightarrow> paxos_node \<Rightarrow> paxos_node" where
  "upd_proposal i f n = n\<lparr>active_proposals := (active_proposals n)(i := f (active_proposals n i))\<rparr>"

definition paxos_check_quorum :: "paxos_node \<Rightarrow> u32 \<Rightarrow> bool" where
  "paxos_check_quorum n count \<longleftrightarrow> count \<ge> quorum_size n"

text \<open>What \<^verbatim>\<open>pthread_cond_timedwait\<close> returns; each return comes with the proposal as it is then.\<close>

datatype wait_status = Woken | ETIMEDOUT | Wait_error

definition wait_satisfied :: "paxos_node \<Rightarrow> bool \<Rightarrow> paxos_proposal \<Rightarrow> bool" where
  "wait_satisfied n wait_for_commit p =
     (if wait_for_commit then committed p else paxos_check_quorum n (promise_count p))"

text \<open>\<^term>\<open>None\<close>: the thread is still blocked after these wake-ups.\<close>

fun paxos_wait_for_condition ::
  "paxos_node \<Rightarrow> bool \<Rightarrow> paxos_proposal \<Rightarrow> (wait_status \<times> paxos_proposal) list \<Rightarrow> int option" where
  "paxos_wait_for_condition n c p evs =
     (if \<not> in_use p then Some (- 1)
      else if wait_satisfied n c p then Some 0
      else case evs of
             [] \<Rightarrow> None
           | (st, p') # evs' \<Rightarrow>
               (case st of
                  ETIMEDOUT \<Rightarrow> Some (if wait_satisfied n c p' then 0 else - 1)
                | Wait_error \<Rightarrow> Some (- 1)
                | Woken \<Rightarrow> paxos_wait_for_condition n c p' evs'))"

definition paxos_next_proposal_id :: "paxos_node \<Rightarrow> u64 \<times> paxos_node" where
  "paxos_next_proposal_id n =
     (let next_ballot = drop_bit 16 (highest_proposal_seen n) + 1;
          pid0 = push_bit 16 next_ballot OR ucast (node_id n AND 0xFFFF);
          pid = (if next_ballot = 0 then - 1 else pid0)
      in (pid, n\<lparr>highest_proposal_seen := pid\<rparr>))"

text \<open>\<^verbatim>\<open>paxos_propose\<close> up to the first wait. The result is the slot, the proposal id and the
  sequence number the rest of the call works with.\<close>

definition paxos_propose_begin ::
  "paxos_env \<Rightarrow> paxos_node \<Rightarrow> byte list option \<Rightarrow> u64 \<Rightarrow>
     (nat \<times> u64 \<times> u64) option \<times> paxos_effect list \<times> paxos_node" where
  "paxos_propose_begin e n value len =
     (if value = None \<or> len = 0 then (None, [], n)
      else if \<not> broadcast_callback n then (None, [], n)
      else let (pid, n1) = paxos_next_proposal_id n;
               sequence = next_sequence_number n1;
               n2 = n1\<lparr>next_sequence_number := sequence + 1\<rparr>
        in case find_idx (max_proposals n2) (\<lambda>i. \<not> in_use (active_proposals n2 i)) of
             None \<Rightarrow> (None, [], n2)
           | Some i \<Rightarrow>
              let n3 = upd_proposal i (\<lambda>p. p\<lparr>in_use := True, completed := False, committed := False,
                         proposal_id := pid, sequence_number := sequence\<rparr>) n2
              in if malloc_fails e
                 then (None, [], upd_proposal i (\<lambda>p. p\<lparr>proposed_value := None, in_use := False\<rparr>) n3)
                 else let n4 = upd_proposal i (\<lambda>p. p\<lparr>proposed_value := value, value_len := len,
                                 promise_count := 1, accept_count := 0, reject_count := 0\<rparr>) n3;
                          prepare_msg = zero_message\<lparr>m_phase := PAXOS_PHASE_PREPARE, m_proposal_id := pid,
                            m_sequence_number := sequence, m_sender_id := node_id n4\<rparr>
                      in if broadcast_fails e PAXOS_PHASE_PREPARE
                         then (None, [E_broadcast prepare_msg], upd_proposal i paxos_release_proposal_slot n4)
                         else (Some (i, pid, sequence), [E_broadcast prepare_msg], n4))"

text \<open>Between the waits: \<open>rc\<close> is what the first wait returned. The result says whether the call
  goes on to the second wait.\<close>

definition paxos_propose_accept ::
  "paxos_env \<Rightarrow> paxos_node \<Rightarrow> nat \<Rightarrow> u64 \<Rightarrow> u64 \<Rightarrow> byte list option \<Rightarrow> u64 \<Rightarrow> int \<Rightarrow>
     bool \<times> paxos_effect list \<times> paxos_node" where
  "paxos_propose_accept e n i pid sequence value len rc =
     (if rc \<noteq> 0 then (False, [], upd_proposal i paxos_release_proposal_slot n)
      else let n1 = (if pid \<ge> highest_proposal_seen n
                     then n\<lparr>highest_proposal_seen := pid, last_accepted_proposal := pid\<rparr> else n);
               eff = (if persist_callback n1 then [E_persist sequence value len] else [])
        in if persist_callback n1 \<and> persist_fails e sequence
           then (False, eff, upd_proposal i paxos_release_proposal_slot n1)
           else let n2 = (if sequence > highest_sequence_persisted n1
                          then n1\<lparr>highest_sequence_persisted := sequence\<rparr> else n1);
                    n3 = upd_proposal i (\<lambda>p. p\<lparr>accept_count := 1\<rparr>) n2;
                    accept_msg = zero_message\<lparr>m_phase := PAXOS_PHASE_ACCEPT, m_proposal_id := pid,
                      m_sequence_number := sequence, m_sender_id := node_id n3,
                      m_value := value, m_value_len := len\<rparr>
                in if broadcast_fails e PAXOS_PHASE_ACCEPT
                   then (False, eff @ [E_broadcast accept_msg], upd_proposal i paxos_release_proposal_slot n3)
                   else (True, eff @ [E_broadcast accept_msg], n3))"

definition paxos_propose_finish :: "paxos_node \<Rightarrow> nat \<Rightarrow> int \<Rightarrow> int \<times> paxos_node" where
  "paxos_propose_finish n i wait_rc =
     (if wait_rc = 0 \<and> committed (active_proposals n i) then 0 else - 1,
      upd_proposal i paxos_release_proposal_slot n)"

section \<open>Acceptor and learner\<close>

text \<open>The slot a PROMISE or ACCEPTED message is for.\<close>

definition proposal_for :: "paxos_node \<Rightarrow> paxos_message \<Rightarrow> nat option" where
  "proposal_for n msg = find_idx (max_proposals n) (\<lambda>i.
     proposal_id (active_proposals n i) = m_proposal_id msg \<and> in_use (active_proposals n i) \<and>
     \<not> completed (active_proposals n i))"

type_synonym paxos_result = "int \<times> paxos_message option \<times> paxos_effect list \<times> paxos_node"

definition handle_prepare :: "paxos_node \<Rightarrow> paxos_message \<Rightarrow> paxos_result" where
  "handle_prepare n msg =
     (if m_proposal_id msg > highest_proposal_seen n
      then (0, Some (zero_message\<lparr>m_phase := PAXOS_PHASE_PROMISE, m_proposal_id := m_proposal_id msg,
              m_sequence_number := m_sequence_number msg, m_sender_id := node_id n,
              m_acceptor_id := node_id n, m_accepted_id := last_accepted_proposal n\<rparr>),
            [], n\<lparr>highest_proposal_seen := m_proposal_id msg\<rparr>)
      else (- 1, None, [], n))"

definition handle_promise :: "paxos_node \<Rightarrow> paxos_message \<Rightarrow> paxos_result" where
  "handle_promise n msg =
     (- 1, None, [],
      case proposal_for n msg of
        None \<Rightarrow> n
      | Some i \<Rightarrow> upd_proposal i (\<lambda>p. p\<lparr>promise_count := promise_count p + 1\<rparr>) n)"

definition handle_accept :: "paxos_env \<Rightarrow> paxos_node \<Rightarrow> paxos_message \<Rightarrow> paxos_result" where
  "handle_accept e n msg =
     (if m_proposal_id msg \<ge> highest_proposal_seen n
      then let n1 = n\<lparr>highest_proposal_seen := m_proposal_id msg,
                      last_accepted_proposal := m_proposal_id msg\<rparr>;
               fresh = (persist_callback n1 \<and> m_sequence_number msg > highest_sequence_persisted n1);
               eff = (if fresh then [E_persist (m_sequence_number msg) (m_value msg) (m_value_len msg)] else [])
        in if fresh \<and> persist_fails e (m_sequence_number msg) then (- 1, None, eff, n1)
           else let n2 = (if fresh then n1\<lparr>highest_sequence_persisted := m_sequence_number msg\<rparr> else n1)
             in (0, Some (zero_message\<lparr>m_phase := PAXOS_PHASE_ACCEPTED, m_proposal_id := m_proposal_id msg,
                   m_sequence_number := m_sequence_number msg, m_sender_id := node_id n2,
                   m_acceptor_id := node_id n2\<rparr>), eff, n2)
      else (- 1, None, [], n))"

definition handle_accepted :: "paxos_node \<Rightarrow> paxos_message \<Rightarrow> paxos_result" where
  "handle_accepted n msg =
     (case proposal_for n msg of
        None \<Rightarrow> (- 1, None, [], n)
      | Some i \<Rightarrow>
         let n1 = upd_proposal i (\<lambda>p. p\<lparr>accept_count := accept_count p + 1\<rparr>) n;
             p = active_proposals n1 i
         in if paxos_check_quorum n1 (accept_count p)
            then let n2 = upd_proposal i (\<lambda>p. p\<lparr>committed := True, completed := True\<rparr>) n1;
                     n3 = (if m_sequence_number msg > highest_sequence_committed n2
                           then n2\<lparr>highest_sequence_committed := m_sequence_number msg\<rparr> else n2);
                     learn_msg = zero_message\<lparr>m_phase := PAXOS_PHASE_LEARN, m_proposal_id := proposal_id p,
                       m_sequence_number := sequence_number p, m_sender_id := node_id n3,
                       m_value := proposed_value p, m_value_len := value_len p,
                       m_accepted_id := proposal_id p\<rparr>
                 in (- 1, None,
                     (if apply_callback n3
                      then [E_apply (m_sequence_number msg) (proposed_value p) (value_len p)] else [])
                     @ (if broadcast_callback n3 then [E_broadcast learn_msg] else []), n3)
            else (- 1, None, [], n1))"

definition handle_learn :: "paxos_node \<Rightarrow> paxos_message \<Rightarrow> paxos_result" where
  "handle_learn n msg =
     (if m_sequence_number msg > highest_sequence_committed n
      then let fresh = (persist_callback n \<and> m_sequence_number msg > highest_sequence_persisted n);
               n1 = (if fresh then n\<lparr>highest_sequence_persisted := m_sequence_number msg\<rparr> else n)
        in (- 1, None,
            (if fresh then [E_persist (m_sequence_number msg) (m_value msg) (m_value_len msg)] else [])
            @ (if apply_callback n1 then [E_apply (m_sequence_number msg) (m_value msg) (m_value_len msg)] else []),
            n1\<lparr>highest_sequence_committed := m_sequence_number msg\<rparr>)
      else (- 1, None, [], n))"

definition paxos_handle_message :: "paxos_env \<Rightarrow> paxos_node \<Rightarrow> paxos_message \<Rightarrow> paxos_result" where
  "paxos_handle_message e n msg =
     (if m_phase msg = PAXOS_PHASE_PREPARE then handle_prepare n msg
      else if m_phase msg = PAXOS_PHASE_PROMISE then handle_promise n msg
      else if m_phase msg = PAXOS_PHASE_ACCEPT then handle_accept e n msg
      else if m_phase msg = PAXOS_PHASE_ACCEPTED then handle_accepted n msg
      else if m_phase msg = PAXOS_PHASE_LEARN then handle_learn n msg
      else (- 1, None, [], n))"

section \<open>Wire format\<close>

text \<open>The first 56 of the 64 bytes of \<^verbatim>\<open>paxos_message_t\<close> (the size of the struct less that of a
  pointer), then the value. The header so holds the sender's pointer \<open>ptr\<close> and the padding after
  \<^verbatim>\<open>phase\<close>, and not \<^verbatim>\<open>is_noop\<close>, the last member. \<open>junk\<close> is what \<^verbatim>\<open>malloc\<close> left in the buffer, \<open>stale\<close>
  what the receiver's \<^verbatim>\<open>is_noop\<close> held before.\<close>

datatype wire_error = Wire_short | Wire_nomem | Wire_out_of_bounds

definition msg_header :: "u64 \<Rightarrow> u32 \<Rightarrow> paxos_message \<Rightarrow> byte list" where
  "msg_header ptr pad msg =
     u32_enc (m_phase msg) @ u32_enc pad @ u64_enc (m_proposal_id msg) @ u64_enc (m_sequence_number msg)
     @ u32_enc (m_sender_id msg) @ u32_enc (m_acceptor_id msg) @ u64_enc (m_accepted_id msg)
     @ u64_enc ptr @ u64_enc (m_value_len msg)"

definition paxos_serialize_message ::
  "bool \<Rightarrow> u64 \<Rightarrow> u32 \<Rightarrow> byte list \<Rightarrow> paxos_message \<Rightarrow> wire_error + byte list" where
  "paxos_serialize_message malloc_ok ptr pad junk msg =
     (let n = unat (m_value_len msg) in
      if \<not> malloc_ok then Inl Wire_nomem
      else case m_value msg of
             None \<Rightarrow> Inr (msg_header ptr pad msg @ take n junk)
           | Some v \<Rightarrow> if n > length v then Inl Wire_out_of_bounds
                       else Inr (msg_header ptr pad msg @ take n v))"

definition paxos_deserialize_message ::
  "bool \<Rightarrow> bool \<Rightarrow> byte list \<Rightarrow> wire_error + paxos_message" where
  "paxos_deserialize_message malloc_ok stale buffer =
     (if length buffer < 56 then Inl Wire_short
      else let len = u64_dec (slice 48 8 buffer);
               msg = \<lparr>m_phase = u32_dec (slice 0 4 buffer), m_proposal_id = u64_dec (slice 8 8 buffer),
                 m_sequence_number = u64_dec (slice 16 8 buffer), m_sender_id = u32_dec (slice 24 4 buffer),
                 m_acceptor_id = u32_dec (slice 28 4 buffer), m_accepted_id = u64_dec (slice 32 8 buffer),
                 m_value = None, m_value_len = len, m_is_noop = stale\<rparr>
        in if len > 0
           then if \<not> malloc_ok then Inl Wire_nomem
                else if unat len > length buffer - 56 then Inl Wire_out_of_bounds
                else Inr (msg\<lparr>m_value := Some (slice 56 (unat len) buffer)\<rparr>)
           else Inr msg)"

end
