(* ===== verification/Storage.thy ===== *)
theory Storage
  imports Byte_Codec Id_Table
begin

text \<open>
  The storage interface: \<^verbatim>\<open>distributed_core/include/storage_interface.h\<close> and
  \<^verbatim>\<open>distributed_core/src/storage_interface.c\<close>. The table of storage nodes, the selection of
  replicas, and the client side of the line protocol spoken with a storage node. One exchange over
  a fresh TCP connection gets its answers from \<open>tcp_env\<close>; what the client sends is the list of
  bytes the operations return. This theory holds the definitions.
\<close>

section \<open>Data\<close>

record storage_node_info =
  sn_id :: u32
  sn_ip :: string
  sn_port :: u16
  sn_capacity :: u64
  sn_used :: u64
  sn_available :: u64
  sn_online :: bool
  sn_heartbeat :: time_t

record storage_response =
  status :: int
  error_msg :: string
  rdata :: "byte list option"
  data_len :: u64
  bytes_transferred :: u64

record storage_interface =
  nodes :: "storage_node_info arr"
  num_nodes :: u32
  max_nodes :: u32
  next_node_idx :: u32
  total_reads :: u64
  total_writes :: u64
  total_deletes :: u64
  bytes_written :: u64
  bytes_read :: u64

text \<open>A \<^verbatim>\<open>recv\<close> returns bytes (none of them: the peer has closed the connection) or fails.\<close>

datatype tcp_recv = Recv_bytes "byte list" | Recv_failed

text \<open>One connection: what \<^verbatim>\<open>socket\<close>, the name resolution and \<^verbatim>\<open>connect\<close> answer, what the \<^verbatim>\<open>send\<close> of
  the request line and those of the data return, the reply to a request and the data received
  piece by piece, and whether \<^verbatim>\<open>malloc\<close> succeeds. \<open>stack1\<close> is what lies behind the 256 bytes of the
  request line on the stack, \<open>stack2\<close> what the uninitialised reply buffer (and the memory behind it)
  holds.\<close>

record tcp_env =
  t_socket :: int
  t_resolves :: bool
  t_connects :: bool
  t_line_send :: int
  t_data_sends :: "int list"
  t_reply :: tcp_recv
  t_data_recvs :: "tcp_recv list"
  t_malloc :: "u64 \<Rightarrow> bool"
  stack1 :: "byte list"
  stack2 :: "byte list"

definition zero_response :: storage_response where
  "zero_response = \<lparr>status = 0, error_msg = [], rdata = None, data_len = 0, bytes_transferred = 0\<rparr>"

definition fail_response :: "string \<Rightarrow> storage_response" where
  "fail_response msg = zero_response\<lparr>status := - 1, error_msg := msg\<rparr>"

section \<open>The table of storage nodes\<close>

definition zero_node :: storage_node_info where
  "zero_node = \<lparr>sn_id = 0, sn_ip = [], sn_port = 0, sn_capacity = 0, sn_used = 0, sn_available = 0,
     sn_online = False, sn_heartbeat = 0\<rparr>"

definition storage_interface_init :: "u32 \<Rightarrow> bool \<Rightarrow> storage_interface option" where
  "storage_interface_init max_n calloc_ok =
     (if \<not> calloc_ok then None
      else Some \<lparr>nodes = (\<lambda>_. zero_node), num_nodes = 0, max_nodes = max_n, next_node_idx = 0, total_reads = 0,
        total_writes = 0, total_deletes = 0, bytes_written = 0, bytes_read = 0\<rparr>)"

definition storage_interface_register_node ::
  "u32 \<Rightarrow> string \<Rightarrow> u16 \<Rightarrow> u64 \<Rightarrow> time_t \<Rightarrow> storage_interface \<Rightarrow> int \<times> storage_interface" where
  "storage_interface_register_node nid ip prt cap t iface =
     (if num_nodes iface \<ge> max_nodes iface then (- 1, iface)
      else (0, iface\<lparr>nodes := (nodes iface)(unat (num_nodes iface) :=
                  \<lparr>sn_id = nid, sn_ip = strncpy0 ip 63, sn_port = prt, sn_capacity = cap, sn_used = 0,
                   sn_available = cap, sn_online = True, sn_heartbeat = t\<rparr>),
                num_nodes := num_nodes iface + 1\<rparr>))"

definition find_node :: "storage_interface \<Rightarrow> u32 \<Rightarrow> nat option" where
  "find_node iface nid = tbl_find sn_id (unat (num_nodes iface)) (nodes iface) nid"

definition storage_interface_unregister_node :: "u32 \<Rightarrow> storage_interface \<Rightarrow> int \<times> storage_interface" where
  "storage_interface_unregister_node nid iface =
     (case find_node iface nid of
        None \<Rightarrow> (- 1, iface)
      | Some i \<Rightarrow> (0, iface\<lparr>nodes := shift_left i (unat (num_nodes iface)) (nodes iface),
                            num_nodes := num_nodes iface - 1\<rparr>))"

definition storage_interface_update_node_status ::
  "u32 \<Rightarrow> u64 \<Rightarrow> u64 \<Rightarrow> bool \<Rightarrow> time_t \<Rightarrow> storage_interface \<Rightarrow> int \<times> storage_interface" where
  "storage_interface_update_node_status nid us av onl t iface =
     (case find_node iface nid of
        None \<Rightarrow> (- 1, iface)
      | Some i \<Rightarrow> (0, iface\<lparr>nodes := (nodes iface)(i := (nodes iface i)\<lparr>sn_used := us, sn_available := av,
                                   sn_online := onl, sn_heartbeat := t\<rparr>)\<rparr>))"

definition storage_interface_get_node :: "storage_interface \<Rightarrow> u32 \<Rightarrow> storage_node_info option" where
  "storage_interface_get_node iface nid = map_option (nodes iface) (find_node iface nid)"

definition storage_interface_get_healthy_nodes :: "storage_interface \<Rightarrow> nat \<Rightarrow> storage_node_info list" where
  "storage_interface_get_healthy_nodes iface max_n =
     take max_n (filter sn_online (arr_take (unat (num_nodes iface)) (nodes iface)))"

section \<open>Selection of replicas\<close>

text \<open>The loop of \<^verbatim>\<open>storage_interface_select_nodes\<close>; the first argument is the number of attempts left.\<close>

fun select_loop :: "nat \<Rightarrow> u64 \<Rightarrow> u32 \<Rightarrow> u32 list \<Rightarrow> storage_interface \<Rightarrow> u32 list \<times> storage_interface" where
  "select_loop 0 file_size num_replicas selected iface = (selected, iface)"
| "select_loop (Suc k) file_size num_replicas selected iface =
     (if length selected < unat num_replicas
      then let nd = nodes iface (unat (next_node_idx iface mod num_nodes iface));
               selected1 = (if sn_online nd \<and> sn_available nd \<ge> file_size \<and> sn_id nd \<notin> set selected
                            then selected @ [sn_id nd] else selected)
           in select_loop k file_size num_replicas selected1
                (iface\<lparr>next_node_idx := (next_node_idx iface + 1) mod num_nodes iface\<rparr>)
      else (selected, iface))"

definition storage_interface_select_nodes ::
  "u64 \<Rightarrow> u32 \<Rightarrow> storage_interface \<Rightarrow> int \<times> u32 list \<times> storage_interface" where
  "storage_interface_select_nodes file_size num_replicas iface =
     (if num_replicas = 0 then (- 1, [], iface)
      else let max_attempts = num_nodes iface * 2;
               (selected, iface1) = select_loop (unat max_attempts) file_size num_replicas [] iface
           in (int (length selected), selected, iface1))"

section \<open>Exchanges with a storage node\<close>

definition connect_to_storage_node :: "tcp_env \<Rightarrow> int" where
  "connect_to_storage_node e =
     (if t_socket e < 0 then - 1 else if \<not> t_resolves e then - 1
      else if \<not> t_connects e then - 1 else t_socket e)"

text \<open>\<^verbatim>\<open>snprintf(buf, 256, ..)\<close> followed by \<^verbatim>\<open>send(fd, buf, n, 0)\<close> with the length \<open>n\<close> it returned, which is
  that of the untruncated text: beyond 255 characters the terminator and the memory behind the buffer
  are sent too. \<open>r\<close> is what \<^verbatim>\<open>send\<close> returns.\<close>

definition send_line :: "byte list \<Rightarrow> string \<Rightarrow> int \<Rightarrow> byte list" where
  "send_line behind s r =
     take (nat r) (if length s \<le> 255 then str_bytes s
                   else take (length s) (str_bytes (take 255 s) @ 0 # behind))"

definition request_line :: "string \<Rightarrow> string \<Rightarrow> u64 \<Rightarrow> u64 \<Rightarrow> string" where
  "request_line cmd fid offset len =
     cmd @ ''|'' @ fid @ ''|'' @ dec_str (unat offset) @ ''|'' @ dec_str (unat len) @ [CHR 0x0A]"

text \<open>The send loop; \<^term>\<open>None\<close>: it has not ended after these calls. The flag says that no call failed.\<close>

fun send_all :: "int list \<Rightarrow> byte list \<Rightarrow> (bool \<times> byte list) option" where
  "send_all rs [] = Some (True, [])"
| "send_all [] (d # ds) = None"
| "send_all (r # rs) (d # ds) =
     (if r < 0 then Some (False, [])
      else map_option (\<lambda>(ok, bs). (ok, take (nat r) (d # ds) @ bs)) (send_all rs (drop (nat r) (d # ds))))"

text \<open>The receive loop for \<open>n\<close> bytes, the same way.\<close>

fun recv_all :: "tcp_recv list \<Rightarrow> nat \<Rightarrow> (bool \<times> byte list) option" where
  "recv_all rs 0 = Some (True, [])"
| "recv_all [] (Suc n) = None"
| "recv_all (r # rs) (Suc n) =
     (case r of
        Recv_failed \<Rightarrow> Some (False, [])
      | Recv_bytes bs \<Rightarrow>
          (if bs = [] then Some (True, [])
           else map_option (\<lambda>(ok, bs'). (ok, take (Suc n) bs @ bs')) (recv_all rs (Suc n - length bs))))"

text \<open>The reply buffer of \<open>size\<close> bytes after \<^verbatim>\<open>recv(fd, buf, size - 1, 0)\<close> and \<^verbatim>\<open>buf[n] = 0\<close>.\<close>

definition reply_buffer :: "nat \<Rightarrow> byte list \<Rightarrow> byte list \<Rightarrow> byte list" where
  "reply_buffer sz bs behind = overwrite (take (sz - 1) bs @ [0]) behind"

type_synonym exchange = "(int \<times> storage_response \<times> byte list \<times> storage_interface) option"

definition storage_interface_write ::
  "tcp_env \<Rightarrow> u32 \<Rightarrow> string \<Rightarrow> u64 \<Rightarrow> byte list \<Rightarrow> storage_interface \<Rightarrow> exchange" where
  "storage_interface_write e nid fid offset data iface =
     (case storage_interface_get_node iface nid of
        None \<Rightarrow> Some (- 1, fail_response (''Storage node '' @ dec_str (unat nid) @ '' not found''), [], iface)
      | Some nd \<Rightarrow>
         if connect_to_storage_node e < 0
         then Some (- 1, fail_response (''Failed to connect to storage node '' @ dec_str (unat nid)), [], iface)
         else if t_line_send e < 0 then Some (- 1, fail_response ''Send header failed'', [], iface)
         else let line = send_line (stack1 e) (request_line ''WRITE'' fid offset (of_nat (length data))) (t_line_send e)
           in case send_all (t_data_sends e) data of
                None \<Rightarrow> None
              | Some (ok, sent) \<Rightarrow>
                  if \<not> ok then Some (- 1, fail_response ''Send data failed'', line @ sent, iface)
                  else case t_reply e of
                         Recv_failed \<Rightarrow> Some (- 1, fail_response ''Receive response failed'', line @ sent, iface)
                       | Recv_bytes bs \<Rightarrow>
                           let buf = reply_buffer 256 bs (stack2 e) in
                           if take 3 buf = str_bytes ''OK|''
                           then Some (0, zero_response\<lparr>bytes_transferred := of_nat (length data)\<rparr>, line @ sent,
                                  iface\<lparr>total_writes := total_writes iface + 1,
                                        bytes_written := bytes_written iface + of_nat (length data)\<rparr>)
                           else Some (- 1, fail_response (take 255 (cbuf_dec (drop 6 buf))), line @ sent, iface))"

definition storage_interface_read ::
  "tcp_env \<Rightarrow> u32 \<Rightarrow> string \<Rightarrow> u64 \<Rightarrow> u64 \<Rightarrow> storage_interface \<Rightarrow> exchange" where
  "storage_interface_read e nid fid offset len iface =
     (case storage_interface_get_node iface nid of
        None \<Rightarrow> Some (- 1, fail_response (''Storage node '' @ dec_str (unat nid) @ '' not found''), [], iface)
      | Some nd \<Rightarrow>
         if connect_to_storage_node e < 0
         then Some (- 1, fail_response (''Failed to connect to storage node '' @ dec_str (unat nid)), [], iface)
         else if t_line_send e < 0 then Some (- 1, fail_response ''Send request failed'', [], iface)
         else let line = send_line (stack1 e) (request_line ''READ'' fid offset len) (t_line_send e)
           in if \<not> t_malloc e len then Some (- 1, fail_response ''Memory allocation failed'', line, iface)
              else case recv_all (t_data_recvs e) (unat len) of
                     None \<Rightarrow> None
                   | Some (ok, got) \<Rightarrow>
                       if \<not> ok then Some (- 1, fail_response ''Receive data failed'', line, iface)
                       else Some (0, zero_response\<lparr>rdata := Some got, data_len := of_nat (length got),
                                       bytes_transferred := of_nat (length got)\<rparr>, line,
                              iface\<lparr>total_reads := total_reads iface + 1,
                                    bytes_read := bytes_read iface + of_nat (length got)\<rparr>))"

definition storage_interface_delete :: "tcp_env \<Rightarrow> u32 \<Rightarrow> string \<Rightarrow> storage_interface \<Rightarrow> exchange" where
  "storage_interface_delete e nid fid iface =
     (case storage_interface_get_node iface nid of
        None \<Rightarrow> Some (- 1, fail_response (''Storage node '' @ dec_str (unat nid) @ '' not found''), [], iface)
      | Some nd \<Rightarrow>
         if connect_to_storage_node e < 0
         then Some (- 1, fail_response (''Failed to connect to storage node '' @ dec_str (unat nid)), [], iface)
         else if t_line_send e < 0 then Some (- 1, fail_response ''Send request failed'', [], iface)
         else let line = send_line (stack1 e) (''DELETE|'' @ fid @ [CHR 0x0A]) (t_line_send e)
           in case t_reply e of
                Recv_failed \<Rightarrow> Some (0, zero_response, line, iface)
              | Recv_bytes bs \<Rightarrow>
                  if bs = [] then Some (0, zero_response, line, iface)
                  else let buf = reply_buffer 256 bs (stack2 e) in
                    if take 2 buf = str_bytes ''OK''
                    then Some (0, zero_response, line, iface\<lparr>total_deletes := total_deletes iface + 1\<rparr>)
                    else Some (- 1, fail_response (take 255 (cbuf_dec buf)), line, iface))"

text \<open>A whole file is copied: the length asked for is \<^verbatim>\<open>UINT64_MAX\<close>.\<close>

definition storage_interface_replicate ::
  "tcp_env \<Rightarrow> tcp_env \<Rightarrow> u32 \<Rightarrow> u32 \<Rightarrow> string \<Rightarrow> storage_interface \<Rightarrow> exchange" where
  "storage_interface_replicate e1 e2 source target fid iface =
     (case storage_interface_read e1 source fid 0 (- 1) iface of
        None \<Rightarrow> None
      | Some (rc, resp, sent, iface1) \<Rightarrow>
          if rc \<noteq> 0 then Some (- 1, resp, sent, iface1)
          else case rdata resp of
                 None \<Rightarrow> Some (- 1, resp, sent, iface1)
               | Some data \<Rightarrow> map_option (\<lambda>(rc2, resp2, sent2, iface2). (rc2, resp2, sent @ sent2, iface2))
                   (storage_interface_write e2 target fid 0 data iface1))"

definition storage_interface_health_check :: "tcp_env \<Rightarrow> u32 \<Rightarrow> storage_interface \<Rightarrow> bool" where
  "storage_interface_health_check e nid iface =
     (case storage_interface_get_node iface nid of
        None \<Rightarrow> False
      | Some nd \<Rightarrow>
         if connect_to_storage_node e < 0 then False
         else case t_reply e of
                Recv_failed \<Rightarrow> False
              | Recv_bytes bs \<Rightarrow> bs \<noteq> [] \<and> take 4 (overwrite (take 63 bs) (stack2 e)) = str_bytes ''PONG'')"

end
