(* ===== verification/Tcp_Adapter.thy ===== *)
theory Tcp_Adapter
  imports Storage Rpc_Server
begin

text \<open>
  The TCP adapter in front of a storage node, \<^verbatim>\<open>src/storage_tcp_adapter.cpp\<close>: it reads one request
  of the line protocol from a connection, calls the RPC server and answers. The RPC calls are
  arguments (\<^term>\<open>None\<close>: the call itself failed); the server's state is passed through. What \<^verbatim>\<open>recv\<close>
  returns is a list. This theory holds the definitions.
\<close>

section \<open>sscanf\<close>

definition isspace :: "char \<Rightarrow> bool" where
  "isspace c \<longleftrightarrow> c = CHR '' '' \<or> (9 \<le> (of_char c :: nat) \<and> (of_char c :: nat) \<le> 13)"

definition isdigit :: "char \<Rightarrow> bool" where
  "isdigit c \<longleftrightarrow> 48 \<le> (of_char c :: nat) \<and> (of_char c :: nat) \<le> 57"

definition dec_val :: "string \<Rightarrow> nat" where
  "dec_val ds = foldl (\<lambda>a c. 10 * a + (of_char c - 48)) 0 ds"

text \<open>A literal, \<^verbatim>\<open>%63[^c]\<close> and \<^verbatim>\<open>%lu\<close> (which skips white space and accepts a sign).\<close>

definition scan_lit :: "string \<Rightarrow> string \<Rightarrow> string option" where
  "scan_lit pat s = (if take (length pat) s = pat then Some (drop (length pat) s) else None)"

definition scan_until :: "char \<Rightarrow> string \<Rightarrow> (string \<times> string) option" where
  "scan_until c s =
     (let t = takeWhile (\<lambda>x. x \<noteq> c) (take 63 s) in if t = [] then None else Some (t, drop (length t) s))"

definition scan_ulong :: "string \<Rightarrow> (u64 \<times> string) option" where
  "scan_ulong s =
     (let s1 = dropWhile isspace s;
          signed = (s1 \<noteq> [] \<and> (hd s1 = CHR ''-'' \<or> hd s1 = CHR ''+''));
          s2 = (if signed then tl s1 else s1);
          ds = takeWhile isdigit s2; v = dec_val ds
      in if ds = [] then None
         else Some (if v \<ge> 2 ^ 64 then - 1 else if signed \<and> hd s1 = CHR ''-'' then - of_nat v else of_nat v,
                    drop (length ds) s2))"

text \<open>\<^verbatim>\<open>CMD|%63[^|]|%lu|%lu\<close>\<close>

definition scan_request :: "string \<Rightarrow> string \<Rightarrow> (string \<times> u64 \<times> u64) option" where
  "scan_request cmd s =
     Option.bind (scan_lit (cmd @ ''|'') s) (\<lambda>s1.
     Option.bind (scan_until CHR ''|'' s1) (\<lambda>(fid, s2).
     Option.bind (scan_lit ''|'' s2) (\<lambda>s3.
     Option.bind (scan_ulong s3) (\<lambda>(offset, s4).
     Option.bind (scan_lit ''|'' s4) (\<lambda>s5.
     map_option (\<lambda>(len, s6). (fid, offset, len)) (scan_ulong s5))))))"

section \<open>The RPC client\<close>

type_synonym 's write_call = "string \<Rightarrow> byte list \<Rightarrow> int \<Rightarrow> 's \<Rightarrow> write_reply option \<times> 's"
type_synonym 's get_call = "string \<Rightarrow> int \<Rightarrow> int \<Rightarrow> 's \<Rightarrow> get_reply option \<times> 's"
type_synonym 's remove_call = "string \<Rightarrow> 's \<Rightarrow> int option \<times> 's"

definition client_Write :: "'s write_call \<Rightarrow> string \<Rightarrow> u64 \<Rightarrow> byte list \<Rightarrow> 's \<Rightarrow> int \<times> 's" where
  "client_Write rpc fid offset data s =
     (case rpc fid data (to_s64 (uint offset)) s of
        (None, s1) \<Rightarrow> (- 1, s1)
      | (Some r, s1) \<Rightarrow> (if w_status r \<noteq> 0 then - 1 else to_s32 (w_bytes r), s1))"

definition client_Read :: "'s get_call \<Rightarrow> string \<Rightarrow> u64 \<Rightarrow> u64 \<Rightarrow> 's \<Rightarrow> int \<times> byte list \<times> 's" where
  "client_Read rpc fid offset len s =
     (case rpc fid (to_s64 (uint offset)) (to_s64 (uint len)) s of
        (None, s1) \<Rightarrow> (- 1, [], s1)
      | (Some r, s1) \<Rightarrow>
          if g_status r \<noteq> 0 then (- 1, [], s1)
          else (to_s32 (g_bytes r), take (nat (g_bytes r)) (g_data r), s1))"

definition client_Delete :: "'s remove_call \<Rightarrow> string \<Rightarrow> 's \<Rightarrow> int \<times> 's" where
  "client_Delete rpc fid s =
     (case rpc fid s of
        (None, s1) \<Rightarrow> (- 1, s1)
      | (Some st, s1) \<Rightarrow> (if st \<noteq> 0 then - 1 else 0, s1))"

section \<open>One connection\<close>

text \<open>\<open>Waiting\<close>: more data is needed than these \<^verbatim>\<open>recv\<close> calls gave. \<open>Null_write\<close>: the buffer for the
  announced length cannot be allocated and is written to all the same (a \<^verbatim>\<open>recv\<close> into it only fails).
  The copy of a response's data is assumed to find memory.\<close>

datatype 's adapter_result = Waiting | Null_write | Replied "byte list" 's

definition prefix_of :: "string \<Rightarrow> byte list \<Rightarrow> bool" where
  "prefix_of pat bs \<longleftrightarrow> take (length pat) (bs @ [0]) = str_bytes pat"

definition adapter_write ::
  "(u64 \<Rightarrow> bool) \<Rightarrow> 's write_call \<Rightarrow> byte list \<Rightarrow> tcp_recv list \<Rightarrow> 's \<Rightarrow> 's adapter_result" where
  "adapter_write malloc_ok rpc bs rs s =
     (case find_idx (length (cbuf_dec bs)) (\<lambda>i. cbuf_dec bs ! i = CHR 0x0A) of
        None \<Rightarrow> Replied (str_bytes (''ERROR|Invalid header'' @ [CHR 0x0A])) s
      | Some nl \<Rightarrow>
         (case scan_request ''WRITE'' (cbuf_dec bs) of
            None \<Rightarrow> Replied (str_bytes (''ERROR|Invalid WRITE syntax'' @ [CHR 0x0A])) s
          | Some (fid, offset, len) \<Rightarrow>
             let got = take (unat len) (drop (nl + 1) bs) in
             if \<not> malloc_ok len \<and> got \<noteq> [] then Null_write
             else case (if malloc_ok len then recv_all rs (unat len - length got) else Some (False, [])) of
                    None \<Rightarrow> Waiting
                  | Some (ok, rest) \<Rightarrow>
                      let (n, s1) = client_Write rpc fid offset (got @ rest) s
                      in Replied (if n > 0 then str_bytes (''OK|'' @ dec_str (nat n) @ [CHR 0x0A])
                                  else str_bytes (''ERROR|Write failed'' @ [CHR 0x0A])) s1))"

definition adapter_read :: "'s get_call \<Rightarrow> byte list \<Rightarrow> 's \<Rightarrow> 's adapter_result" where
  "adapter_read rpc bs s =
     (case scan_request ''READ'' (cbuf_dec bs) of
        None \<Rightarrow> Replied [] s
      | Some (fid, offset, len) \<Rightarrow>
          let (n, data, s1) = client_Read rpc fid offset len s
          in Replied (if n > 0 then take (nat n) data else []) s1)"

definition adapter_delete :: "'s remove_call \<Rightarrow> byte list \<Rightarrow> 's \<Rightarrow> 's adapter_result" where
  "adapter_delete rpc bs s =
     (case Option.bind (scan_lit ''DELETE|'' (cbuf_dec bs)) (scan_until (CHR 0x0A)) of
        None \<Rightarrow> Replied (str_bytes (''ERROR|Invalid DELETE syntax'' @ [CHR 0x0A])) s
      | Some (fid, rest) \<Rightarrow>
          let (rc, s1) = client_Delete rpc fid s
          in Replied (if rc = 0 then str_bytes (''OK'' @ [CHR 0x0A])
                      else str_bytes (''ERROR|Delete failed'' @ [CHR 0x0A])) s1)"

text \<open>The first \<^verbatim>\<open>recv\<close> asks for 8191 bytes.\<close>

definition handle_client ::
  "(u64 \<Rightarrow> bool) \<Rightarrow> 's write_call \<Rightarrow> 's get_call \<Rightarrow> 's remove_call \<Rightarrow> tcp_recv list \<Rightarrow> 's \<Rightarrow> 's adapter_result" where
  "handle_client malloc_ok rpcW rpcG rpcD rs s =
     (case rs of
        [] \<Rightarrow> Waiting
      | r # rest \<Rightarrow>
         (case r of
            Recv_failed \<Rightarrow> Replied [] s
          | Recv_bytes bs0 \<Rightarrow>
             let bs = take 8191 bs0 in
             if bs = [] then Replied [] s
             else if prefix_of ''WRITE|'' bs then adapter_write malloc_ok rpcW bs rest s
             else if prefix_of ''READ|'' bs then adapter_read rpcG bs s
             else if prefix_of ''DELETE|'' bs then adapter_delete rpcD bs s
             else if prefix_of (''PING'' @ [CHR 0x0A]) bs then Replied (str_bytes (''PONG'' @ [CHR 0x0A])) s
             else Replied (str_bytes (''ERROR|Unknown command'' @ [CHR 0x0A])) s))"

section \<open>On the storage server\<close>

text \<open>The calls as the storage node's RPC server serves them; \<open>up k\<close> says whether the \<open>k\<close>-th call
  gets through.\<close>

definition serve_write :: "bool \<Rightarrow> (nat \<Rightarrow> fs_env) \<Rightarrow> fused_world write_call" where
  "serve_write up e p d off w = (if up then case rpc_Write e p d off w of (r, v) \<Rightarrow> (Some r, v) else (None, w))"

definition serve_get :: "bool \<Rightarrow> (nat \<Rightarrow> fs_env) \<Rightarrow> (nat \<Rightarrow> bool) \<Rightarrow> fused_world get_call" where
  "serve_get up e al p off n w =
     (if up then case rpc_Get e al p off n w of None \<Rightarrow> (None, w) | Some (r, v) \<Rightarrow> (Some r, v) else (None, w))"

definition serve_remove :: "bool \<Rightarrow> (nat \<Rightarrow> fs_env) \<Rightarrow> fused_world remove_call" where
  "serve_remove up e p w = (if up then case rpc_Remove e p w of (st, v) \<Rightarrow> (Some st, v) else (None, w))"

end
