(* ===== verification/Frontend.thy ===== *)
theory Frontend
  imports Paxos Metadata Network Tcp_Adapter
begin

text \<open>
  The coordinator, \<^verbatim>\<open>src/distributed_frontend.cpp\<close>: the client-facing service of a metadata node. It
  keeps the file table replicated through Paxos and the files' bytes on storage nodes. Its state
  is the four global components. The network thread runs \<open>handle_network_message\<close>; a client request
  holds the coordinator lock while it proposes, so the only steps that interleave with it are
  handled messages, and these are explicit: lists of deliveries during the two waits of
  \<^verbatim>\<open>paxos_propose\<close> and between them. \<open>Create\<close> and \<open>Mkdir\<close> check before they take the lock and so get two
  states. Exchanges with storage nodes are taken to finish before the next message is handled.
  This theory holds the definitions; \<^term>\<open>None\<close> is a request that has not returned (it is blocked or
  has left the bounds of a buffer).
\<close>

section \<open>State and host answers\<close>

record frontend =
  fe_meta :: metadata_manager
  fe_paxos :: paxos_node
  fe_net :: network_engine
  fe_store :: storage_interface

text \<open>Answers to one handled message or one step of a proposal: allocations by call site, the log
  writes, the pointers and padding that end up in messages, the connection attempts and sends.\<close>

record host_env =
  he_alloc :: "nat \<Rightarrow> bool"
  he_wal :: wal_env
  he_ptr :: u64
  he_pad :: u32
  he_junk :: "byte list"
  he_stale :: bool
  he_sends :: "nat \<Rightarrow> net_env"
  he_reply :: net_env

section \<open>Paths\<close>

fun trim_end :: "string \<Rightarrow> nat \<Rightarrow> nat" where
  "trim_end path 0 = 0"
| "trim_end path (Suc k) = (if k \<ge> 1 \<and> path ! k = CHR ''/'' then trim_end path k else Suc k)"

definition trim_trailing_slash :: "string \<Rightarrow> string" where
  "trim_trailing_slash path = (if path = ''/'' then path else take (trim_end path (length path)) path)"

definition is_direct_child_path :: "string \<Rightarrow> string \<Rightarrow> string option" where
  "is_direct_child_path dir_path candidate =
     (if candidate = [] \<or> candidate = dir_path then None
      else let normalized_dir = trim_trailing_slash dir_path;
               pre = (if normalized_dir = ''/'' then ''/'' else normalized_dir @ ''/'')
        in if take (length pre) candidate \<noteq> pre then None
           else let remainder = drop (length pre) candidate
             in if remainder = [] then None
                else if CHR ''/'' \<in> set remainder then None
                else Some remainder)"

definition normalize_path :: "string \<Rightarrow> string" where
  "normalize_path path = (if path = [] \<or> hd path \<noteq> CHR ''/'' then ''/'' @ path else path)"

definition is_valid_name_component :: "string \<Rightarrow> bool" where
  "is_valid_name_component name =
     (if name = [] \<or> name = ''.'' \<or> name = ''..'' then False else CHR ''/'' \<notin> set name)"

definition join_path :: "string \<Rightarrow> string \<Rightarrow> string" where
  "join_path parent name =
     (let normalized_parent = trim_trailing_slash (normalize_path parent) in
      if normalized_parent = ''/'' then ''/'' @ name else normalized_parent @ ''/'' @ name)"

text \<open>The nodes of the hash map in the order the frontend's loops visit them.\<close>

definition all_nodes :: "metadata_manager \<Rightarrow> metadata_entry list" where
  "all_nodes mgr = map (\<lambda>nd. heap mgr (snd nd)) (concat (map (buckets mgr) [0..<1024]))"

definition path_is_existing_directory :: "metadata_manager \<Rightarrow> string \<Rightarrow> bool" where
  "path_is_existing_directory mgr path =
     (let normalized = trim_trailing_slash (normalize_path path) in
      if normalized = ''/'' then True
      else case metadata_lookup_by_path mgr (c_str normalized) of
             None \<Rightarrow> False
           | Some a \<Rightarrow> fstate (heap mgr a) \<noteq> FILE_STATE_DELETED \<and> S_ISDIR (fmode (heap mgr a)))"

definition directory_has_children :: "metadata_manager \<Rightarrow> string \<Rightarrow> bool" where
  "directory_has_children mgr dir_path =
     (let normalized_dir = trim_trailing_slash (normalize_path dir_path) in
      list_ex (\<lambda>x. fstate x \<noteq> FILE_STATE_DELETED \<and>
        is_direct_child_path normalized_dir (trim_trailing_slash (fpath x)) \<noteq> None) (all_nodes mgr))"

section \<open>Paxos callbacks\<close>

text \<open>The bytes behind a \<^verbatim>\<open>void *\<close> and a length; \<^term>\<open>None\<close> reads beyond them.\<close>

definition decode_value :: "bool \<Rightarrow> byte list \<Rightarrow> u64 \<Rightarrow> metadata_entry option option" where
  "decode_value calloc_ok v len =
     (if unat len > length v then None
      else case metadata_deserialize calloc_ok (take (unat len) v) of
             Inl Heap_overflow \<Rightarrow> None
           | Inl No_memory \<Rightarrow> Some None
           | Inr x \<Rightarrow> Some (Some x))"

definition persist_wal ::
  "host_env \<Rightarrow> u64 \<Rightarrow> byte list option \<Rightarrow> u64 \<Rightarrow> metadata_manager \<Rightarrow> (int \<times> metadata_manager) option" where
  "persist_wal e sq value len mgr =
     (case value of
        None \<Rightarrow> Some (- 1, mgr)
      | Some v \<Rightarrow>
         if len = 0 then Some (- 1, mgr)
         else case decode_value (he_alloc e 0) v len of
                None \<Rightarrow> None
              | Some None \<Rightarrow> Some (- 1, mgr)
              | Some (Some x) \<Rightarrow>
                  let (lsn, mgr1) = wal_append (he_wal e) (he_ptr e) WAL_OP_UPDATE x mgr
                  in Some (if lsn = UINT64_MAX then - 1 else 0, mgr1))"

definition paxos_broadcast_message ::
  "host_env \<Rightarrow> paxos_message \<Rightarrow> network_engine \<Rightarrow> (int \<times> net_effect list \<times> network_engine) option" where
  "paxos_broadcast_message e msg eng =
     (case paxos_serialize_message (he_alloc e 1) (he_ptr e) (he_pad e) (he_junk e) msg of
        Inl Wire_out_of_bounds \<Rightarrow> None
      | Inl _ \<Rightarrow> Some (- 1, [], eng)
      | Inr bs \<Rightarrow> let (n, effs, eng1) = network_engine_broadcast (he_sends e) MSG_TYPE_PAXOS bs eng
                  in Some (0, effs, eng1))"

definition apply_state_machine ::
  "host_env \<Rightarrow> u64 \<Rightarrow> byte list option \<Rightarrow> u64 \<Rightarrow> metadata_manager \<Rightarrow> metadata_manager option" where
  "apply_state_machine e sq value len mgr =
     (case value of
        None \<Rightarrow> Some mgr
      | Some v \<Rightarrow>
         if len = 0 then Some mgr
         else case decode_value (he_alloc e 2) v len of
                None \<Rightarrow> None
              | Some None \<Rightarrow> Some mgr
              | Some (Some x) \<Rightarrow> Some (snd (metadata_apply_entry (he_alloc e 3) x mgr)))"

text \<open>The callbacks a handler or proposal step calls, in order. What they answered is what the
  step was given: a step persists at most once and broadcasts at most once.\<close>

fun run_callback :: "host_env \<Rightarrow> paxos_effect \<Rightarrow> frontend \<Rightarrow> (net_effect list \<times> frontend) option" where
  "run_callback e (E_persist sq v len) fe =
     map_option (\<lambda>(rc, mgr). ([], fe\<lparr>fe_meta := mgr\<rparr>)) (persist_wal e sq v len (fe_meta fe))"
| "run_callback e (E_apply sq v len) fe =
     map_option (\<lambda>mgr. ([], fe\<lparr>fe_meta := mgr\<rparr>)) (apply_state_machine e sq v len (fe_meta fe))"
| "run_callback e (E_broadcast msg) fe =
     map_option (\<lambda>(rc, effs, eng). (effs, fe\<lparr>fe_net := eng\<rparr>)) (paxos_broadcast_message e msg (fe_net fe))"

fun run_callbacks :: "host_env \<Rightarrow> paxos_effect list \<Rightarrow> frontend \<Rightarrow> (net_effect list \<times> frontend) option" where
  "run_callbacks e [] fe = Some ([], fe)"
| "run_callbacks e (c # cs) fe =
     Option.bind (run_callback e c fe) (\<lambda>(ne, fe1).
       map_option (\<lambda>(ne', fe2). (ne @ ne', fe2)) (run_callbacks e cs fe1))"

definition paxos_answers :: "host_env \<Rightarrow> byte list option \<Rightarrow> u64 \<Rightarrow> frontend \<Rightarrow> paxos_env" where
  "paxos_answers e value len fe =
     \<lparr>persist_fails = (\<lambda>sq. case persist_wal e sq value len (fe_meta fe) of None \<Rightarrow> False | Some (rc, mgr) \<Rightarrow> rc \<noteq> 0),
      broadcast_fails = (\<lambda>_. \<not> he_alloc e 1), malloc_fails = (\<not> he_alloc e 4)\<rparr>"

definition handle_network_message ::
  "host_env \<Rightarrow> u32 \<Rightarrow> u32 \<Rightarrow> byte list option \<Rightarrow> frontend \<Rightarrow> (net_effect list \<times> frontend) option" where
  "handle_network_message e sender_id type pl fe =
     (if type \<noteq> MSG_TYPE_PAXOS then Some ([], fe)
      else case paxos_deserialize_message (he_alloc e 5) (he_stale e) (case pl of None \<Rightarrow> [] | Some bs \<Rightarrow> bs) of
             Inl Wire_out_of_bounds \<Rightarrow> None
           | Inl _ \<Rightarrow> Some ([], fe)
           | Inr msg \<Rightarrow>
              let (rc, response, cbs, n) =
                    paxos_handle_message (paxos_answers e (m_value msg) (m_value_len msg) fe) (fe_paxos fe) msg
              in Option.bind (run_callbacks e cbs (fe\<lparr>fe_paxos := n\<rparr>)) (\<lambda>(ne, fe1).
                 case response of
                   None \<Rightarrow> Some (ne, fe1)
                 | Some resp \<Rightarrow>
                    if rc \<noteq> 0 then Some (ne, fe1)
                    else case paxos_serialize_message (he_alloc e 6) (he_ptr e) (he_pad e) (he_junk e) resp of
                           Inl Wire_out_of_bounds \<Rightarrow> None
                         | Inl _ \<Rightarrow> Some (ne, fe1)
                         | Inr bs \<Rightarrow>
                            let (rc', ne', eng) = network_engine_send (he_reply e) sender_id MSG_TYPE_PAXOS bs (fe_net fe1)
                            in Some (ne @ ne', fe1\<lparr>fe_net := eng\<rparr>)))"

section \<open>Proposals\<close>

text \<open>A delivery is a message the event loop hands to the handler, with the host's answers to it.\<close>

type_synonym delivery = "host_env \<times> u32 \<times> u32 \<times> byte list option"

fun deliver_all :: "delivery list \<Rightarrow> frontend \<Rightarrow> (net_effect list \<times> frontend) option" where
  "deliver_all [] fe = Some ([], fe)"
| "deliver_all ((e, sender_id, type, pl) # ds) fe =
     Option.bind (handle_network_message e sender_id type pl fe) (\<lambda>(ne, fe1).
       map_option (\<lambda>(ne', fe2). (ne @ ne', fe2)) (deliver_all ds fe1))"

text \<open>\<^verbatim>\<open>paxos_wait_for_condition\<close> on slot \<open>i\<close>: each wake-up comes with the messages handled before it.\<close>

fun wait_while ::
  "bool \<Rightarrow> nat \<Rightarrow> (wait_status \<times> delivery list) list \<Rightarrow> frontend \<Rightarrow> (int \<times> net_effect list \<times> frontend) option" where
  "wait_while c i evs fe =
     (case paxos_wait_for_condition (fe_paxos fe) c (active_proposals (fe_paxos fe) i) [] of
        Some rc \<Rightarrow> Some (rc, [], fe)
      | None \<Rightarrow>
         (case evs of
            [] \<Rightarrow> None
          | (st, ds) # evs' \<Rightarrow>
              Option.bind (deliver_all ds fe) (\<lambda>(ne, fe1).
              if st = Woken then map_option (\<lambda>(rc, ne', fe2). (rc, ne @ ne', fe2)) (wait_while c i evs' fe1)
              else map_option (\<lambda>rc. (rc, ne, fe1))
                     (paxos_wait_for_condition (fe_paxos fe) c (active_proposals (fe_paxos fe) i)
                        [(st, active_proposals (fe_paxos fe1) i)]))))"

declare wait_while.simps [simp del]

record propose_env =
  pe_begin :: host_env
  pe_wait1 :: "(wait_status \<times> delivery list) list"
  pe_gap :: "delivery list"
  pe_accept :: host_env
  pe_wait2 :: "(wait_status \<times> delivery list) list"

text \<open>\<^verbatim>\<open>paxos_propose\<close>, its steps and waits put together; \<open>pe_gap\<close> are the messages handled between the
  end of the first wait and the local accept.\<close>

definition paxos_propose ::
  "propose_env \<Rightarrow> byte list option \<Rightarrow> u64 \<Rightarrow> frontend \<Rightarrow> (int \<times> net_effect list \<times> frontend) option" where
  "paxos_propose pe value len fe =
     (let (slot, cbs1, n1) = paxos_propose_begin (paxos_answers (pe_begin pe) value len fe) (fe_paxos fe) value len in
      Option.bind (run_callbacks (pe_begin pe) cbs1 (fe\<lparr>fe_paxos := n1\<rparr>)) (\<lambda>(ne1, fe1).
      case slot of
        None \<Rightarrow> Some (- 1, ne1, fe1)
      | Some (i, pid, sq) \<Rightarrow>
         Option.bind (wait_while False i (pe_wait1 pe) fe1) (\<lambda>(rc1, ne2, fe2).
         Option.bind (if rc1 = 0 then deliver_all (pe_gap pe) fe2 else Some ([], fe2)) (\<lambda>(ne3, fe3).
         let (ok, cbs2, n2) = paxos_propose_accept (paxos_answers (pe_accept pe) value len fe3) (fe_paxos fe3) i pid sq value len rc1 in
         Option.bind (run_callbacks (pe_accept pe) cbs2 (fe3\<lparr>fe_paxos := n2\<rparr>)) (\<lambda>(ne4, fe4).
         if \<not> ok then Some (- 1, ne1 @ ne2 @ ne3 @ ne4, fe4)
         else Option.bind (wait_while True i (pe_wait2 pe) fe4) (\<lambda>(rc2, ne5, fe5).
           let (rc, n3) = paxos_propose_finish (fe_paxos fe5) i rc2
           in Some (rc, ne1 @ ne2 @ ne3 @ ne4 @ ne5, fe5\<lparr>fe_paxos := n3\<rparr>)))))))"

definition commit_metadata_with_paxos ::
  "bool \<Rightarrow> propose_env \<Rightarrow> metadata_entry \<Rightarrow> frontend \<Rightarrow> (bool \<times> net_effect list \<times> frontend) option" where
  "commit_metadata_with_paxos malloc_ok pe entry fe =
     (case metadata_serialize malloc_ok entry of
        None \<Rightarrow> Some (False, [], fe)
      | Some serialized \<Rightarrow>
          map_option (\<lambda>(rc, ne, fe1). (rc = 0, ne, fe1))
            (paxos_propose pe (Some serialized) (of_nat (length serialized)) fe))"

section \<open>Creating files and directories\<close>

abbreviation EINVAL :: int where "EINVAL \<equiv> 22"
abbreviation ENODEV :: int where "ENODEV \<equiv> 19"
abbreviation FILE_STATE_ACTIVE :: u32 where "FILE_STATE_ACTIVE \<equiv> 1"
abbreviation MAX_REPLICAS :: u32 where "MAX_REPLICAS \<equiv> 3"

text \<open>Answers to one request: the generated UUID, the identity of the process, the clock, the
  exchanges with storage nodes (of the request and of a rollback) and the proposal.\<close>

record request_env =
  rq_uuid :: string
  rq_uid :: u32
  rq_gid :: u32
  rq_time :: u64
  rq_malloc :: bool
  rq_tcp :: "nat \<Rightarrow> tcp_env"
  rq_cleanup :: "nat \<Rightarrow> tcp_env"
  rq_propose :: propose_env

definition zero_entry :: metadata_entry where
  "zero_entry = \<lparr>file_id = [], fpath = [], fstate = 0, fsize = 0, fmode = 0, fuid = 0, fgid = 0, created_time = 0,
     modified_time = 0, accessed_time = 0, storage_nodes = replicate 16 0, storage_node_ips = replicate 16 [],
     storage_node_ports = replicate 16 0, num_storage_nodes = 0, primary_node_idx = 0, version = 0, stripe_size = 0,
     num_replicas = 0\<rparr>"

definition new_entry :: "request_env \<Rightarrow> string \<Rightarrow> u32 \<Rightarrow> metadata_entry" where
  "new_entry e full_path md = zero_entry\<lparr>file_id := strncpy0 (c_str (rq_uuid e)) 63,
     fpath := strncpy0 (c_str full_path) (MAX_PATH_LENGTH - 1), fstate := FILE_STATE_ACTIVE, fmode := md,
     fuid := rq_uid e, fgid := rq_gid e, created_time := rq_time e, modified_time := rq_time e,
     accessed_time := rq_time e, version := 1, stripe_size := 4194304\<rparr>"

text \<open>The checks before the lock: the status and message of a refusal, or the path of the new entry.\<close>

definition creation_check ::
  "string \<Rightarrow> string \<Rightarrow> string \<Rightarrow> string \<Rightarrow> metadata_manager \<Rightarrow> (int \<times> string) + string" where
  "creation_check bad_name exists_msg pathname name mgr =
     (let parent_path = trim_trailing_slash (normalize_path pathname) in
      if \<not> is_valid_name_component name then Inl (- EINVAL, bad_name)
      else if \<not> path_is_existing_directory mgr parent_path then Inl (- errno_code ENOENT, ''Parent directory not found'')
      else let full_path = join_path parent_path name in
        case metadata_lookup_by_path mgr (c_str full_path) of
          Some a \<Rightarrow> if fstate (heap mgr a) \<noteq> FILE_STATE_DELETED then Inl (- errno_code EEXIST, exists_msg) else Inr full_path
        | None \<Rightarrow> Inr full_path)"

definition assign_nodes :: "storage_interface \<Rightarrow> u32 list \<Rightarrow> metadata_entry \<Rightarrow> metadata_entry" where
  "assign_nodes iface selected x =
     foldl (\<lambda>y i. case storage_interface_get_node iface (selected ! i) of
                    None \<Rightarrow> y
                  | Some nd \<Rightarrow> y\<lparr>storage_node_ips := (storage_node_ips y)[i := strncpy0 (sn_ip nd) 63],
                               storage_node_ports := (storage_node_ports y)[i := ucast (sn_port nd)],
                               storage_nodes := (storage_nodes y)[i := selected ! i]\<rparr>)
       x [0..<min (length selected) MAX_STORAGE_NODES]"

type_synonym 'r request = "('r \<times> net_effect list \<times> frontend) option"

definition propose_reply ::
  "request_env \<Rightarrow> metadata_entry \<Rightarrow> frontend \<Rightarrow> (int \<times> string) request" where
  "propose_reply e x fe =
     map_option (\<lambda>(ok, ne, fe1). (if ok then (0, []) else (- errno_code EIO, ''Failed to commit metadata''), ne, fe1))
       (commit_metadata_with_paxos (rq_malloc e) (rq_propose e) x fe)"

text \<open>\<open>fe0\<close> is the state the checks see, \<open>fe\<close> the one when the lock has been taken.\<close>

definition Create ::
  "request_env \<Rightarrow> string \<Rightarrow> string \<Rightarrow> u32 \<Rightarrow> frontend \<Rightarrow> frontend \<Rightarrow> (int \<times> string) request" where
  "Create e pathname filename md fe0 fe =
     (case creation_check ''Invalid filename'' ''File already exists'' pathname filename (fe_meta fe0) of
        Inl r \<Rightarrow> Some (r, [], fe)
      | Inr full_path \<Rightarrow>
         let x0 = new_entry e full_path (S_IFREG OR md);
             (num_selected, selected, iface) = storage_interface_select_nodes 0 MAX_REPLICAS (fe_store fe);
             fe1 = fe\<lparr>fe_store := iface\<rparr>
         in if num_selected \<le> 0 then Some ((- ENODEV, ''No available storage nodes''), [], fe1)
            else propose_reply e
              ((assign_nodes iface selected x0)\<lparr>num_storage_nodes := word_of_int num_selected,
                 num_replicas := word_of_int num_selected, primary_node_idx := 0\<rparr>) fe1)"

definition Mkdir ::
  "request_env \<Rightarrow> string \<Rightarrow> string \<Rightarrow> u32 \<Rightarrow> frontend \<Rightarrow> frontend \<Rightarrow> (int \<times> string) request" where
  "Mkdir e pathname dirname md fe0 fe =
     (case creation_check ''Invalid directory name'' ''Directory already exists'' pathname dirname (fe_meta fe0) of
        Inl r \<Rightarrow> Some (r, [], fe)
      | Inr full_path \<Rightarrow> propose_reply e (new_entry e full_path (S_IFDIR OR md)) fe)"

section \<open>Removing\<close>

text \<open>The replicas of a file that the loops over \<^verbatim>\<open>storage_nodes\<close> do not skip; \<^term>\<open>None\<close> reads beyond the array.\<close>

definition replica_ids :: "metadata_entry \<Rightarrow> u32 list option" where
  "replica_ids x =
     (if unat (num_storage_nodes x) > length (storage_nodes x) then None
      else Some (filter (\<lambda>n. n \<noteq> 0) (take (unat (num_storage_nodes x)) (storage_nodes x))))"

definition quorum_required :: "metadata_entry \<Rightarrow> u32" where
  "quorum_required x = num_storage_nodes x div 2 + 1"

text \<open>The exchanges of a request are numbered from \<open>k\<close> on.\<close>

fun delete_replicas ::
  "(nat \<Rightarrow> tcp_env) \<Rightarrow> nat \<Rightarrow> u32 list \<Rightarrow> string \<Rightarrow> u32 \<Rightarrow> storage_interface \<Rightarrow> (u32 \<times> storage_interface) option" where
  "delete_replicas ts k [] fid success_count iface = Some (success_count, iface)"
| "delete_replicas ts k (nid # nids) fid success_count iface =
     (case storage_interface_delete (ts k) nid fid iface of
        None \<Rightarrow> None
      | Some (rc, resp, sent, iface1) \<Rightarrow>
          delete_replicas ts (Suc k) nids fid
            (if rc = 0 \<and> status resp = 0 then success_count + 1 else success_count) iface1)"

definition deleted_entry :: "request_env \<Rightarrow> metadata_entry \<Rightarrow> metadata_entry" where
  "deleted_entry e x = x\<lparr>fstate := FILE_STATE_DELETED, modified_time := rq_time e, version := version x + 1\<rparr>"

definition Remove :: "request_env \<Rightarrow> string \<Rightarrow> frontend \<Rightarrow> (int \<times> string) request" where
  "Remove e pathname fe =
     (let path = trim_trailing_slash (normalize_path pathname) in
      if path = ''/'' then Some ((- EINVAL, ''Cannot remove root path''), [], fe)
      else case metadata_lookup_by_path (fe_meta fe) (c_str path) of
             None \<Rightarrow> Some ((- errno_code ENOENT, ''File not found''), [], fe)
           | Some a \<Rightarrow>
              let x = heap (fe_meta fe) a in
              if fstate x = FILE_STATE_DELETED then Some ((- errno_code ENOENT, ''File not found''), [], fe)
              else if S_ISDIR (fmode x) then Some ((- errno_code EISDIR, ''Path is a directory; use rmdir''), [], fe)
              else if num_storage_nodes x > 0
              then Option.bind (replica_ids x) (\<lambda>ids.
                   Option.bind (delete_replicas (rq_tcp e) 0 ids (file_id x) 0 (fe_store fe)) (\<lambda>(success_count, iface).
                   let fe1 = fe\<lparr>fe_store := iface\<rparr> in
                   if success_count < quorum_required x
                   then Some ((- errno_code EIO, ''Delete quorum not reached''), [], fe1)
                   else propose_reply e (deleted_entry e x) fe1))
              else propose_reply e (deleted_entry e x) fe)"

definition Rmdir :: "request_env \<Rightarrow> string \<Rightarrow> frontend \<Rightarrow> (int \<times> string) request" where
  "Rmdir e pathname fe =
     (let path = trim_trailing_slash (normalize_path pathname) in
      if path = ''/'' then Some ((- EINVAL, ''Cannot remove root directory''), [], fe)
      else case metadata_lookup_by_path (fe_meta fe) (c_str path) of
             None \<Rightarrow> Some ((- errno_code ENOENT, ''Directory not found''), [], fe)
           | Some a \<Rightarrow>
              let x = heap (fe_meta fe) a in
              if fstate x = FILE_STATE_DELETED then Some ((- errno_code ENOENT, ''Directory not found''), [], fe)
              else if \<not> S_ISDIR (fmode x) then Some ((- errno_code ENOTDIR, ''Path is not a directory''), [], fe)
              else if directory_has_children (fe_meta fe) path
              then Some ((- errno_code ENOTEMPTY, ''Directory is not empty''), [], fe)
              else propose_reply e (deleted_entry e x) fe)"

section \<open>Writing and reading\<close>

fun write_replicas ::
  "(nat \<Rightarrow> tcp_env) \<Rightarrow> nat \<Rightarrow> u32 list \<Rightarrow> string \<Rightarrow> u64 \<Rightarrow> byte list \<Rightarrow> u32 \<times> u64 \<Rightarrow> storage_interface \<Rightarrow>
     (u32 \<times> u64 \<times> storage_interface) option" where
  "write_replicas ts k [] fid off data (success_count, bytes) iface = Some (success_count, bytes, iface)"
| "write_replicas ts k (nid # nids) fid off data (success_count, bytes) iface =
     (case storage_interface_write (ts k) nid fid off data iface of
        None \<Rightarrow> None
      | Some (rc, resp, sent, iface1) \<Rightarrow>
          write_replicas ts (Suc k) nids fid off data
            (if rc = 0 \<and> status resp = 0 then (success_count + 1, bytes_transferred resp) else (success_count, bytes)) iface1)"

record write_response =
  wr_status :: int
  wr_message :: string
  wr_bytes :: int

text \<open>After a failed commit \<open>entry\<close> is read again: it is still a pointer into the table.\<close>

definition Write :: "request_env \<Rightarrow> string \<Rightarrow> byte list \<Rightarrow> int \<Rightarrow> frontend \<Rightarrow> write_response request" where
  "Write e pathname data offset fe =
     (let path = normalize_path pathname;
          failed = (\<lambda>err msg. \<lparr>wr_status = - err, wr_message = msg, wr_bytes = 0\<rparr>)
      in case metadata_lookup_by_path (fe_meta fe) (c_str path) of
           None \<Rightarrow> Some (failed (errno_code ENOENT) ''File not found'', [], fe)
         | Some a \<Rightarrow>
            let x = heap (fe_meta fe) a in
            if num_storage_nodes x = 0 then Some (failed ENODEV ''No storage nodes available'', [], fe)
            else let original_size = fsize x;
                     write_offset = (if offset = 0 \<and> fsize x > 0 then fsize x else word_of_int offset)
              in Option.bind (replica_ids x) (\<lambda>ids.
                 Option.bind (write_replicas (rq_tcp e) 0 ids (file_id x) write_offset data (0, 0) (fe_store fe))
                   (\<lambda>(success_count, bytes, iface).
                 let fe1 = fe\<lparr>fe_store := iface\<rparr> in
                 if success_count \<ge> quorum_required x
                 then let new_end = write_offset + of_nat (length data);
                          proposed = x\<lparr>fsize := (if new_end > fsize x then new_end else fsize x),
                            modified_time := rq_time e, version := version x + 1\<rparr>
                   in Option.bind (commit_metadata_with_paxos (rq_malloc e) (rq_propose e) proposed fe1) (\<lambda>(ok, ne, fe2).
                      if ok then Some (\<lparr>wr_status = 0, wr_message = [], wr_bytes = sint bytes\<rparr>, ne, fe2)
                      else if original_size = 0 \<and> write_offset = 0
                      then let y = heap (fe_meta fe2) a in
                           Option.bind (replica_ids y) (\<lambda>ids'.
                           map_option (\<lambda>(n, iface'). (failed (errno_code EIO)
                               ''Write quorum reached but metadata consensus failed (rollback attempted)'', ne, fe2\<lparr>fe_store := iface'\<rparr>))
                             (delete_replicas (rq_cleanup e) 0 ids' (file_id y) 0 (fe_store fe2)))
                      else Some (failed (errno_code EIO) ''Write quorum reached but metadata consensus failed'', ne, fe2))
                 else Some (failed (errno_code EIO) ''Write quorum not reached'', [], fe1))))"

text \<open>The values read so far with the number of replicas that returned each.\<close>

fun read_replicas ::
  "(nat \<Rightarrow> tcp_env) \<Rightarrow> nat \<Rightarrow> u32 list \<Rightarrow> string \<Rightarrow> u64 \<Rightarrow> u64 \<Rightarrow> u32 \<Rightarrow> (byte list \<Rightarrow> u32) \<Rightarrow> storage_interface \<Rightarrow>
     (byte list option \<times> storage_interface) option" where
  "read_replicas ts k [] fid off sz q counts iface = Some (None, iface)"
| "read_replicas ts k (nid # nids) fid off sz q counts iface =
     (case storage_interface_read (ts k) nid fid off sz iface of
        None \<Rightarrow> None
      | Some (rc, resp, sent, iface1) \<Rightarrow>
         (case rdata resp of
            Some pl \<Rightarrow>
              (if rc = 0 \<and> status resp = 0
               then let counts1 = counts(pl := counts pl + 1)
                    in if counts1 pl \<ge> q then Some (Some pl, iface1)
                       else read_replicas ts (Suc k) nids fid off sz q counts1 iface1
               else read_replicas ts (Suc k) nids fid off sz q counts iface1)
          | None \<Rightarrow> read_replicas ts (Suc k) nids fid off sz q counts iface1))"

record get_response =
  gr_status :: int
  gr_message :: string
  gr_data :: "byte list"
  gr_bytes :: int

text \<open>The other frontends, asked in turn; \<open>ask\<close> is the answer of a peer if the call succeeded.\<close>

fun forward_get :: "(int \<Rightarrow> get_response option) \<Rightarrow> int \<Rightarrow> int list \<Rightarrow> get_response option" where
  "forward_get ask self [] = None"
| "forward_get ask self (peer # rest) =
     (if peer = self then forward_get ask self rest
      else case ask peer of
             Some r \<Rightarrow> if gr_status r = 0 then Some r else forward_get ask self rest
           | None \<Rightarrow> forward_get ask self rest)"

definition Get ::
  "request_env \<Rightarrow> bool \<Rightarrow> int option \<Rightarrow> int option \<Rightarrow> (int \<Rightarrow> get_response option) \<Rightarrow>
     string \<Rightarrow> int \<Rightarrow> int \<Rightarrow> frontend \<Rightarrow> get_response request" where
  "Get e no_forward node_env total_env ask pathname offset sz0 fe =
     (let path = normalize_path pathname;
          failed = (\<lambda>err msg. \<lparr>gr_status = - err, gr_message = msg, gr_data = [], gr_bytes = 0\<rparr>)
      in case metadata_lookup_by_path (fe_meta fe) (c_str path) of
           None \<Rightarrow>
             (let self = (case node_env of None \<Rightarrow> 0 | Some n \<Rightarrow> n);
                  total = (case total_env of None \<Rightarrow> 3 | Some n \<Rightarrow> if n > 0 then n else 3);
                  answer = (if no_forward then None else forward_get ask self [1..total])
              in Some (case answer of None \<Rightarrow> failed (errno_code ENOENT) ''File not found'' | Some r \<Rightarrow> r, [], fe))
         | Some a \<Rightarrow>
            let x = heap (fe_meta fe) a;
                sz = (if sz0 = 0 then if offset < sint (fsize x) then fsize x - word_of_int offset else 0 else word_of_int sz0)
            in if num_storage_nodes x = 0 then Some (failed ENODEV ''No storage nodes available'', [], fe)
               else Option.bind (replica_ids x) (\<lambda>ids.
                    map_option (\<lambda>(found, iface).
                        (case found of
                           Some v \<Rightarrow> \<lparr>gr_status = 0, gr_message = [], gr_data = v, gr_bytes = int (length v)\<rparr>
                         | None \<Rightarrow> failed (errno_code EIO) ''Read quorum not reached'', [], fe\<lparr>fe_store := iface\<rparr>))
                      (read_replicas (rq_tcp e) 0 ids (file_id x) (word_of_int offset) sz (quorum_required x) (\<lambda>_. 0) (fe_store fe))))"

section \<open>Listing\<close>

fun list_children :: "string \<Rightarrow> string set \<Rightarrow> metadata_entry list \<Rightarrow> file_entry list" where
  "list_children dir seen [] = []"
| "list_children dir seen (x # xs) =
     (case (if fstate x \<noteq> FILE_STATE_DELETED then is_direct_child_path dir (trim_trailing_slash (fpath x)) else None) of
        None \<Rightarrow> list_children dir seen xs
      | Some child_name \<Rightarrow>
          if child_name \<in> seen then list_children dir seen xs
          else \<lparr>e_name = child_name, e_is_directory = S_ISDIR (fmode x), e_size = sint (fsize x), e_mtime = sint (modified_time x)\<rparr>
               # list_children dir (insert child_name seen) xs)"

definition ReadDirectory :: "string \<Rightarrow> frontend \<Rightarrow> int \<times> string \<times> file_entry list" where
  "ReadDirectory pathname fe =
     (let path = trim_trailing_slash (normalize_path pathname);
          dir_path = trim_trailing_slash path;
          listing = (0, [], list_children dir_path {} (all_nodes (fe_meta fe)))
      in if dir_path \<noteq> ''/''
         then case metadata_lookup_by_path (fe_meta fe) (c_str dir_path) of
                None \<Rightarrow> (- errno_code ENOENT, ''Directory not found'', [])
              | Some a \<Rightarrow> if \<not> S_ISDIR (fmode (heap (fe_meta fe) a)) then (- errno_code ENOTDIR, ''Not a directory'', [])
                          else listing
         else listing)"

section \<open>Start\<close>

text \<open>\<^verbatim>\<open>%u\<close> and \<^verbatim>\<open>%hu\<close> keep the low bits of what \<^verbatim>\<open>strtoul\<close> yields; \<^verbatim>\<open>%[^:]\<close> has no width and needs 64 bytes at most.\<close>

definition scan_host :: "string \<Rightarrow> (string \<times> string) option" where
  "scan_host s = (let t = takeWhile (\<lambda>c. c \<noteq> CHR '':'') s in if t = [] then None else Some (t, drop (length t) s))"

definition scan_host_port :: "string \<Rightarrow> (string \<times> u16) option" where
  "scan_host_port s =
     Option.bind (scan_host s) (\<lambda>(ip, s1).
     Option.bind (scan_lit '':'' s1) (\<lambda>s2.
     map_option (\<lambda>(v, s3). (ip, ucast v)) (scan_ulong s2)))"

definition scan_peer :: "string \<Rightarrow> (u32 \<times> string \<times> u16) option" where
  "scan_peer s =
     Option.bind (scan_ulong s) (\<lambda>(v, s1).
     Option.bind (scan_lit ''@'' s1) (\<lambda>s2.
     map_option (\<lambda>(ip, prt). (ucast v, ip, prt)) (scan_host_port s2)))"

text \<open>The host part of a peer address is copied into 64 bytes even when the rest does not match;
  \<^term>\<open>None\<close> is an overrun.\<close>

fun add_peers :: "(nat \<Rightarrow> net_env) \<Rightarrow> nat \<Rightarrow> string list \<Rightarrow> network_engine \<Rightarrow> network_engine option" where
  "add_peers es k [] eng = Some eng"
| "add_peers es k (addr # addrs) eng =
     (case Option.bind (scan_ulong addr) (\<lambda>(v, s1). Option.bind (scan_lit ''@'' s1) scan_host) of
        Some (ip, rest) \<Rightarrow>
          if length ip \<ge> 64 then None
          else (case scan_peer addr of
                  Some (nid, ip, prt) \<Rightarrow>
                    (case network_engine_add_peer (es k) nid ip prt eng of (rc, effs, eng1) \<Rightarrow> add_peers es (Suc k) addrs eng1)
                | None \<Rightarrow> add_peers es (Suc k) addrs eng)
      | None \<Rightarrow> add_peers es (Suc k) addrs eng)"

text \<open>\<^verbatim>\<open>strtok(s, " ")\<close>\<close>

function space_tokens :: "string \<Rightarrow> string list" where
  "space_tokens s =
     (case dropWhile (\<lambda>c. c = CHR '' '') s of
        [] \<Rightarrow> []
      | c # cs \<Rightarrow> takeWhile (\<lambda>c. c \<noteq> CHR '' '') (c # cs) # space_tokens (dropWhile (\<lambda>c. c \<noteq> CHR '' '') (c # cs)))"
  by pat_completeness auto
termination
proof (relation "measure length")
  fix s :: string and c cs
  assume a: "dropWhile (\<lambda>c. c = CHR '' '') s = c # cs"
  have "c \<noteq> CHR '' ''" using hd_dropWhile [of "\<lambda>c. c = CHR '' ''" s] by (simp add: a)
  moreover have "length (c # cs) \<le> length s" using length_dropWhile_le [of "\<lambda>c. c = CHR '' ''" s] by (simp only: a)
  ultimately have "length (dropWhile (\<lambda>c. c \<noteq> CHR '' '') (c # cs)) < length s"
    using length_dropWhile_le [of "\<lambda>c. c \<noteq> CHR '' ''" cs] by simp
  then show "(dropWhile (\<lambda>c. c \<noteq> CHR '' '') (c # cs), s) \<in> measure length" by simp
qed simp

declare space_tokens.simps [simp del]

definition GIB :: u64 where "GIB = 1024 * 1024 * 1024"

fun register_nodes :: "time_t \<Rightarrow> string list \<Rightarrow> u32 \<Rightarrow> storage_interface \<Rightarrow> storage_interface option" where
  "register_nodes t [] nid iface = Some iface"
| "register_nodes t (tok # toks) nid iface =
     (case scan_host tok of
        Some (ip, rest) \<Rightarrow>
          if length ip \<ge> 64 then None
          else (case scan_host_port tok of
                  Some (ip, prt) \<Rightarrow> register_nodes t toks (nid + 1) (snd (storage_interface_register_node nid ip prt GIB t iface))
                | None \<Rightarrow> register_nodes t toks nid iface)
      | None \<Rightarrow> register_nodes t toks nid iface)"

definition default_nodes :: "time_t \<Rightarrow> storage_interface \<Rightarrow> storage_interface" where
  "default_nodes t iface =
     snd (storage_interface_register_node 103 ''storage-node-3'' 9000 GIB t
       (snd (storage_interface_register_node 102 ''storage-node-2'' 9000 GIB t
         (snd (storage_interface_register_node 101 ''storage-node-1'' 9000 GIB t iface)))))"

text \<open>What the host provides at the start: allocations by component, the log file, the answers of
  sockets and the environment variables (\<^verbatim>\<open>strtol\<close> of the timeout, the list of storage nodes).\<close>

record start_env =
  se_alloc :: "nat \<Rightarrow> bool"
  se_replay :: replay_env
  se_stack :: "byte list"
  se_open :: bool
  se_log :: "byte list"
  se_fd :: int
  se_bind :: bool
  se_listen :: bool
  se_thread :: bool
  se_peers :: "nat \<Rightarrow> net_env"
  se_timeout :: "int option"
  se_nodes :: "string option"
  se_time :: time_t

definition timeout_of :: "int option \<Rightarrow> u32" where
  "timeout_of v = (case v of None \<Rightarrow> 8000 | Some t \<Rightarrow> if 1000 \<le> t \<and> t \<le> 60000 then word_of_int t else 8000)"

text \<open>\<^term>\<open>None\<close> is a crash, \<open>Some None\<close> a reported failure.\<close>

definition initialize_distributed_system ::
  "start_env \<Rightarrow> u32 \<Rightarrow> u16 \<Rightarrow> u32 \<Rightarrow> string list \<Rightarrow> frontend option option" where
  "initialize_distributed_system e nid lport total_n peer_addrs =
     (case paxos_init nid total_n True True (se_alloc e 0) of
        None \<Rightarrow> Some None
      | Some n \<Rightarrow>
        (case metadata_manager_init (se_replay e) (se_stack e) (se_alloc e 1) (se_open e) (se_log e) of
           None \<Rightarrow> None
         | Some None \<Rightarrow> Some None
         | Some (Some mgr) \<Rightarrow>
           (case network_engine_init nid lport True (se_alloc e 2) of
              None \<Rightarrow> Some None
            | Some eng \<Rightarrow>
              (case network_engine_start (se_fd e) (se_bind e) (se_listen e) (se_thread e) eng of
                 (rc, effs, eng1) \<Rightarrow>
                 if rc \<noteq> 0 then Some None
                 else let n1 = paxos_set_proposal_timeout (timeout_of (se_timeout e)) (paxos_set_broadcast_callback True n) in
                   case add_peers (se_peers e) 0 peer_addrs eng1 of
                     None \<Rightarrow> None
                   | Some eng2 \<Rightarrow>
                     (case storage_interface_init (of_nat MAX_STORAGE_NODES) (se_alloc e 3) of
                        None \<Rightarrow> Some None
                      | Some iface \<Rightarrow>
                          map_option (\<lambda>iface1. Some \<lparr>fe_meta = mgr, fe_paxos = n1, fe_net = eng2, fe_store = iface1\<rparr>)
                            (case se_nodes e of
                               Some s \<Rightarrow> register_nodes (se_time e) (space_tokens s) 100 iface
                             | None \<Rightarrow> Some (default_nodes (se_time e) iface)))))))"

end
