(* ===== verification/Frontend_Table.thy ===== *)
theory Frontend_Table
  imports Frontend Metadata_Props
begin

text \<open>
  The file table as the coordinator sees it: the hash map as the set of its entries, what applying
  entries does to it, lookup by path, the path functions and directory listings.
\<close>

section \<open>The entries of the table\<close>

definition keys_distinct :: "metadata_manager \<Rightarrow> bool" where
  "keys_distinct m \<longleftrightarrow> (\<forall>i<HASH_MAP_SIZE. distinct (map fst (buckets m i)))"

definition tab_inv :: "metadata_manager \<Rightarrow> bool" where
  "tab_inv m \<longleftrightarrow> mgr_inv m \<and> keys_distinct m"

lemma empty_tab [simp]: "tab_inv (empty_manager f)"
  by (simp add: tab_inv_def) (simp add: keys_distinct_def empty_manager_def)

lemma bucket_find_distinct: "distinct (map fst nds) \<Longrightarrow> (k, a) \<in> set nds \<Longrightarrow> bucket_find k nds = Some a"
  by (induction nds) (auto simp: bucket_find_def rev_image_eqI)

lemma lookup_entry:
  assumes "tab_inv m" "i < HASH_MAP_SIZE" "(k, a) \<in> set (buckets m i)"
  shows "meta_map m (file_id (heap m a)) = Some (heap m a)"
proof -
  have k: "hash_string k = i" "file_id (heap m a) = k" using mgr_invD [OF _ assms(2,3)] assms(1) by (simp_all add: tab_inv_def)
  have "distinct (map fst (buckets m i))" using assms(1,2) by (simp add: tab_inv_def keys_distinct_def)
  with k assms(3) show ?thesis by (simp add: meta_map_def metadata_lookup_def bucket_find_distinct)
qed

lemma all_nodes_ran:
  assumes "tab_inv m"
  shows "set (all_nodes m) = ran (meta_map m)"
proof (intro equalityI subsetI)
  fix x assume "x \<in> set (all_nodes m)"
  then obtain i k a where "i < HASH_MAP_SIZE" "(k, a) \<in> set (buckets m i)" "x = heap m a" by (auto simp: all_nodes_def)
  with lookup_entry [OF assms, of i k a] show "x \<in> ran (meta_map m)" by (auto simp: ran_def)
next
  fix x assume "x \<in> ran (meta_map m)"
  then obtain k a where "metadata_lookup m k = Some a" "x = heap m a" by (auto simp: ran_def meta_map_def)
  moreover have "mgr_inv m" using assms by (simp add: tab_inv_def)
  ultimately have "(k, a) \<in> set (buckets m (hash_string k))" "x = heap m a" using lookup_node(1) by auto
  then show "x \<in> set (all_nodes m)" unfolding all_nodes_def
    by (auto intro!: rev_image_eqI [of "(k, a)"] bexI [of _ "hash_string k"])
qed

lemma ran_file_id: "tab_inv m \<Longrightarrow> meta_map m k = Some x \<Longrightarrow> file_id x = k"
  using lookup_node(3) by (auto simp: tab_inv_def meta_map_def)

lemma apply_entry_table:
  assumes "tab_inv m" "id_ok x"
  shows "tab_inv (snd (metadata_apply_entry True x m)) \<and>
    meta_map (snd (metadata_apply_entry True x m)) = (meta_map m)(file_id x \<mapsto> x)"
proof -
  have m: "mgr_inv m" "keys_distinct m" using assms(1) by (simp_all add: tab_inv_def)
  note c = apply_entry_correct [OF m(1) assms(2) prod.collapse [symmetric]]
  have "keys_distinct (snd (metadata_apply_entry True x m))"
  proof (cases "metadata_lookup m (file_id x)")
    case None
    then have "file_id x \<notin> fst ` set (buckets m (hash_string (file_id x)))"
      by (simp add: metadata_lookup_def bucket_find_NoneD)
    with None m(2) show ?thesis
      by (simp add: metadata_apply_entry_def Let_def keys_distinct_def insert_node_simps [OF assms(2)])
  next
    case (Some a)
    with m(2) show ?thesis by (simp add: metadata_apply_entry_def Let_def keys_distinct_def)
  qed
  with c show ?thesis by (simp add: tab_inv_def)
qed

text \<open>A path is found exactly when some live entry has it.\<close>

lemma find_SomeD: "find P xs = Some y \<Longrightarrow> y \<in> set xs \<and> P y"
  by (induction xs) (auto split: if_splits)

lemma lookup_by_path_nodes:
  assumes "metadata_lookup_by_path m p = Some a"
  shows "heap m a \<in> set (all_nodes m)" "fpath (heap m a) = p" "fstate (heap m a) \<noteq> FILE_STATE_DELETED"
proof -
  define N where "N = concat (map (buckets m) [0..<HASH_MAP_SIZE])"
  obtain nd where "find (\<lambda>nd. fpath (heap m (snd nd)) = p \<and> fstate (heap m (snd nd)) \<noteq> FILE_STATE_DELETED) N = Some nd" "a = snd nd"
    using assms unfolding metadata_lookup_by_path_def N_def [symmetric] by auto
  then have "nd \<in> set N" "fpath (heap m a) = p" "fstate (heap m a) \<noteq> FILE_STATE_DELETED" "a = snd nd" by (auto dest: find_SomeD)
  then show "heap m a \<in> set (all_nodes m)" "fpath (heap m a) = p" "fstate (heap m a) \<noteq> FILE_STATE_DELETED"
    unfolding all_nodes_def N_def [symmetric] by auto
qed

lemma lookup_by_path_None:
  "metadata_lookup_by_path m p = None \<longleftrightarrow> (\<forall>x \<in> set (all_nodes m). fpath x = p \<longrightarrow> fstate x = FILE_STATE_DELETED)"
proof -
  define N where "N = concat (map (buckets m) [0..<HASH_MAP_SIZE])"
  show ?thesis unfolding metadata_lookup_by_path_def all_nodes_def N_def [symmetric] by (auto simp: find_None_iff)
qed

section \<open>Applied entries\<close>

definition puts :: "metadata_entry list \<Rightarrow> (string \<rightharpoonup> metadata_entry) \<Rightarrow> string \<rightharpoonup> metadata_entry" where
  "puts xs f = fold (\<lambda>x g. g(file_id x \<mapsto> x)) xs f"

lemma puts_simps [simp]: "puts [] f = f" "puts (x # xs) f = puts xs (f(file_id x \<mapsto> x))" "puts (xs @ ys) f = puts ys (puts xs f)"
  by (simp_all add: puts_def)

lemma puts_other: "\<forall>x \<in> set xs. file_id x \<noteq> k \<Longrightarrow> puts xs f k = f k"
  by (induction xs arbitrary: f) auto

lemma puts_single: "set xs \<subseteq> {x} \<Longrightarrow> xs \<noteq> [] \<Longrightarrow> puts xs f = f(file_id x \<mapsto> x)"
proof (induction xs arbitrary: f)
  case (Cons y ys)
  then show ?case by (cases "ys = []") auto
qed simp

lemma puts_last:
  assumes "x \<in> set xs" "\<forall>y \<in> set xs. file_id y = file_id x \<longrightarrow> y = x"
  shows "puts xs f (file_id x) = Some x"
  using assms
proof (induction xs arbitrary: f)
  case (Cons y ys)
  show ?case
  proof (cases "x \<in> set ys")
    case False
    with Cons.prems have "y = x" "\<forall>z \<in> set ys. file_id z \<noteq> file_id x" by auto
    then show ?thesis by (simp add: puts_other)
  qed (use Cons in simp)
qed simp

text \<open>The entries \<open>xs\<close> have been applied in this order.\<close>

definition table_steps :: "metadata_manager \<Rightarrow> metadata_entry list \<Rightarrow> metadata_manager \<Rightarrow> bool" where
  "table_steps m xs m' \<longleftrightarrow> tab_inv m' \<and> meta_map m' = puts xs (meta_map m)"

lemma table_steps_refl: "tab_inv m \<Longrightarrow> table_steps m [] m"
  by (simp add: table_steps_def)

lemma table_steps_trans: "table_steps m xs m1 \<Longrightarrow> table_steps m1 ys m2 \<Longrightarrow> table_steps m (xs @ ys) m2"
  by (simp add: table_steps_def)

lemma table_steps_inv: "table_steps m xs m' \<Longrightarrow> tab_inv m'"
  by (simp add: table_steps_def)

lemma wal_append_table:
  assumes "wal_append e ptr op x m = (lsn, m')"
  shows "tab_inv m' = tab_inv m \<and> meta_map m' = meta_map m"
proof -
  have "buckets m' = buckets m \<and> heap m' = heap m \<and> heap_next m' = heap_next m"
    using assms by (auto simp: wal_append_def metadata_serialize_def Let_def split: if_splits)
  then show ?thesis by (simp add: tab_inv_def mgr_inv_def keys_distinct_def meta_map_def [abs_def] metadata_lookup_def)
qed

lemma ran_puts: "ran (puts xs f) \<subseteq> ran f \<union> set xs"
proof (induction xs arbitrary: f)
  case (Cons x xs)
  have "ran (f(file_id x \<mapsto> x)) \<subseteq> insert x (ran f)" by (auto simp: ran_def split: if_splits)
  with Cons.IH [of "f(file_id x \<mapsto> x)"] show ?case by (simp only: puts_simps(2) list.set(2)) blast
qed simp

section \<open>Paths\<close>

definition trimmed :: "string \<Rightarrow> bool" where
  "trimmed p \<longleftrightarrow> p \<noteq> [] \<and> hd p = CHR ''/'' \<and> (p = ''/'' \<or> last p \<noteq> CHR ''/'')"

lemma trim_end_spec: "0 < k \<Longrightarrow> 0 < trim_end p k \<and> trim_end p k \<le> k \<and> (trim_end p k = 1 \<or> p ! (trim_end p k - 1) \<noteq> CHR ''/'')"
proof (induction k)
  case (Suc k)
  then show ?case by (cases k) auto
qed simp

lemma trim_trimmed: "p \<noteq> [] \<Longrightarrow> hd p = CHR ''/'' \<Longrightarrow> trimmed (trim_trailing_slash p)"
proof (cases "p = ''/''")
  case False
  assume p: "p \<noteq> []" "hd p = CHR ''/''"
  let ?k = "trim_end p (length p)"
  have k: "0 < ?k" "?k \<le> length p" "?k = 1 \<or> p ! (?k - 1) \<noteq> CHR ''/''" using trim_end_spec [of "length p" p] p(1) by auto
  have "hd (take ?k p) = CHR ''/''" using p k(1) by (cases p) (auto simp: take_Cons')
  moreover have "last (take ?k p) = p ! (?k - 1)" using k(1,2) p(1) by (subst last_conv_nth) auto
  moreover have "take ?k p = ''/''" if "?k = 1" using p that by (cases p) auto
  ultimately show ?thesis using False k p(1) by (auto simp: trimmed_def trim_trailing_slash_def)
qed (simp add: trimmed_def trim_trailing_slash_def)

lemma trim_id: "trimmed p \<Longrightarrow> trim_trailing_slash p = p"
proof (cases "p = ''/''")
  case False
  assume "trimmed p"
  with False have p: "p \<noteq> []" "p ! (length p - 1) \<noteq> CHR ''/''" by (auto simp: trimmed_def last_conv_nth)
  then obtain k where "length p = Suc k" by (cases "length p") auto
  with p(2) have "trim_end p (length p) = length p" by simp
  with False show ?thesis by (simp add: trim_trailing_slash_def)
qed (simp add: trim_trailing_slash_def)

lemma normalize_trimmed [simp]: "trimmed (trim_trailing_slash (normalize_path p))"
  by (rule trim_trimmed) (auto simp: normalize_path_def)

lemma trimmed_normalize: "trimmed p \<Longrightarrow> normalize_path p = p"
  by (simp add: trimmed_def normalize_path_def)

lemma join_trimmed:
  assumes "trimmed dir" "name \<noteq> []" "CHR ''/'' \<notin> set name"
  shows "join_path dir name = (if dir = ''/'' then ''/'' else dir @ ''/'') @ name" "trimmed (join_path dir name)"
proof -
  show j: "join_path dir name = (if dir = ''/'' then ''/'' else dir @ ''/'') @ name"
    using assms(1) by (simp add: join_path_def trimmed_normalize trim_id)
  have "last name \<noteq> CHR ''/''" using assms(2,3) by (metis last_in_set)
  then show "trimmed (join_path dir name)" using assms(1,2) by (auto simp: j trimmed_def)
qed

text \<open>The direct children of a directory are the paths made by joining a name to it.\<close>

lemma direct_child_iff:
  assumes "trimmed dir"
  shows "is_direct_child_path dir c = Some n \<longleftrightarrow> n \<noteq> [] \<and> CHR ''/'' \<notin> set n \<and> c = join_path dir n"
proof -
  let ?pre = "if dir = ''/'' then ''/'' else dir @ ''/''"
  have d: "dir \<noteq> ?pre @ n" if "n \<noteq> []" for n using that by auto
  have eq: "is_direct_child_path dir c = (if c = [] \<or> c = dir then None else if take (length ?pre) c \<noteq> ?pre then None
      else if drop (length ?pre) c = [] then None else if CHR ''/'' \<in> set (drop (length ?pre) c) then None
      else Some (drop (length ?pre) c))"
    by (simp add: is_direct_child_path_def trim_id [OF assms] Let_def)
  show ?thesis
  proof
    assume "is_direct_child_path dir c = Some n"
    then have n: "n \<noteq> []" "CHR ''/'' \<notin> set n" and c: "take (length ?pre) c = ?pre" "n = drop (length ?pre) c"
      unfolding eq by (auto split: if_splits)
    have "c = ?pre @ n" using append_take_drop_id [of "length ?pre" c] unfolding c by simp
    with n join_trimmed(1) [OF assms n] show "n \<noteq> [] \<and> CHR ''/'' \<notin> set n \<and> c = join_path dir n" by simp
  next
    assume n: "n \<noteq> [] \<and> CHR ''/'' \<notin> set n \<and> c = join_path dir n"
    then have c: "c = ?pre @ n" using join_trimmed(1) [OF assms] by blast
    then have "take (length ?pre) c = ?pre" "drop (length ?pre) c = n" by simp_all
    moreover have "c \<noteq> []" "c \<noteq> dir" using n d [of n] c by auto
    ultimately show "is_direct_child_path dir c = Some n" unfolding eq using n by simp
  qed
qed

section \<open>Listings\<close>

definition child_of :: "string \<Rightarrow> metadata_entry \<Rightarrow> string option" where
  "child_of dir x = (if fstate x \<noteq> FILE_STATE_DELETED then is_direct_child_path dir (trim_trailing_slash (fpath x)) else None)"

lemma list_children_names:
  "distinct (map e_name (list_children dir seen xs)) \<and>
   e_name ` set (list_children dir seen xs) = {n. \<exists>x \<in> set xs. child_of dir x = Some n} - seen"
proof (induction xs arbitrary: seen)
  case (Cons x xs)
  show ?case
  proof (cases "child_of dir x")
    case None
    with Cons [of seen] show ?thesis by (simp add: child_of_def)
  next
    case (Some n)
    with Cons [of seen] Cons [of "insert n seen"] show ?thesis by (auto simp: child_of_def)
  qed
qed simp

end
