(* ===== verification/Paxos_Props.thy ===== *)
theory Paxos_Props
  imports Paxos
begin

text \<open>
  What one node of the consensus module guarantees (proposal ids, promises, persistence, quorum,
  learning, wire format) and what the protocol as coded does not: agreement. \<open>node_run\<close> are the
  executions of one node, with the responses it sends; \<open>cluster\<close> is a group of nodes with the
  messages in transit, driven by an explicit schedule.
\<close>

section \<open>Executions\<close>

text \<open>The ballot counter has room for another proposal.\<close>

definition ballot_room :: "paxos_node \<Rightarrow> bool" where
  "ballot_room n \<longleftrightarrow> unat (highest_proposal_seen n) div 2 ^ 16 < 2 ^ 48 - 1"

inductive node_run :: "paxos_node \<Rightarrow> paxos_message list \<Rightarrow> paxos_node \<Rightarrow> bool" where
  start: "node_run s [] s"
| handle: "node_run s rs t \<Longrightarrow> paxos_handle_message e t m = (rc, resp, effs, t') \<Longrightarrow>
     node_run s (rs @ (case resp of None \<Rightarrow> [] | Some r \<Rightarrow> [r])) t'"
| propose: "node_run s rs t \<Longrightarrow> ballot_room t \<Longrightarrow> paxos_propose_begin e t v len = (res, effs, t') \<Longrightarrow>
     node_run s rs t'"
| accept: "node_run s rs t \<Longrightarrow> paxos_propose_accept e t i pid sq v len rc = (ok, effs, t') \<Longrightarrow>
     node_run s rs t'"
| finish: "node_run s rs t \<Longrightarrow> paxos_propose_finish t i wrc = (rc, t') \<Longrightarrow> node_run s rs t'"

section \<open>Fields a step keeps\<close>

lemma upd_proposal_simps [simp]:
  "highest_proposal_seen (upd_proposal i f n) = highest_proposal_seen n"
  "last_accepted_proposal (upd_proposal i f n) = last_accepted_proposal n"
  "highest_sequence_committed (upd_proposal i f n) = highest_sequence_committed n"
  "highest_sequence_persisted (upd_proposal i f n) = highest_sequence_persisted n"
  "quorum_size (upd_proposal i f n) = quorum_size n" "max_proposals (upd_proposal i f n) = max_proposals n"
  "active_proposals (upd_proposal i f n) = (active_proposals n)(i := f (active_proposals n i))"
  "node_id (upd_proposal i f n) = node_id n" "persist_callback (upd_proposal i f n) = persist_callback n"
  "apply_callback (upd_proposal i f n) = apply_callback n"
  "broadcast_callback (upd_proposal i f n) = broadcast_callback n"
  "next_sequence_number (upd_proposal i f n) = next_sequence_number n"
  by (simp_all add: upd_proposal_def)

lemma check_quorum_upd [simp]: "paxos_check_quorum (upd_proposal i f n) c = paxos_check_quorum n c"
  by (simp add: paxos_check_quorum_def)

lemmas handler_defs = handle_prepare_def handle_promise_def handle_accept_def handle_accepted_def
  handle_learn_def

lemma zero_message_simps [simp]:
  "m_phase zero_message = 0" "m_value zero_message = None" "m_value_len zero_message = 0"
  by (simp_all add: zero_message_def)

section \<open>Proposal ids\<close>

lemma next_ballot_unat:
  fixes h :: u64
  shows "unat (drop_bit 16 h + 1) = unat h div 2 ^ 16 + 1"
proof -
  have "unat h < 2 ^ 64" using unsigned_less [of h] by simp
  then have "unat h div 2 ^ 16 < 2 ^ 48" by simp
  then show ?thesis
    by (simp add: unat_word_ariths unsigned_drop_bit_eq drop_bit_eq_div)
qed

lemma unat_push_bit_16: "unat (b :: u64) < 2 ^ 48 \<Longrightarrow> unat (push_bit 16 b) = unat b * 2 ^ 16"
  by (simp add: push_bit_eq_mult unat_mult_lem [THEN iffD1])

lemma low_bits_disjoint:
  fixes b :: u64 and k :: u32
  shows "push_bit 16 b OR ucast (k AND 0xFFFF) = push_bit 16 b + ucast (k AND 0xFFFF)"
proof (rule disjunctive_add [symmetric])
  fix i
  show "\<not> bit (push_bit 16 b) i \<or> \<not> bit (ucast (k AND 0xFFFF) :: u64) i"
  proof (cases "i < 16")
    case False
    have "(0xFFFF :: u32) = mask 16" by (simp add: mask_eq_exp_minus_1)
    with False have "\<not> bit (k AND 0xFFFF) i" by (simp only: bit_and_iff bit_mask_iff) simp
    then show ?thesis by (simp add: bit_ucast_iff)
  qed (simp add: bit_push_bit_iff)
qed

lemma node_bits_less: "unat (ucast (k AND 0xFFFF :: u32) :: u64) < 2 ^ 16"
proof -
  have "k AND 0xFFFF = take_bit 16 k" by (simp add: take_bit_eq_mask mask_eq_exp_minus_1)
  then have "unat (k AND 0xFFFF) < 2 ^ 16"
    using take_bit_nat_less_exp [of 16 "unat k"] by (simp add: unsigned_take_bit_eq)
  then show ?thesis by (simp add: unsigned_ucast_eq take_bit_nat_eq_self)
qed

lemma next_proposal_id_unat:
  assumes "ballot_room n" "paxos_next_proposal_id n = (pid, n')"
  shows "unat pid = (unat (highest_proposal_seen n) div 2 ^ 16 + 1) * 2 ^ 16
           + unat (ucast (node_id n AND 0xFFFF) :: u64)"
    and "n' = n\<lparr>highest_proposal_seen := pid\<rparr>"
proof -
  let ?b = "drop_bit 16 (highest_proposal_seen n) + 1" and ?k = "ucast (node_id n AND 0xFFFF) :: u64"
  have b: "unat ?b = unat (highest_proposal_seen n) div 2 ^ 16 + 1" by (rule next_ballot_unat)
  then have "?b \<noteq> 0" by (metis Suc_eq_plus1 nat.distinct(1) unsigned_0)
  with assms(2) have pid: "pid = push_bit 16 ?b + ?k" and "n' = n\<lparr>highest_proposal_seen := pid\<rparr>"
    by (auto simp: paxos_next_proposal_id_def Let_def low_bits_disjoint)
  then show "n' = n\<lparr>highest_proposal_seen := pid\<rparr>" by simp
  have "unat ?b < 2 ^ 48" using assms(1) b by (simp add: ballot_room_def)
  then have p: "unat (push_bit 16 ?b) = unat ?b * 2 ^ 16"
    by (rule unat_push_bit_16)
  have "unat ?b * 2 ^ 16 + unat ?k < 2 ^ 64"
    using \<open>unat ?b < 2 ^ 48\<close> node_bits_less [of "node_id n"] by simp
  then have "unat pid = unat (push_bit 16 ?b) + unat ?k"
    unfolding pid using p by (intro unat_add_lem [THEN iffD1]) simp
  with p b show "unat pid = (unat (highest_proposal_seen n) div 2 ^ 16 + 1) * 2 ^ 16
           + unat (ucast (node_id n AND 0xFFFF) :: u64)" by simp
qed

lemma next_proposal_id_greater:
  assumes "ballot_room n" "paxos_next_proposal_id n = (pid, n')"
  shows "highest_proposal_seen n < pid"
proof -
  have "unat (highest_proposal_seen n) < (unat (highest_proposal_seen n) div 2 ^ 16 + 1) * 2 ^ 16"
    using div_mult_mod_eq [of "unat (highest_proposal_seen n)" "2 ^ 16"]
      mod_less_divisor [of "2 ^ 16" "unat (highest_proposal_seen n)"] by simp
  then have "unat (highest_proposal_seen n) < unat pid"
    using next_proposal_id_unat(1) [OF assms] by linarith
  then show ?thesis by (simp add: word_less_nat_alt)
qed

section \<open>Promises\<close>

lemma handle_highest_mono:
  "paxos_handle_message e n m = (rc, r, effs, n') \<Longrightarrow> highest_proposal_seen n \<le> highest_proposal_seen n'"
  by (auto simp: paxos_handle_message_def handler_defs Let_def split: if_splits option.splits)

lemma handle_accepted_response:
  "paxos_handle_message e n m = (rc, Some r, effs, n') \<Longrightarrow> m_phase r = PAXOS_PHASE_ACCEPTED \<Longrightarrow>
     highest_proposal_seen n \<le> m_proposal_id r \<and> m_phase m = PAXOS_PHASE_ACCEPT"
  by (auto simp: paxos_handle_message_def handler_defs Let_def split: if_splits option.splits)

lemma propose_begin_highest:
  assumes "paxos_propose_begin e n v len = (res, effs, n')" "ballot_room n"
  shows "highest_proposal_seen n \<le> highest_proposal_seen n'"
proof -
  obtain pid n1 where i: "paxos_next_proposal_id n = (pid, n1)" by fastforce
  note g = next_proposal_id_greater [OF assms(2) i] and n1 = next_proposal_id_unat(2) [OF assms(2) i]
  have "highest_proposal_seen n' = highest_proposal_seen n \<or> highest_proposal_seen n' = pid"
    using assms(1) by (auto simp: paxos_propose_begin_def i n1 Let_def split: if_splits option.splits)
  with g show ?thesis by auto
qed

lemma propose_accept_highest:
  "paxos_propose_accept e n i pid sq v len rc = (ok, effs, n') \<Longrightarrow>
     highest_proposal_seen n \<le> highest_proposal_seen n'"
  by (auto simp: paxos_propose_accept_def Let_def split: if_splits)

lemma node_run_promises:
  "node_run s rs t \<Longrightarrow> highest_proposal_seen s \<le> highest_proposal_seen t \<and>
     (\<forall>a \<in> set rs. m_phase a = PAXOS_PHASE_ACCEPTED \<longrightarrow> highest_proposal_seen s \<le> m_proposal_id a)"
proof (induction rule: node_run.induct)
  case (handle s rs t e m rc resp effs t')
  have "highest_proposal_seen s \<le> m_proposal_id a"
    if "resp = Some a" "m_phase a = PAXOS_PHASE_ACCEPTED" for a
    using handle_accepted_response [of e t m rc a effs t'] handle that by auto
  with handle handle_highest_mono [OF handle(2)] show ?case by (auto split: option.splits)
next
  case (propose s rs t e v len res effs t')
  with propose_begin_highest [OF propose(3,2)] show ?case by auto
next
  case (accept s rs t e i pid sq v len rc ok effs t')
  with propose_accept_highest [OF accept(2)] show ?case by auto
next
  case (finish s rs t i wrc rc t')
  then show ?case by (auto simp: paxos_propose_finish_def)
qed simp_all

section \<open>Sequences of messages\<close>

fun handle_all :: "paxos_env \<Rightarrow> paxos_node \<Rightarrow> paxos_message list \<Rightarrow> paxos_effect list \<times> paxos_node" where
  "handle_all e n [] = ([], n)"
| "handle_all e n (m # ms) =
     (let (rc, resp, effs, n') = paxos_handle_message e n m; (effs', n'') = handle_all e n' ms
      in (effs @ effs', n''))"

definition applied_ops :: "paxos_effect list \<Rightarrow> (u64 \<times> byte list option \<times> u64) list" where
  "applied_ops effs = concat (map (\<lambda>x. case x of E_apply s v l \<Rightarrow> [(s, v, l)] | _ \<Rightarrow> []) effs)"

definition learned_op :: "paxos_message \<Rightarrow> u64 \<times> byte list option \<times> u64" where
  "learned_op m = (m_sequence_number m, m_value m, m_value_len m)"

definition learns :: "paxos_message list \<Rightarrow> paxos_message list" where
  "learns ms = filter (\<lambda>m. m_phase m = PAXOS_PHASE_LEARN) ms"

text \<open>The messages whose sequence number is above a bound and above those of all messages before them.\<close>

fun records :: "u64 \<Rightarrow> paxos_message list \<Rightarrow> paxos_message list" where
  "records h [] = []"
| "records h (m # ms) =
     (if m_sequence_number m > h then m # records (m_sequence_number m) ms else records h ms)"

lemma records_above: "m \<in> set (records h ms) \<Longrightarrow> h < m_sequence_number m"
  by (induction ms arbitrary: h) (auto split: if_splits intro: less_trans)

lemma sorted_records: "sorted_wrt (<) (map (fst \<circ> learned_op) (records h ms))"
  by (induction ms arbitrary: h) (auto simp: learned_op_def dest: records_above)

lemma applied_ops_append [simp]: "applied_ops (xs @ ys) = applied_ops xs @ applied_ops ys"
  by (simp add: applied_ops_def)

lemma handle_learn_applied:
  assumes "m_phase m = PAXOS_PHASE_LEARN" "apply_callback n" "paxos_handle_message e n m = (rc, resp, effs, n')"
  shows "applied_ops effs = (if m_sequence_number m > highest_sequence_committed n then [learned_op m] else [])"
    "highest_sequence_committed n' = max (m_sequence_number m) (highest_sequence_committed n)" "apply_callback n'"
  using assms
  by (auto simp: paxos_handle_message_def handle_learn_def Let_def applied_ops_def learned_op_def max_def split: if_splits)

lemma handle_other_applied:
  assumes "m_phase m \<noteq> PAXOS_PHASE_LEARN" "m_phase m \<noteq> PAXOS_PHASE_ACCEPTED"
    "paxos_handle_message e n m = (rc, resp, effs, n')"
  shows "applied_ops effs = []" "highest_sequence_committed n' = highest_sequence_committed n"
    "apply_callback n' = apply_callback n"
  using assms
  by (auto simp: paxos_handle_message_def handler_defs Let_def applied_ops_def split: if_splits option.splits)

lemma learn_applies_records:
  "apply_callback n \<Longrightarrow> \<forall>m \<in> set ms. m_phase m \<noteq> PAXOS_PHASE_ACCEPTED \<Longrightarrow>
     applied_ops (fst (handle_all e n ms)) = map learned_op (records (highest_sequence_committed n) (learns ms)) \<and>
     highest_sequence_committed (snd (handle_all e n ms)) =
       fold max (map m_sequence_number (learns ms)) (highest_sequence_committed n)"
proof (induction ms arbitrary: n)
  case (Cons m ms)
  obtain rc resp effs n' where h: "paxos_handle_message e n m = (rc, resp, effs, n')" by (metis prod_cases4)
  note [simp] = h case_prod_beta learns_def
  show ?case
  proof (cases "m_phase m = PAXOS_PHASE_LEARN")
    case True
    note l = handle_learn_applied [OF True Cons.prems(1) h]
    from Cons.IH [OF l(3)] Cons.prems(2) show ?thesis
      by (cases "highest_sequence_committed n < m_sequence_number m") (simp_all add: True l(1,2) max.absorb1 max.absorb2 less_imp_le)
  next
    case False
    note l = handle_other_applied [OF False _ h]
    from Cons.IH [of n'] Cons.prems show ?thesis by (simp add: False l)
  qed
qed (simp_all add: applied_ops_def learns_def)

subsection \<open>Counting ACCEPTED messages\<close>

definition open_slot :: "paxos_node \<Rightarrow> nat \<Rightarrow> u64 \<Rightarrow> bool" where
  "open_slot n i pid \<longleftrightarrow> proposal_id (active_proposals n i) = pid \<and> in_use (active_proposals n i) \<and>
     \<not> completed (active_proposals n i)"

lemma proposal_for_slot:
  assumes "i < max_proposals n" "open_slot n i (m_proposal_id m)"
    "\<forall>j<max_proposals n. j \<noteq> i \<longrightarrow> \<not> open_slot n j (m_proposal_id m)"
  shows "proposal_for n m = Some i"
  unfolding proposal_for_def open_slot_def [symmetric]
  using assms by (intro find_idx_unique) blast+

lemma proposal_for_none:
  "\<forall>j<max_proposals n. \<not> open_slot n j (m_proposal_id m) \<Longrightarrow> proposal_for n m = None"
  by (auto simp: proposal_for_def find_idx_None_iff open_slot_def)

lemma accepted_ignored:
  assumes "\<forall>m \<in> set ms. m_phase m = PAXOS_PHASE_ACCEPTED \<and> m_proposal_id m = pid"
    "\<forall>j<max_proposals n. \<not> open_slot n j pid"
  shows "handle_all e n ms = ([], n)"
  using assms
proof (induction ms)
  case (Cons m ms)
  have m: "m_phase m = PAXOS_PHASE_ACCEPTED" "m_proposal_id m = pid" using Cons.prems(1) by simp_all
  with Cons.prems(2) have "proposal_for n m = None" using proposal_for_none [of n m] by blast
  moreover have "handle_all e n ms = ([], n)" using Cons.IH Cons.prems by (meson list.set_intros(2))
  ultimately show ?case using m(1) by (simp add: paxos_handle_message_def handle_accepted_def)
qed simp

lemma accepted_counts:
  assumes "\<forall>m \<in> set ms. m_phase m = PAXOS_PHASE_ACCEPTED \<and> m_proposal_id m = pid"
    "i < max_proposals n" "open_slot n i pid" "\<not> committed (active_proposals n i)"
    "\<forall>j<max_proposals n. j \<noteq> i \<longrightarrow> \<not> open_slot n j pid"
    "unat (accept_count (active_proposals n i)) + length ms < 2 ^ 32"
    "accept_count (active_proposals n i) < quorum_size n"
  shows "committed (active_proposals (snd (handle_all e n ms)) i) \<longleftrightarrow>
    unat (quorum_size n) \<le> unat (accept_count (active_proposals n i)) + length ms"
  using assms
proof (induction ms arbitrary: n)
  case Nil
  then show ?case by (simp add: word_less_nat_alt)
next
  case (Cons m ms)
  let ?p = "active_proposals n i"
  have pf: "proposal_for n m = Some i" using Cons.prems by (intro proposal_for_slot) auto
  have c: "unat (accept_count ?p + 1) = unat (accept_count ?p) + 1"
    using Cons.prems(6) by (simp add: unat_add_lem [THEN iffD1])
  obtain rc resp effs n' where h: "paxos_handle_message e n m = (rc, resp, effs, n')" by (metis prod_cases4)
  have eq: "handle_accepted n m = (rc, resp, effs, n')"
    using h Cons.prems(1) by (simp add: paxos_handle_message_def)
  show ?case
  proof (cases "paxos_check_quorum n (accept_count ?p + 1)")
    case True
    then have n': "active_proposals n' = (active_proposals n)
        (i := ?p\<lparr>accept_count := accept_count ?p + 1, committed := True, completed := True\<rparr>)"
      "max_proposals n' = max_proposals n"
      using eq by (auto simp: handle_accepted_def pf Let_def)
    have "\<forall>j<max_proposals n'. \<not> open_slot n' j pid"
      using Cons.prems(5) by (auto simp: open_slot_def n')
    with Cons.prems(1) have "handle_all e n' ms = ([], n')" by (intro accepted_ignored) auto
    with True c h show ?thesis
      by (simp add: n' paxos_check_quorum_def word_le_nat_alt)
  next
    case False
    then have n': "active_proposals n' = (active_proposals n)(i := ?p\<lparr>accept_count := accept_count ?p + 1\<rparr>)"
      "max_proposals n' = max_proposals n" "quorum_size n' = quorum_size n"
      using eq by (auto simp: handle_accepted_def pf Let_def)
    have "committed (active_proposals (snd (handle_all e n' ms)) i) \<longleftrightarrow>
        unat (quorum_size n') \<le> unat (accept_count (active_proposals n' i)) + length ms"
      using Cons.prems False c
      by (intro Cons.IH) (auto simp: n' open_slot_def paxos_check_quorum_def)
    with c h show ?thesis by (simp add: n' case_prod_beta)
  qed
qed

section \<open>Quorums\<close>

text \<open>The law quorum-based protocols rest on, stated for any family of majorities.\<close>

locale majority_quorums =
  fixes members :: "'n set" and is_quorum :: "'n set \<Rightarrow> bool"
  assumes members_finite: "finite members"
    and quorum_members: "is_quorum Q \<Longrightarrow> Q \<subseteq> members"
    and quorum_majority: "is_quorum Q \<Longrightarrow> card members < 2 * card Q"
begin

lemma quorums_meet: "is_quorum P \<Longrightarrow> is_quorum Q \<Longrightarrow> P \<inter> Q \<noteq> {}"
proof
  assume q: "is_quorum P" "is_quorum Q" "P \<inter> Q = {}"
  have fin: "finite P" "finite Q" using q quorum_members members_finite finite_subset by blast+
  have "card P + card Q = card (P \<union> Q)" using card_Un_disjoint [OF fin q(3)] by simp
  also have "\<dots> \<le> card members" using q quorum_members members_finite by (intro card_mono) auto
  finally show False using quorum_majority [OF q(1)] quorum_majority [OF q(2)] by linarith
qed

lemma no_two_minorities: "is_quorum P \<Longrightarrow> is_quorum Q \<Longrightarrow> \<exists>a \<in> members. a \<in> P \<and> a \<in> Q"
  using quorums_meet [of P Q] quorum_members by blast

end

definition cluster_ids :: "u32 \<Rightarrow> nat set" where
  "cluster_ids total_n = {1..unat total_n}"

text \<open>The sets of nodes whose number passes \<^verbatim>\<open>paxos_check_quorum\<close> at a node of a cluster.\<close>

definition count_is_quorum :: "u32 \<Rightarrow> nat set \<Rightarrow> bool" where
  "count_is_quorum total_n Q \<longleftrightarrow> Q \<subseteq> cluster_ids total_n \<and>
     (case paxos_init 1 total_n True True True of
        None \<Rightarrow> False | Some n \<Rightarrow> paxos_check_quorum n (of_nat (card Q)))"

lemma init_quorum_unat:
  assumes "paxos_init nid total_n pc ac ok = Some n"
  shows "unat (quorum_size n) = unat total_n div 2 + 1"
proof -
  have "unat total_n < 2 ^ 32" using unsigned_less [of total_n] by simp
  then have "unat total_n div 2 + 1 < 2 ^ 32" by simp
  then show ?thesis
    using assms by (auto simp: paxos_init_def unat_word_ariths unat_div split: if_splits)
qed

interpretation paxos_q: majority_quorums "cluster_ids total_n" "count_is_quorum total_n" for total_n
proof
  show "finite (cluster_ids total_n)" by (simp add: cluster_ids_def)
  fix Q
  assume q: "count_is_quorum total_n Q"
  then show sub: "Q \<subseteq> cluster_ids total_n" by (simp add: count_is_quorum_def)
  then have "card Q \<le> unat total_n"
    using card_mono [of "cluster_ids total_n" Q] by (simp add: cluster_ids_def)
  also have "\<dots> < 2 ^ 32" using unsigned_less [of total_n] by simp
  finally have c: "unat (of_nat (card Q) :: u32) = card Q" by (simp add: unat_of_nat take_bit_nat_eq_self)
  from q obtain n where n: "paxos_init 1 total_n True True True = Some n" "quorum_size n \<le> of_nat (card Q)"
    by (auto simp: count_is_quorum_def paxos_check_quorum_def split: option.splits)
  then have "unat total_n div 2 + 1 \<le> card Q"
    using init_quorum_unat [OF n(1)] c by (simp add: word_le_nat_alt)
  then show "card (cluster_ids total_n) < 2 * card Q" by (simp add: cluster_ids_def)
qed

section \<open>A cluster\<close>

text \<open>Nodes, the messages in transit with their destination, what each node applied, and for
  each node the \<^verbatim>\<open>paxos_propose\<close> call in progress (slot, proposal id, sequence number, value). A
  broadcast goes to all other nodes, a response to the sender. A message is delivered at most
  once, in any order.\<close>

record cluster =
  members :: "nat list"
  peers :: "nat \<Rightarrow> paxos_node"
  wire :: "(nat \<times> paxos_message) list"
  applied :: "(nat \<times> u64 \<times> byte list option) list"
  calls :: "nat \<Rightarrow> (nat \<times> u64 \<times> u64 \<times> byte list) option"

datatype cluster_action = Propose nat "byte list" | Deliver nat | Send_accept nat | Return nat

definition run_effect :: "nat \<Rightarrow> paxos_effect \<Rightarrow> cluster \<Rightarrow> cluster" where
  "run_effect k x c = (case x of
     E_persist s v l \<Rightarrow> c
   | E_apply s v l \<Rightarrow> c\<lparr>applied := applied c @ [(k, s, v)]\<rparr>
   | E_broadcast m \<Rightarrow> c\<lparr>wire := wire c @ map (\<lambda>d. (d, m)) (filter (\<lambda>d. d \<noteq> k) (members c))\<rparr>)"

definition cluster_act :: "paxos_env \<Rightarrow> cluster_action \<Rightarrow> cluster \<Rightarrow> cluster option" where
  "cluster_act e a c = (case a of
     Propose k v \<Rightarrow>
       if calls c k \<noteq> None then None
       else (case paxos_propose_begin e (peers c k) (Some v) (of_nat (length v)) of
               (None, effs, n) \<Rightarrow> None
             | (Some (i, pid, sq), effs, n) \<Rightarrow>
                 Some (fold (run_effect k) effs
                   (c\<lparr>peers := (peers c)(k := n), calls := (calls c)(k \<mapsto> (i, pid, sq, v))\<rparr>)))
   | Deliver j \<Rightarrow>
       if j < length (wire c)
       then let (d, m) = wire c ! j;
                (rc, resp, effs, n) = paxos_handle_message e (peers c d) m;
                c1 = fold (run_effect d) effs
                       (c\<lparr>wire := remove_nth j (wire c), peers := (peers c)(d := n)\<rparr>)
            in Some (case resp of None \<Rightarrow> c1
                     | Some r \<Rightarrow> c1\<lparr>wire := wire c1 @ [(unat (m_sender_id m), r)]\<rparr>)
       else None
   | Send_accept k \<Rightarrow>
       (case calls c k of
          None \<Rightarrow> None
        | Some (i, pid, sq, v) \<Rightarrow>
            (case paxos_wait_for_condition (peers c k) False (active_proposals (peers c k) i) [] of
               None \<Rightarrow> None
             | Some rc \<Rightarrow>
                 let (ok, effs, n) = paxos_propose_accept e (peers c k) i pid sq (Some v) (of_nat (length v)) rc
                 in Some (fold (run_effect k) effs (c\<lparr>peers := (peers c)(k := n)\<rparr>))))
   | Return k \<Rightarrow>
       (case calls c k of
          None \<Rightarrow> None
        | Some (i, pid, sq, v) \<Rightarrow>
            (case paxos_wait_for_condition (peers c k) True (active_proposals (peers c k) i) [] of
               None \<Rightarrow> None
             | Some rc \<Rightarrow>
                 let (res, n) = paxos_propose_finish (peers c k) i rc
                 in if res = 0 then Some (c\<lparr>peers := (peers c)(k := n), calls := (calls c)(k := None)\<rparr>)
                    else None)))"

fun cluster_exec :: "paxos_env \<Rightarrow> cluster_action list \<Rightarrow> cluster \<Rightarrow> cluster option" where
  "cluster_exec e [] c = Some c"
| "cluster_exec e (a # as) c = Option.bind (cluster_act e a c) (cluster_exec e as)"

definition demo_node :: "u32 \<Rightarrow> paxos_node" where
  "demo_node k = paxos_set_broadcast_callback True (the (paxos_init k 3 True True True))"

definition sound_env :: paxos_env where
  "sound_env = \<lparr>persist_fails = (\<lambda>_. False), broadcast_fails = (\<lambda>_. False), malloc_fails = False\<rparr>"

definition fresh_cluster :: cluster where
  "fresh_cluster = \<lparr>members = [1, 2, 3], peers = (\<lambda>k. demo_node (of_nat k)), wire = [], applied = [],
     calls = (\<lambda>_. None)\<rparr>"

text \<open>Node 1 runs a whole round with node 2, then node 3 runs one with node 2, before the LEARN
  messages of the first round are delivered.\<close>

definition two_rounds :: "cluster_action list" where
  "two_rounds = [Propose 1 [11], Deliver 0, Deliver 1, Send_accept 1, Deliver 1, Deliver 2, Return 1,
     Propose 3 [33], Deliver 5, Deliver 5, Send_accept 3, Deliver 6, Deliver 6, Return 3]"

section \<open>Wire format\<close>

lemma message_decodes:
  assumes "m_value msg = None \<and> m_value_len msg = 0 \<or>
      (\<exists>v. m_value msg = Some v \<and> v \<noteq> [] \<and> length v = unat (m_value_len msg))"
    "paxos_serialize_message True ptr pad junk msg = Inr bs"
  shows "paxos_deserialize_message True stale bs = Inr (msg\<lparr>m_is_noop := stale\<rparr>) \<and>
    length bs = 56 + unat (m_value_len msg)"
proof -
  let ?v = "case m_value msg of None \<Rightarrow> [] | Some v \<Rightarrow> v"
  have bs: "bs = msg_header ptr pad msg @ ?v" and len: "length ?v = unat (m_value_len msg)"
    using assms by (auto simp: paxos_serialize_message_def Let_def split: if_splits)
  have h: "length (msg_header ptr pad msg) = 56" by (simp add: msg_header_def codec_simps)
  have f: "u32_dec (slice 0 4 bs) = m_phase msg" "u64_dec (slice 8 8 bs) = m_proposal_id msg"
    "u64_dec (slice 16 8 bs) = m_sequence_number msg" "u32_dec (slice 24 4 bs) = m_sender_id msg"
    "u32_dec (slice 28 4 bs) = m_acceptor_id msg" "u64_dec (slice 32 8 bs) = m_accepted_id msg"
    "u64_dec (slice 48 8 bs) = m_value_len msg"
    by (simp_all add: bs msg_header_def codec_simps)
  have v: "slice 56 (unat (m_value_len msg)) bs = ?v" using h len by (simp add: bs slice_def)
  have pos: "m_value_len msg > 0 \<longleftrightarrow> m_value msg \<noteq> None"
    using assms(1) by (auto simp: word_gt_0)
  have lb: "length bs = 56 + unat (m_value_len msg)" using h len by (simp add: bs)
  have "paxos_deserialize_message True stale bs = Inr (\<lparr>m_phase = m_phase msg, m_proposal_id = m_proposal_id msg,
      m_sequence_number = m_sequence_number msg, m_sender_id = m_sender_id msg, m_acceptor_id = m_acceptor_id msg,
      m_accepted_id = m_accepted_id msg, m_value = (if m_value msg = None then None else Some ?v),
      m_value_len = m_value_len msg, m_is_noop = stale\<rparr>)"
    unfolding paxos_deserialize_message_def f Let_def v pos by (simp add: lb)
  also have "(if m_value msg = None then None else Some ?v) = m_value msg" by (auto split: option.splits)
  finally show ?thesis using lb by (cases msg) simp
qed

section \<open>Properties\<close>

text \<open>C18: an acceptor keeps its promises: after it has answered a PREPARE with a PROMISE, in
  whatever order it then handles messages and runs proposals of its own, it never answers an
  ACCEPT of a lower proposal with ACCEPTED, as long as each proposal it starts itself finds room in
  the 48-bit ballot counter (\<open>ballot_room\<close>). Without room its own next id wraps around to the bare
  node id and the promise is forgotten (\<open>overflow_guard_dead\<close>).\<close>

theorem promise_kept:
  assumes "paxos_handle_message e n m = (rc, Some r, effs, s)" "m_phase r = PAXOS_PHASE_PROMISE"
    "node_run s rs t" "a \<in> set rs" "m_phase a = PAXOS_PHASE_ACCEPTED"
  shows "m_proposal_id r \<le> m_proposal_id a"
proof -
  have "highest_proposal_seen s = m_proposal_id r"
    using assms(1,2)
    by (auto simp: paxos_handle_message_def handler_defs Let_def split: if_splits option.splits)
  with node_run_promises [OF assms(3)] assms(4,5) show ?thesis by auto
qed

definition demo_prepare :: paxos_message where
  "demo_prepare = zero_message\<lparr>m_phase := PAXOS_PHASE_PREPARE, m_proposal_id := 0x20003, m_sequence_number := 1,
     m_sender_id := 3\<rparr>"

definition demo_accept :: paxos_message where
  "demo_accept = zero_message\<lparr>m_phase := PAXOS_PHASE_ACCEPT, m_proposal_id := 0x20003, m_sequence_number := 1,
     m_sender_id := 3, m_value := Some [7], m_value_len := 1\<rparr>"

theorem promise_kept_witness:
  "\<exists>r a s t. paxos_handle_message sound_env (demo_node 2) demo_prepare = (0, Some r, [], s) \<and>
     node_run s [a] t \<and> m_phase a = PAXOS_PHASE_ACCEPTED \<and> m_proposal_id r \<le> m_proposal_id a"
proof -
  obtain r s where p: "paxos_handle_message sound_env (demo_node 2) demo_prepare = (0, Some r, [], s)"
    "m_phase r = PAXOS_PHASE_PROMISE" "s = (demo_node 2)\<lparr>highest_proposal_seen := 0x20003\<rparr>"
    by (simp add: paxos_handle_message_def handle_prepare_def demo_prepare_def demo_node_def paxos_init_def
        paxos_set_broadcast_callback_def)
  obtain a effs t where q: "paxos_handle_message sound_env s demo_accept = (0, Some a, effs, t)"
    "m_phase a = PAXOS_PHASE_ACCEPTED"
    by (simp add: p(3) paxos_handle_message_def handle_accept_def demo_accept_def demo_node_def paxos_init_def
        paxos_set_broadcast_callback_def sound_env_def Let_def)
  have "node_run s [a] t" using node_run.handle [OF node_run.start q(1)] by simp
  with promise_kept [OF p(1,2) this _ q(2)] p(1) q(2) show ?thesis by auto
qed

text \<open>C19: proposal ids: while the 48-bit ballot counter has room, a new id is above every id
  the node has seen and carries the node's id in its low 16 bits, so nodes whose ids differ
  there never draw the same proposal id.\<close>

theorem proposal_ids_unique:
  assumes "ballot_room n" "paxos_next_proposal_id n = (pid, n')"
  shows "highest_proposal_seen n < pid \<and> highest_proposal_seen n' = pid \<and>
    unat pid mod 2 ^ 16 = unat (node_id n) mod 2 ^ 16 \<and>
    (ballot_room k \<and> paxos_next_proposal_id k = (pid, k') \<longrightarrow>
       unat (node_id k) mod 2 ^ 16 = unat (node_id n) mod 2 ^ 16)"
proof -
  have low: "unat pid mod 2 ^ 16 = unat (node_id n) mod 2 ^ 16"
    if "ballot_room n" "paxos_next_proposal_id n = (pid, n')" for n pid n'
  proof -
    have "k AND 0xFFFF = take_bit 16 k" for k :: u32 by (simp add: take_bit_eq_mask mask_eq_exp_minus_1)
    then have "unat (ucast (node_id n AND 0xFFFF) :: u64) = unat (node_id n) mod 2 ^ 16"
      using take_bit_eq_mod [of 16 "unat (node_id n)"]
      by (simp add: unsigned_ucast_eq unsigned_take_bit_eq take_bit_nat_eq_self)
    then have "unat pid = (unat (highest_proposal_seen n) div 2 ^ 16 + 1) * 2 ^ 16 + unat (node_id n) mod 2 ^ 16"
      using next_proposal_id_unat(1) [OF that] by simp
    then show ?thesis by (metis mod_mod_trivial mod_mult_self3)
  qed
  from low [OF assms] low [of k pid k'] next_proposal_id_greater [OF assms] next_proposal_id_unat(2) [OF assms]
  show ?thesis by auto
qed

theorem proposal_ids_unique_witness:
  "paxos_next_proposal_id (demo_node 2) = (0x10002, (demo_node 2)\<lparr>highest_proposal_seen := 0x10002\<rparr>) \<and>
   (0 :: u64) < 0x10002"
proof -
  have r: "ballot_room (demo_node 2)"
    by (simp add: ballot_room_def demo_node_def paxos_init_def paxos_set_broadcast_callback_def)
  have h: "highest_proposal_seen (demo_node 2) = 0" "node_id (demo_node 2) = 2"
    by (simp_all add: demo_node_def paxos_init_def paxos_set_broadcast_callback_def)
  have "paxos_next_proposal_id (demo_node 2) = (0x10002, (demo_node 2)\<lparr>highest_proposal_seen := 0x10002\<rparr>)"
    unfolding paxos_next_proposal_id_def h by (simp add: Let_def)
  with proposal_ids_unique [OF r this] h show ?thesis by simp
qed

text \<open>C20: an acceptor that has a persist callback acknowledges an ACCEPT only in two cases. Either the
  sequence number is above the highest number it has recorded as persisted; then it has handed the
  value to the callback with that number, and the callback has succeeded. Or the number is not above
  the highest it has recorded; then it writes nothing, whatever the value, so the value may be
  stored nowhere. A failed write is never acknowledged.\<close>

theorem accepted_after_persist:
  assumes "paxos_handle_message e n m = (rc, Some r, effs, n')" "m_phase r = PAXOS_PHASE_ACCEPTED"
    "persist_callback n"
  shows "m_sequence_number r \<le> highest_sequence_persisted n' \<and>
    (if highest_sequence_persisted n < m_sequence_number r
     then effs = [E_persist (m_sequence_number m) (m_value m) (m_value_len m)] \<and>
       \<not> persist_fails e (m_sequence_number m) \<and> m_sequence_number r = m_sequence_number m
     else effs = [])"
  using assms by (auto simp: paxos_handle_message_def handler_defs Let_def split: if_splits option.splits)

theorem accepted_after_persist_witness:
  "\<exists>rc r effs n'. paxos_handle_message sound_env (demo_node 2) demo_accept = (rc, Some r, effs, n') \<and>
     effs = [E_persist 1 (Some [7]) 1]"
proof -
  obtain r effs n' where q: "paxos_handle_message sound_env (demo_node 2) demo_accept = (0, Some r, effs, n')"
    "m_phase r = PAXOS_PHASE_ACCEPTED" "m_sequence_number r = 1"
    by (simp add: paxos_handle_message_def handle_accept_def demo_accept_def demo_node_def paxos_init_def
        paxos_set_broadcast_callback_def sound_env_def Let_def)
  have "persist_callback (demo_node 2)" "highest_sequence_persisted (demo_node 2) = 0"
    by (simp_all add: demo_node_def paxos_init_def paxos_set_broadcast_callback_def)
  with accepted_after_persist [OF q(1,2)] q show ?thesis by (simp add: demo_accept_def)
qed

text \<open>Two sets of nodes that both pass the quorum check of a cluster's nodes have a node in
  common.\<close>

theorem quorums_intersect:
  assumes "count_is_quorum total_n P" "count_is_quorum total_n Q"
  shows "\<exists>a \<in> cluster_ids total_n. a \<in> P \<and> a \<in> Q"
  by (rule paxos_q.no_two_minorities [OF assms])

theorem quorums_intersect_witness:
  "count_is_quorum 5 {1, 2, 3} \<and> count_is_quorum 5 {3, 4, 5} \<and> (\<exists>a \<in> cluster_ids 5. a \<in> {1, 2, 3} \<and> a \<in> {3, 4, 5})"
proof -
  have "count_is_quorum 5 {1, 2, 3}" "count_is_quorum 5 {3, 4, 5}"
    by (auto simp: count_is_quorum_def paxos_init_def paxos_check_quorum_def cluster_ids_def)
  with quorums_intersect [OF this] show ?thesis by blast
qed

text \<open>C33: a proposer commits exactly when the ACCEPTED messages for its proposal, with its own
  acceptance, number a quorum; the messages are counted without regard to who sent them, so
  copies of one acceptor's message count too.\<close>

theorem commit_iff_quorum:
  assumes "\<forall>m \<in> set ms. m_phase m = PAXOS_PHASE_ACCEPTED \<and> m_proposal_id m = pid"
    "i < max_proposals n" "open_slot n i pid" "\<not> committed (active_proposals n i)"
    "\<forall>j<max_proposals n. j \<noteq> i \<longrightarrow> \<not> open_slot n j pid"
    "accept_count (active_proposals n i) = 1" "length ms < 2 ^ 32 - 1" "1 < quorum_size n"
  shows "committed (active_proposals (snd (handle_all e n ms)) i) \<longleftrightarrow> unat (quorum_size n) \<le> Suc (length ms)"
  using accepted_counts [OF assms(1-5)] assms(6-8) by simp

definition waiting_node :: paxos_node where
  "waiting_node = upd_proposal 0 (\<lambda>p. p\<lparr>proposal_id := 0x10001, sequence_number := 1, proposed_value := Some [7],
     value_len := 1, promise_count := 2, accept_count := 1, in_use := True\<rparr>) (demo_node 1)"

definition demo_accepted :: paxos_message where
  "demo_accepted = zero_message\<lparr>m_phase := PAXOS_PHASE_ACCEPTED, m_proposal_id := 0x10001, m_sequence_number := 1,
     m_sender_id := 2, m_acceptor_id := 2\<rparr>"

theorem commit_iff_quorum_witness:
  "\<not> committed (active_proposals (snd (handle_all sound_env waiting_node [])) 0) \<and>
   committed (active_proposals (snd (handle_all sound_env waiting_node [demo_accepted])) 0)"
proof -
  have w: "open_slot waiting_node 0 0x10001" "\<forall>j<max_proposals waiting_node. j \<noteq> 0 \<longrightarrow> \<not> open_slot waiting_node j 0x10001"
    "0 < max_proposals waiting_node" "\<not> committed (active_proposals waiting_node 0)"
    "accept_count (active_proposals waiting_node 0) = 1" "quorum_size waiting_node = 2"
    by (auto simp: waiting_node_def open_slot_def demo_node_def paxos_init_def paxos_set_broadcast_callback_def zero_proposal_def)
  from commit_iff_quorum [OF _ w(3,1,4,2,5), of "[]" sound_env] commit_iff_quorum [OF _ w(3,1,4,2,5), of "[demo_accepted]" sound_env]
  show ?thesis by (simp add: w(6) demo_accepted_def)
qed

text \<open>C35: a learner applies in order: when a node with an apply callback handles any sequence of
  messages with no ACCEPTED among them (so that it commits no proposal of its own), it applies
  exactly those LEARN messages, with their values, whose sequence number is above all numbers
  committed or learned before; the numbers it applies strictly increase, so nothing is applied
  twice, and its highest committed number is the largest it has learned. A LEARN that arrives after
  one with a higher number is dropped for good.\<close>

theorem learner_applies_in_order:
  assumes "apply_callback n" "\<forall>m \<in> set ms. m_phase m \<noteq> PAXOS_PHASE_ACCEPTED"
  shows "applied_ops (fst (handle_all e n ms)) = map learned_op (records (highest_sequence_committed n) (learns ms)) \<and>
    sorted_wrt (<) (map fst (applied_ops (fst (handle_all e n ms)))) \<and>
    highest_sequence_committed (snd (handle_all e n ms)) =
      fold max (map m_sequence_number (learns ms)) (highest_sequence_committed n)"
  using learn_applies_records [OF assms] sorted_records by simp

definition demo_learn :: "u64 \<Rightarrow> paxos_message" where
  "demo_learn s = zero_message\<lparr>m_phase := PAXOS_PHASE_LEARN, m_sequence_number := s, m_value := Some [7], m_value_len := 1\<rparr>"

theorem learner_applies_in_order_witness:
  "applied_ops (fst (handle_all sound_env (demo_node 2) [demo_learn 2, demo_prepare, demo_learn 1, demo_learn 4])) =
     [(2, Some [7], 1), (4, Some [7], 1)]"
proof -
  have "apply_callback (demo_node 2)" "highest_sequence_committed (demo_node 2) = 0"
    by (simp_all add: demo_node_def paxos_init_def paxos_set_broadcast_callback_def)
  with learner_applies_in_order [of "demo_node 2" "[demo_learn 2, demo_prepare, demo_learn 1, demo_learn 4]" sound_env]
  show ?thesis by (simp add: demo_learn_def demo_prepare_def learns_def learned_op_def)
qed

text \<open>C34: a well-formed message survives serialization and deserialization, except for
  \<^verbatim>\<open>is_noop\<close>, which is not transmitted: the receiver keeps what its variable held before.\<close>

theorem message_roundtrip:
  assumes "m_value msg = None \<and> m_value_len msg = 0 \<or>
      (\<exists>v. m_value msg = Some v \<and> v \<noteq> [] \<and> length v = unat (m_value_len msg))"
    "paxos_serialize_message True ptr pad junk msg = Inr bs"
  shows "paxos_deserialize_message True stale bs = Inr (msg\<lparr>m_is_noop := stale\<rparr>) \<and>
    length bs = 56 + unat (m_value_len msg)"
  using message_decodes [OF assms] .

theorem message_roundtrip_witness:
  "\<exists>bs. paxos_serialize_message True 0xDEAD 0 [] demo_accept = Inr bs \<and> length bs = 57 \<and>
     paxos_deserialize_message True False bs = Inr demo_accept"
proof -
  obtain bs where bs: "paxos_serialize_message True 0xDEAD 0 [] demo_accept = Inr bs"
    by (simp add: paxos_serialize_message_def demo_accept_def)
  from message_roundtrip [OF _ this, of False] bs show ?thesis
    by (simp add: demo_accept_def zero_message_def)
qed

text \<open>Agreement does not hold: two nodes of a three-node cluster each complete a round for
  sequence number 1 and apply different values there. Sequence numbers are drawn from each
  node's own counter, which learning does not advance, and a PROMISE carries no value for the
  proposer to adopt. No message is lost, duplicated or altered in the run.\<close>

theorem agreement_violated:
  "\<exists>acts c. cluster_exec sound_env acts fresh_cluster = Some c \<and>
     (1, 1, Some [11]) \<in> set (applied c) \<and> (3, 1, Some [33]) \<in> set (applied c)"
proof -
  have "map_option applied (cluster_exec sound_env two_rounds fresh_cluster) =
      Some [(1, 1, Some [11]), (3, 1, Some [33])]"
    by code_simp
  then show ?thesis by (intro exI [of _ two_rounds]) auto
qed

section \<open>Further defects\<close>

text \<open>The overflow test of \<^verbatim>\<open>paxos_next_proposal_id\<close> never fires, because the ballot is a value
  shifted right by 16 bits plus one; at the largest ballot the id wraps around to the bare node id.\<close>

theorem overflow_guard_dead:
  fixes n :: paxos_node
  shows "drop_bit 16 (highest_proposal_seen n) + 1 \<noteq> 0 \<and>
    (drop_bit 16 (highest_proposal_seen n) = 2 ^ 48 - 1 \<longrightarrow>
       fst (paxos_next_proposal_id n) = ucast (node_id n AND 0xFFFF))"
proof
  show ne: "drop_bit 16 (highest_proposal_seen n) + 1 \<noteq> 0"
    using next_ballot_unat [of "highest_proposal_seen n"] by (metis Suc_eq_plus1 nat.distinct(1) unsigned_0)
  have z: "push_bit 16 (0x1000000000000 :: u64) = 0" by (simp add: push_bit_eq_mult)
  show "drop_bit 16 (highest_proposal_seen n) = 2 ^ 48 - 1 \<longrightarrow>
       fst (paxos_next_proposal_id n) = ucast (node_id n AND 0xFFFF)"
    using ne z by (simp add: paxos_next_proposal_id_def Let_def del: push_bit_numeral)
qed

text \<open>A proposer counts itself as an acceptor even when it has promised a higher proposal
  since.\<close>

theorem self_accept_breaks_promise:
  assumes "pid < highest_proposal_seen n" "\<not> persist_fails e sq" "\<not> broadcast_fails e PAXOS_PHASE_ACCEPT"
  shows "\<exists>effs n'. paxos_propose_accept e n i pid sq v len 0 = (True, effs, n') \<and>
    accept_count (active_proposals n' i) = 1 \<and> last_accepted_proposal n' = last_accepted_proposal n"
  using assms by (simp add: paxos_propose_accept_def Let_def not_le [symmetric])

text \<open>The length field of a received message is not checked against the bytes received.\<close>

theorem deserialize_reads_out_of_bounds:
  assumes "length buf \<ge> 56" "unat (u64_dec (slice 48 8 buf)) > length buf - 56"
  shows "paxos_deserialize_message True stale buf = Inl Wire_out_of_bounds"
proof -
  have "u64_dec (slice 48 8 buf) \<noteq> 0" using assms(2) by (cases "u64_dec (slice 48 8 buf) = 0") simp_all
  with assms show ?thesis by (simp add: paxos_deserialize_message_def Let_def word_gt_0)
qed

end
