(* ===== verification/Storage_Props.thy ===== *)
theory Storage_Props
  imports Storage
begin

text \<open>
  The storage interface: the table of nodes has the contract of \<open>id_registry\<close>, the selection of
  replicas is complete and free of duplicates, the loops of an exchange end and transfer what they
  are given, and where an exchange reports success without one.
\<close>

section \<open>The table\<close>

definition node_ids :: "storage_interface \<Rightarrow> u32 list" where
  "node_ids iface = tbl_ids sn_id (unat (num_nodes iface)) (nodes iface)"

text \<open>The bounds the table keeps; the product of two counters does not wrap.\<close>

definition iface_wf :: "storage_interface \<Rightarrow> bool" where
  "iface_wf iface \<longleftrightarrow> num_nodes iface \<le> max_nodes iface \<and> next_node_idx iface \<le> max_nodes iface \<and>
     unat (max_nodes iface) < 2 ^ 31"

definition node_enroll :: "u32 \<times> string \<times> u16 \<times> u64 \<times> time_t \<Rightarrow> storage_interface \<Rightarrow> storage_interface option" where
  "node_enroll x iface = (case x of (nid, ip, prt, cap, t) \<Rightarrow>
     (case storage_interface_register_node nid ip prt cap t iface of (rc, s) \<Rightarrow> if rc = 0 then Some s else None))"

definition node_withdraw :: "u32 \<Rightarrow> storage_interface \<Rightarrow> storage_interface option" where
  "node_withdraw nid iface =
     (case storage_interface_unregister_node nid iface of (rc, s) \<Rightarrow> if rc = 0 then Some s else None)"

lemma word_less_Suc: "x < y \<Longrightarrow> unat (x + 1) = Suc (unat x)" for x y :: "'a::len word"
proof -
  assume "x < y"
  then have "unat x < unat y" by (simp add: word_less_nat_alt)
  moreover have "unat y < 2 ^ LENGTH('a)" by (rule unsigned_less)
  ultimately have "unat x + 1 < 2 ^ LENGTH('a)" by linarith
  then show ?thesis by (simp add: unat_word_ariths)
qed

lemma node_enroll_ids:
  "node_enroll x iface = Some s \<Longrightarrow> node_ids s = node_ids iface @ [fst x] \<and> max_nodes s = max_nodes iface"
  by (auto simp: node_enroll_def storage_interface_register_node_def node_ids_def word_less_Suc not_le tbl_ids_add
      split: prod.splits if_splits)

lemma node_enroll_full: "node_enroll x iface = None \<longleftrightarrow> unat (max_nodes iface) \<le> length (node_ids iface)"
  by (auto simp: node_enroll_def storage_interface_register_node_def node_ids_def word_le_nat_alt
      split: prod.splits if_splits)

lemma find_node_bound: "find_node iface nid = Some i \<Longrightarrow> unat (num_nodes iface - 1) = unat (num_nodes iface) - 1"
proof -
  assume "find_node iface nid = Some i"
  then have "i < unat (num_nodes iface)" by (auto simp: find_node_def tbl_find_def dest!: find_idx_SomeD)
  then have "num_nodes iface \<noteq> 0" by auto
  then show ?thesis by (rule unat_minus_one)
qed

lemma node_withdraw_ids:
  "node_withdraw nid iface = Some s \<Longrightarrow> node_ids s = remove1 nid (node_ids iface) \<and> max_nodes s = max_nodes iface"
  by (auto simp: node_withdraw_def storage_interface_unregister_node_def node_ids_def find_node_bound
      dest: tbl_ids_remove(1) split: option.splits if_splits simp flip: One_nat_def simp: find_node_def)

lemma node_withdraw_missing: "node_withdraw nid iface = None \<longleftrightarrow> nid \<notin> set (node_ids iface)"
  by (auto simp: node_withdraw_def storage_interface_unregister_node_def node_ids_def find_node_def
      tbl_find_None_iff [symmetric] split: option.splits)

interpretation node_tbl: id_registry node_ids node_enroll node_withdraw fst "\<lambda>s. unat (max_nodes s)"
  by unfold_locales (simp_all add: node_enroll_ids node_enroll_full node_withdraw_ids node_withdraw_missing)

section \<open>Selection\<close>

definition eligible :: "u64 \<Rightarrow> storage_node_info \<Rightarrow> bool" where
  "eligible file_size nd \<longleftrightarrow> sn_online nd \<and> sn_available nd \<ge> file_size"

definition eligible_ids :: "u64 \<Rightarrow> storage_interface \<Rightarrow> u32 set" where
  "eligible_ids file_size iface = sn_id ` set (filter (eligible file_size) (arr_take (unat (num_nodes iface)) (nodes iface)))"

definition pick :: "u64 \<Rightarrow> nat \<Rightarrow> u32 list \<Rightarrow> storage_node_info \<Rightarrow> u32 list" where
  "pick file_size r sel nd =
     (if length sel < r \<and> eligible file_size nd \<and> sn_id nd \<notin> set sel then sel @ [sn_id nd] else sel)"

lemma foldl_pick_full: "r \<le> length sel \<Longrightarrow> foldl (pick z r) sel nds = sel"
  by (induction nds) (simp_all add: pick_def)

lemma foldl_pick:
  assumes "distinct sel" "length sel \<le> r"
  shows "distinct (foldl (pick z r) sel nds) \<and> length (foldl (pick z r) sel nds) \<le> r \<and>
    set sel \<subseteq> set (foldl (pick z r) sel nds) \<and>
    set (foldl (pick z r) sel nds) \<subseteq> set sel \<union> sn_id ` {nd \<in> set nds. eligible z nd} \<and>
    (length (foldl (pick z r) sel nds) < r \<longrightarrow> sn_id ` {nd \<in> set nds. eligible z nd} \<subseteq> set (foldl (pick z r) sel nds))"
  using assms
proof (induction nds arbitrary: sel)
  case (Cons nd nds)
  let ?s = "pick z r sel nd"
  have s: "distinct ?s" "length ?s \<le> r" "set sel \<subseteq> set ?s" "set ?s \<subseteq> set sel \<union> sn_id ` {x \<in> {nd}. eligible z x}"
    "length ?s < r \<Longrightarrow> eligible z nd \<Longrightarrow> sn_id nd \<in> set ?s"
    using Cons.prems by (auto simp: pick_def)
  have mono: "length ?s \<le> length (foldl (pick z r) ?s nds)"
    using Cons.IH [OF s(1,2)] s(1) by (metis card_mono distinct_card List.finite_set)
  have el: "sn_id ` {x \<in> set (nd # nds). eligible z x} =
      sn_id ` {x \<in> {nd}. eligible z x} \<union> sn_id ` {x \<in> set nds. eligible z x}" by auto
  have here: "sn_id ` {x \<in> {nd}. eligible z x} \<subseteq> set ?s" if "length ?s < r" using s(5) [OF that] by auto
  note IH = Cons.IH [OF s(1,2)]
  show ?case
    unfolding el foldl_Cons
  proof (intro conjI impI)
    show "set sel \<subseteq> set (foldl (pick z r) ?s nds)" using IH s(3) by blast
    show "set (foldl (pick z r) ?s nds) \<subseteq>
        set sel \<union> (sn_id ` {x \<in> {nd}. eligible z x} \<union> sn_id ` {x \<in> set nds. eligible z x})"
      using IH s(4) by blast
    assume "length (foldl (pick z r) ?s nds) < r"
    then show "sn_id ` {x \<in> {nd}. eligible z x} \<union> sn_id ` {x \<in> set nds. eligible z x} \<subseteq> set (foldl (pick z r) ?s nds)"
      using IH here mono by (meson Un_least le_less_trans subset_trans)
  qed (use IH in simp_all)
qed simp

text \<open>The nodes in the order the loop looks at them.\<close>

definition visited :: "nat \<Rightarrow> nat \<Rightarrow> nat \<Rightarrow> nat list" where
  "visited k i n = map (\<lambda>j. (i + j) mod n) [0..<k]"

lemma visited_Suc: "visited (Suc k) i n = i mod n # visited k (Suc i mod n) n"
  unfolding visited_def map_upt_Suc by (simp add: mod_simps)

lemma set_visited: "n \<le> k \<Longrightarrow> 0 < n \<Longrightarrow> set (visited k i n) = {..<n}"
proof
  assume k: "n \<le> k" "0 < n"
  show "set (visited k i n) \<subseteq> {..<n}" using k by (auto simp: visited_def)
  show "{..<n} \<subseteq> set (visited k i n)"
  proof
    fix x
    assume "x \<in> {..<n}"
    then have x: "x < n" by simp
    let ?j = "(x + (n - i mod n)) mod n"
    have "(i + ?j) mod n = (i mod n + (x + (n - i mod n))) mod n" by (simp add: mod_simps)
    also have "i mod n + (x + (n - i mod n)) = x + n" using mod_less_divisor [OF k(2), of i] by linarith
    finally have "(i + ?j) mod n = x" using x by simp
    moreover have "?j < k" using k by (meson less_le_trans mod_less_divisor)
    ultimately show "x \<in> set (visited k i n)" by (force simp: visited_def)
  qed
qed

lemma select_loop_visits:
  assumes "0 < unat (num_nodes iface)" "unat (next_node_idx iface) + 1 < 2 ^ 32"
  shows "fst (select_loop k z r sel iface) =
      foldl (pick z (unat r)) sel (map (nodes iface) (visited k (unat (next_node_idx iface)) (unat (num_nodes iface)))) \<and>
    (\<exists>x. snd (select_loop k z r sel iface) = iface\<lparr>next_node_idx := x\<rparr> \<and> (x = next_node_idx iface \<or> x < num_nodes iface))"
  using assms
proof (induction k arbitrary: sel iface)
  case 0
  show ?case by (auto simp: visited_def intro: exI [of _ "next_node_idx iface"])
next
  case (Suc k)
  let ?n = "unat (num_nodes iface)" and ?i = "unat (next_node_idx iface)"
  let ?s = "iface\<lparr>next_node_idx := (next_node_idx iface + 1) mod num_nodes iface\<rparr>"
  have i: "unat (next_node_idx iface mod num_nodes iface) = ?i mod ?n" by (rule unat_mod_distrib)
  have "unat (next_node_idx iface + 1) = Suc ?i"
    using Suc.prems(2) by (simp add: unat_word_ariths)
  then have n: "unat (next_node_idx ?s) = Suc ?i mod ?n" by (simp add: unat_mod_distrib)
  have lt: "next_node_idx ?s < num_nodes iface"
    using Suc.prems(1) by (simp add: word_less_nat_alt) (simp add: n [simplified])
  have "?n < 2 ^ 32" using unsigned_less [of "num_nodes iface"] by simp
  then have bnd: "unat (next_node_idx ?s) + 1 < 2 ^ 32 \<or> ?n = 2 ^ 32"
    using mod_less_divisor [OF Suc.prems(1), of "Suc ?i"] unfolding n by linarith
  have IH: "fst (select_loop k z r sel' ?s) = foldl (pick z (unat r)) sel' (map (nodes iface) (visited k (Suc ?i mod ?n) ?n))"
    "\<exists>x. snd (select_loop k z r sel' ?s) = iface\<lparr>next_node_idx := x\<rparr> \<and> (x = next_node_idx iface \<or> x < num_nodes iface)" for sel'
    using Suc.IH [of ?s sel'] Suc.prems(1) n bnd \<open>?n < 2 ^ 32\<close> lt by auto
  show ?case
  proof (cases "length sel < unat r")
    case True
    then have "pick z (unat r) sel nd = (if sn_online nd \<and> z \<le> sn_available nd \<and> sn_id nd \<notin> set sel
        then sel @ [sn_id nd] else sel)" for nd
      by (simp add: pick_def eligible_def)
    with True IH show ?thesis by (simp add: Let_def visited_Suc i)
  next
    case False
    then show ?thesis by (auto simp: foldl_pick_full intro: exI [of _ "next_node_idx iface"])
  qed
qed

lemma select_nodes_visits:
  assumes "iface_wf iface"
  shows "fst (select_loop (unat (num_nodes iface * 2)) z r [] iface) =
      foldl (pick z (unat r)) [] (map (nodes iface)
        (visited (2 * unat (num_nodes iface)) (unat (next_node_idx iface)) (unat (num_nodes iface)))) \<and>
    (\<exists>x. snd (select_loop (unat (num_nodes iface * 2)) z r [] iface) = iface\<lparr>next_node_idx := x\<rparr> \<and> x \<le> max_nodes iface)"
proof -
  have b: "unat (num_nodes iface) < 2 ^ 31" "unat (next_node_idx iface) < 2 ^ 31" "num_nodes iface \<le> max_nodes iface"
    "next_node_idx iface \<le> max_nodes iface"
    using assms by (auto simp: iface_wf_def word_le_nat_alt)
  have m: "unat (num_nodes iface * 2) = 2 * unat (num_nodes iface)"
    using b(1) by (simp add: unat_word_ariths)
  show ?thesis
  proof (cases "unat (num_nodes iface) = 0")
    case True
    have "\<exists>x. iface = iface\<lparr>next_node_idx := x\<rparr> \<and> x \<le> max_nodes iface"
      using b(4) by (intro exI [of _ "next_node_idx iface"]) simp
    with True m show ?thesis by (simp add: visited_def)
  next
    case False
    then have pos: "0 < unat (num_nodes iface)" "unat (next_node_idx iface) + 1 < 2 ^ 32" using b(2) by auto
    have lt: "x \<le> max_nodes iface" if "x < num_nodes iface" for x
      using that b(3) by (meson less_imp_le less_le_trans)
    from select_loop_visits [OF pos, of "2 * unat (num_nodes iface)" z r "[]"] lt b(4)
    show ?thesis unfolding m by blast
  qed
qed

lemma select_nodes_spec:
  assumes "iface_wf iface" "num_replicas \<noteq> 0" "storage_interface_select_nodes z num_replicas iface = (rc, sel, iface')"
  shows "rc = int (length sel) \<and> distinct sel \<and> set sel \<subseteq> eligible_ids z iface \<and>
    length sel = min (unat num_replicas) (card (eligible_ids z iface)) \<and>
    (\<exists>x. iface' = iface\<lparr>next_node_idx := x\<rparr>) \<and> iface_wf iface'"
proof -
  let ?n = "unat (num_nodes iface)" and ?r = "unat num_replicas"
  let ?v = "map (nodes iface) (visited (2 * ?n) (unat (next_node_idx iface)) ?n)"
  have sel: "sel = foldl (pick z ?r) [] ?v" "rc = int (length sel)"
    "iface' = snd (select_loop (unat (num_nodes iface * 2)) z num_replicas [] iface)"
    using assms(2,3) select_nodes_visits [OF assms(1), of z num_replicas]
    by (auto simp: storage_interface_select_nodes_def Let_def split: prod.splits)
  have i': "\<exists>x. iface' = iface\<lparr>next_node_idx := x\<rparr>" "iface_wf iface'"
    using select_nodes_visits [OF assms(1), of z num_replicas] assms(1) unfolding sel(3) by (auto simp: iface_wf_def)
  have "set ?v = set (arr_take ?n (nodes iface))"
  proof (cases "?n = 0")
    case False
    then show ?thesis using set_visited [of ?n "2 * ?n"] by (simp add: set_arr_take)
  qed (simp add: visited_def)
  then have E: "sn_id ` {nd \<in> set ?v. eligible z nd} = eligible_ids z iface" by (simp add: eligible_ids_def)
  have p: "distinct sel" "length sel \<le> ?r" "set sel \<subseteq> eligible_ids z iface"
    "length sel < ?r \<Longrightarrow> eligible_ids z iface \<subseteq> set sel"
    using foldl_pick [of "[]" ?r z ?v] unfolding E sel(1) by auto
  have fin: "finite (eligible_ids z iface)" by (simp add: eligible_ids_def)
  have "length sel \<le> card (eligible_ids z iface)" using card_mono [OF fin p(3)] distinct_card [OF p(1)] by simp
  moreover have "length sel = card (eligible_ids z iface)" if "length sel < ?r"
    using p(3,4) that distinct_card [OF p(1)] by (metis subset_antisym)
  ultimately have "length sel = min ?r (card (eligible_ids z iface))" using p(2) by linarith
  with p i' sel(2) show ?thesis by blast
qed

section \<open>Exchanges\<close>

lemma send_all_sent: "send_all rs data = Some (True, sent) \<Longrightarrow> sent = data"
  by (induction rs data arbitrary: sent rule: send_all.induct) (auto split: if_splits)

lemma send_all_prefix: "send_all rs data = Some (ok, sent) \<Longrightarrow> \<exists>rest. data = sent @ rest"
proof (induction rs data arbitrary: sent rule: send_all.induct)
  case (3 r rs d ds)
  show ?case
  proof (cases "r < 0")
    case False
    with "3.prems" obtain sent' where s: "send_all rs (drop (nat r) (d # ds)) = Some (ok, sent')"
      "sent = take (nat r) (d # ds) @ sent'" by auto
    from "3.IH" [OF False s(1)] obtain rest where "drop (nat r) (d # ds) = sent' @ rest" by blast
    then have "d # ds = sent @ rest" by (metis append.assoc append_take_drop_id s(2))
    then show ?thesis by blast
  qed (use 3 in simp)
qed simp_all

text \<open>A \<^verbatim>\<open>send\<close> that takes bytes makes progress, so as many calls as there are bytes are enough.\<close>

lemma send_all_ends:
  "length data \<le> length rs \<Longrightarrow> \<forall>r \<in> set rs. r > 0 \<Longrightarrow> send_all rs data = Some (True, data)"
proof (induction rs data rule: send_all.induct)
  case (3 r rs d ds)
  then have "0 < r" by simp
  with 3 have "send_all rs (drop (nat r) (d # ds)) = Some (True, drop (nat r) (d # ds))" by simp
  with \<open>0 < r\<close> show ?case by (simp del: take_Cons drop_Cons)
qed simp_all

text \<open>The pieces in which a stream arrives.\<close>

definition pieces :: "tcp_recv list \<Rightarrow> byte list list \<Rightarrow> bool" where
  "pieces rs bss \<longleftrightarrow> rs = map Recv_bytes bss \<and> [] \<notin> set bss"

lemma recv_all_pieces:
  "[] \<notin> set bss \<Longrightarrow> n \<le> length (concat bss) \<Longrightarrow>
     recv_all (map Recv_bytes bss @ rs) n = Some (True, take n (concat bss))"
proof (induction bss arbitrary: n)
  case Nil
  then show ?case by simp
next
  case (Cons bs bss)
  show ?case
  proof (cases n)
    case (Suc m)
    have "Suc m - length bs \<le> length (concat bss)" using Cons.prems(2) Suc by auto
    moreover have "[] \<notin> set bss" "bs \<noteq> []" using Cons.prems(1) by auto
    ultimately show ?thesis using Cons.IH [of "Suc m - length bs"] Suc by (simp del: take_Cons' add: take_append)
  qed simp
qed

text \<open>The peer closes the connection before \<open>n\<close> bytes have arrived.\<close>

lemma recv_all_closed:
  "[] \<notin> set bss \<Longrightarrow> length (concat bss) < n \<Longrightarrow>
     recv_all (map Recv_bytes bss @ Recv_bytes [] # rs) n = Some (True, concat bss)"
proof (induction bss arbitrary: n)
  case Nil
  then obtain m where "n = Suc m" by (cases n) auto
  then show ?case by simp
next
  case (Cons bs bss)
  then obtain m where n: "n = Suc m" by (cases n) auto
  have "length (concat bss) < Suc m - length bs" using Cons.prems(2) n by auto
  moreover have "[] \<notin> set bss" "bs \<noteq> []" using Cons.prems(1) by auto
  moreover have "take (Suc m) bs = bs" using Cons.prems(2) n by simp
  ultimately show ?case using Cons.IH [of "Suc m - length bs"] n by simp
qed

lemma length_request_line:
  assumes "length fid \<le> 63" "length cmd \<le> 6"
  shows "length (request_line cmd fid offset len) \<le> 255"
proof -
  have "length (dec_str (unat w)) \<le> 20" for w :: u64
  proof (rule dec_str_length)
    have "unat w < 2 ^ 64" using unsigned_less [of w] by simp
    then show "unat w < 10 ^ 20" by simp
  qed simp
  from this [of offset] this [of len] assms show ?thesis by (simp add: request_line_def)
qed

lemma send_line_whole: "length s \<le> 255 \<Longrightarrow> send_line behind s (int (length s)) = str_bytes s"
  by (simp add: send_line_def str_bytes_def)

lemma length_str_bytes [simp]: "length (str_bytes s) = length s"
  by (simp add: str_bytes_def)

lemma zero_str_bytes: "0 \<in> set (str_bytes s) \<longleftrightarrow> CHR 0x00 \<in> set s"
  by (auto simp: str_bytes_def image_iff)

text \<open>\<^verbatim>\<open>strncmp\<close> with a literal looks at received bytes only.\<close>

lemma reply_prefix:
  assumes "0 \<notin> set pat" "length pat < sz"
  shows "take (length pat) (reply_buffer sz bs behind) = pat \<longleftrightarrow> take (length pat) bs = pat"
proof (cases "length pat \<le> length bs")
  case True
  with assms(2) show ?thesis by (simp add: reply_buffer_def overwrite_def)
next
  case False
  then have "0 \<in> set (take (length pat) (reply_buffer sz bs behind))"
    using assms(2) by (auto simp: reply_buffer_def overwrite_def take_append Suc_diff_le not_le take_Cons')
  with assms(1) have "take (length pat) (reply_buffer sz bs behind) \<noteq> pat" by auto
  moreover have "take (length pat) bs \<noteq> pat" using False by (metis length_take min.absorb1 nat_le_linear not_le order_refl)
  ultimately show ?thesis by simp
qed

lemma reply_ok:
  "take 3 (reply_buffer 256 bs behind) = str_bytes ''OK|'' \<longleftrightarrow> take 3 bs = str_bytes ''OK|''"
  "take 2 (reply_buffer 256 bs behind) = str_bytes ''OK'' \<longleftrightarrow> take 2 bs = str_bytes ''OK''"
  using reply_prefix [of "str_bytes ''OK|''" 256 bs behind] reply_prefix [of "str_bytes ''OK''" 256 bs behind]
  by (simp_all add: zero_str_bytes numeral_2_eq_2 numeral_3_eq_3)

section \<open>A concrete interface\<close>

definition demo_iface :: storage_interface where
  "demo_iface = \<lparr>nodes = (\<lambda>i. zero_node\<lparr>sn_id := of_nat (101 + i), sn_ip := ''n'', sn_port := 9000, sn_available := 1000,
     sn_online := (i \<noteq> 1)\<rparr>), num_nodes = 3, max_nodes = 16, next_node_idx = 0, total_reads = 0,
     total_writes = 0, total_deletes = 0, bytes_written = 0, bytes_read = 0\<rparr>"

definition demo_tcp_env :: tcp_env where
  "demo_tcp_env = \<lparr>t_socket = 5, t_resolves = True, t_connects = True, t_line_send = 13, t_data_sends = [1, 1, 1],
     t_reply = Recv_bytes (str_bytes ''OK|3''), t_data_recvs = [Recv_bytes []], t_malloc = (\<lambda>n. n \<noteq> - 1),
     stack1 = [], stack2 = []\<rparr>"

lemma demo_iface_wf [simp]: "iface_wf demo_iface"
  by (simp add: iface_wf_def demo_iface_def)

lemma demo_iface_node [simp]:
  "storage_interface_get_node demo_iface 103 = Some (zero_node\<lparr>sn_id := 103, sn_ip := ''n'', sn_port := 9000, sn_available := 1000, sn_online := True\<rparr>)"
  by (simp add: storage_interface_get_node_def find_node_def tbl_find_def find_idx_def demo_iface_def upt_conv_Cons zero_node_def)

section \<open>Properties\<close>

text \<open>C38: the selection of replicas returns distinct nodes that are online and have room for the
  file, as many as asked for if there are that many and otherwise all of them, wherever the
  round-robin counter stands; it ends also on an empty table and changes only the counter.\<close>

theorem select_nodes_correct:
  assumes "iface_wf iface" "num_replicas \<noteq> 0" "storage_interface_select_nodes z num_replicas iface = (rc, sel, iface')"
  shows "rc = int (length sel) \<and> distinct sel \<and> set sel \<subseteq> eligible_ids z iface \<and>
    length sel = min (unat num_replicas) (card (eligible_ids z iface)) \<and>
    (\<exists>x. iface' = iface\<lparr>next_node_idx := x\<rparr>) \<and> iface_wf iface'"
  by (rule select_nodes_spec [OF assms])

theorem select_nodes_correct_witness:
  "\<exists>iface'. storage_interface_select_nodes 10 3 demo_iface = (2, [101, 103], iface') \<and>
     card (eligible_ids 10 demo_iface) = 2 \<and> iface_wf iface'"
proof -
  have e: "eligible_ids 10 demo_iface = {101, 103}"
    by (auto simp: eligible_ids_def eligible_def demo_iface_def zero_node_def arr_take_def upt_conv_Cons)
  obtain rc sel iface' where s: "storage_interface_select_nodes 10 3 demo_iface = (rc, sel, iface')" by (metis prod_cases3)
  have "fst (snd (storage_interface_select_nodes 10 3 demo_iface)) = [101, 103]" by code_simp
  then have "sel = [101, 103]" by (simp add: s)
  with select_nodes_correct [OF _ _ s] s e show ?thesis by auto
qed

text \<open>C39: a write to a storage node ends. Let the node be known and the connection made, the file id
  be at most 63 bytes, and the one \<^verbatim>\<open>send\<close> of the request line not fail. When each \<^verbatim>\<open>send\<close> of the data
  takes at least one byte, as many calls as there are bytes are enough, whatever pieces they take.
  What has been sent then is what the first \<^verbatim>\<open>send\<close> took of the request line (all of it or a prefix: the
  code does not send the rest), followed by all the data; the result is success with the statistics
  updated if the node answers with an OK line, and failure with nothing changed otherwise.\<close>

theorem write_exchange:
  assumes "storage_interface_get_node iface nid = Some nd" "connect_to_storage_node e \<ge> 0" "length fid \<le> 63"
    "0 \<le> t_line_send e" "\<forall>r \<in> set (t_data_sends e). r > 0" "length data \<le> length (t_data_sends e)"
  shows "\<exists>rc resp iface'. storage_interface_write e nid fid offset data iface =
      Some (rc, resp, take (nat (t_line_send e)) (str_bytes (request_line ''WRITE'' fid offset (of_nat (length data)))) @ data,
        iface') \<and>
    (rc = 0 \<longleftrightarrow> (\<exists>bs. t_reply e = Recv_bytes bs \<and> take 3 bs = str_bytes ''OK|'')) \<and> status resp = rc \<and>
    (rc = 0 \<longrightarrow> bytes_transferred resp = of_nat (length data) \<and>
      iface' = iface\<lparr>total_writes := total_writes iface + 1, bytes_written := bytes_written iface + of_nat (length data)\<rparr>) \<and>
    (rc \<noteq> 0 \<longrightarrow> rc = - 1 \<and> iface' = iface)"
proof -
  have l: "send_line (stack1 e) (request_line ''WRITE'' fid offset (of_nat (length data))) (t_line_send e) =
      take (nat (t_line_send e)) (str_bytes (request_line ''WRITE'' fid offset (of_nat (length data))))"
    using length_request_line [OF assms(3)] by (simp add: send_line_def)
  have "\<not> connect_to_storage_node e < 0" "\<not> t_line_send e < 0" using assms(2,4) by simp_all
  then show ?thesis
    using assms(1)
    by (cases "t_reply e") (simp_all add: storage_interface_write_def send_all_ends [OF assms(6,5)] l reply_ok Let_def fail_response_def zero_response_def)
qed

theorem write_exchange_witness:
  "\<exists>resp iface'. storage_interface_write demo_tcp_env 103 ''ab'' 0 [7, 8, 9] demo_iface =
      Some (0, resp, str_bytes (request_line ''WRITE'' ''ab'' 0 3) @ [7, 8, 9], iface') \<and> bytes_transferred resp = 3 \<and>
    total_writes iface' = 1"
proof -
  have "length (request_line ''WRITE'' ''ab'' 0 3) = 13" by (simp add: request_line_def dec_str.simps)
  then have l: "take (nat (t_line_send demo_tcp_env)) (str_bytes (request_line ''WRITE'' ''ab'' 0 3)) =
      str_bytes (request_line ''WRITE'' ''ab'' 0 3)" "0 \<le> t_line_send demo_tcp_env"
    by (simp_all add: demo_tcp_env_def)
  have "connect_to_storage_node demo_tcp_env \<ge> 0" "\<forall>r \<in> set (t_data_sends demo_tcp_env). r > 0"
    "length [7 :: byte, 8, 9] \<le> length (t_data_sends demo_tcp_env)"
    "\<exists>bs. t_reply demo_tcp_env = Recv_bytes bs \<and> take 3 bs = str_bytes ''OK|''"
    by (simp_all add: connect_to_storage_node_def demo_tcp_env_def str_bytes_def)
  with write_exchange [OF demo_iface_node _ _ l(2), of "''ab''" "[7, 8, 9]" 0] show ?thesis
    by (auto simp: demo_iface_def l(1))
qed

section \<open>Silent failures\<close>

text \<open>A connection that is closed before any data arrives is a successful read of nothing. The
  storage node answers every failed read this way.\<close>

lemma read_closed:
  assumes "storage_interface_get_node iface nid = Some nd" "connect_to_storage_node e \<ge> 0" "t_line_send e \<ge> 0"
    "t_malloc e len" "t_data_recvs e = map Recv_bytes bss @ Recv_bytes [] # rs" "[] \<notin> set bss" "length (concat bss) < unat len"
  shows "\<exists>sent iface'. storage_interface_read e nid fid offset len iface =
    Some (0, zero_response\<lparr>rdata := Some (concat bss), data_len := of_nat (length (concat bss)),
      bytes_transferred := of_nat (length (concat bss))\<rparr>, sent, iface')"
  using assms(1-4) recv_all_closed [OF assms(6,7), of rs] by (simp add: storage_interface_read_def assms(5) Let_def)

text \<open>A delete whose answer does not arrive, or never comes because the node is gone, is reported as
  a success without being counted.\<close>

theorem delete_without_answer:
  assumes "storage_interface_get_node iface nid = Some nd" "connect_to_storage_node e \<ge> 0" "t_line_send e \<ge> 0"
    "t_reply e = Recv_failed \<or> t_reply e = Recv_bytes []"
  shows "\<exists>sent. storage_interface_delete e nid fid iface = Some (0, zero_response, sent, iface)"
  using assms by (auto simp: storage_interface_delete_def Let_def)

text \<open>Replication asks for a buffer of \<^verbatim>\<open>UINT64_MAX\<close> bytes, which no allocator gives (requests above
  \<^verbatim>\<open>PTRDIFF_MAX\<close> fail), so it never copies anything.\<close>

theorem replicate_never_succeeds:
  assumes "\<not> t_malloc e1 (- 1)"
  shows "\<exists>resp sent. storage_interface_replicate e1 e2 source target fid iface = Some (- 1, resp, sent, iface) \<and> status resp = - 1"
proof -
  have "\<exists>resp sent. storage_interface_read e1 source fid 0 (- 1) iface = Some (- 1, resp, sent, iface) \<and> status resp = - 1"
    using assms by (auto simp: storage_interface_read_def Let_def fail_response_def split: option.splits)
  then show ?thesis by (auto simp: storage_interface_replicate_def)
qed

end
