(* ===== verification/Frontend_Consensus.thy ===== *)
theory Frontend_Consensus
  imports Frontend_Table Paxos_Props Storage_Props
begin

text \<open>
  Proposals of the coordinator: what the callbacks and handled messages do to the file table and to
  the proposal slots, and what a proposal that returns has done.
\<close>

section \<open>Callbacks\<close>

lemma persist_wal_table:
  "persist_wal e sq v len m = Some (rc, m') \<Longrightarrow> tab_inv m' = tab_inv m \<and> meta_map m' = meta_map m"
  by (auto simp: persist_wal_def dest: wal_append_table split: option.splits if_splits prod.splits)

text \<open>The entry a value stands for.\<close>

definition value_entry :: "byte list option \<Rightarrow> u64 \<Rightarrow> metadata_entry option" where
  "value_entry v len =
     (case v of None \<Rightarrow> None
      | Some bs \<Rightarrow> if len = 0 then None else case decode_value True bs len of Some (Some x) \<Rightarrow> Some x | _ \<Rightarrow> None)"

lemma decode_value_nomem: "decode_value False v len = Some y \<Longrightarrow> y = None"
  by (auto simp: decode_value_def metadata_deserialize_def split: if_splits)

text \<open>An entry that there is no memory for is not applied.\<close>

lemma apply_state_machine_table:
  assumes "apply_state_machine e sq v len m = Some m'" "tab_inv m" "\<forall>x. value_entry v len = Some x \<longrightarrow> id_ok x"
  shows "\<exists>xs. table_steps m xs m' \<and> set xs \<subseteq> set_option (value_entry v len) \<and>
    (he_alloc e 2 \<and> he_alloc e 3 \<longrightarrow> set xs = set_option (value_entry v len))"
proof (cases "value_entry v len")
  case None
  with assms(1) have "m' = m"
    by (cases "he_alloc e 2") (auto simp: apply_state_machine_def value_entry_def dest: decode_value_nomem split: option.splits if_splits)
  with assms(2) None show ?thesis by (intro exI [of _ "[]"]) (simp add: table_steps_refl)
next
  case (Some x)
  show ?thesis
  proof (cases "he_alloc e 2")
    case False
    with assms(1) have "m' = m" by (auto simp: apply_state_machine_def dest: decode_value_nomem split: option.splits if_splits)
    with assms(2) False show ?thesis by (intro exI [of _ "[]"]) (simp add: table_steps_refl)
  next
    case True
    with Some assms(1) have m': "m' = snd (metadata_apply_entry (he_alloc e 3) x m)"
      by (auto simp: apply_state_machine_def value_entry_def split: option.splits if_splits)
    have a: "table_steps m [x] (snd (metadata_apply_entry True x m))"
      using apply_entry_table [OF assms(2)] assms(3) Some by (simp add: table_steps_def)
    have "m' = m \<and> \<not> he_alloc e 3 \<or> m' = snd (metadata_apply_entry True x m)"
      unfolding m' by (cases "he_alloc e 3") (auto simp: metadata_apply_entry_def split: option.splits)
    then show ?thesis
    proof
      assume "m' = m \<and> \<not> he_alloc e 3"
      with assms(2) show ?thesis by (intro exI [of _ "[]"]) (simp add: table_steps_refl)
    next
      assume "m' = snd (metadata_apply_entry True x m)"
      with a Some show ?thesis by (intro exI [of _ "[x]"]) simp
    qed
  qed
qed

lemma run_callbacks_table:
  assumes "run_callbacks e cbs fe = Some (ne, fe')" "tab_inv (fe_meta fe)"
    "\<forall>sq v len x. E_apply sq v len \<in> set cbs \<and> value_entry v len = Some x \<longrightarrow> id_ok x"
  shows "\<exists>xs. table_steps (fe_meta fe) xs (fe_meta fe') \<and>
    set xs \<subseteq> {x. \<exists>sq v len. E_apply sq v len \<in> set cbs \<and> value_entry v len = Some x} \<and>
    (he_alloc e 2 \<and> he_alloc e 3 \<longrightarrow> set xs = {x. \<exists>sq v len. E_apply sq v len \<in> set cbs \<and> value_entry v len = Some x})"
  using assms
proof (induction cbs arbitrary: fe ne)
  case Nil
  then show ?case by (intro exI [of _ "[]"]) (simp add: table_steps_refl)
next
  case (Cons c cbs)
  obtain ne1 fe1 ne2 where r: "run_callback e c fe = Some (ne1, fe1)" "run_callbacks e cbs fe1 = Some (ne2, fe')"
    using Cons.prems(1) by (auto simp: bind_eq_Some_conv)
  let ?out = "\<lambda>cs. {x. \<exists>sq v len. E_apply sq v len \<in> set cs \<and> value_entry v len = Some x}"
  let ?mem = "he_alloc e 2 \<and> he_alloc e 3"
  have "\<exists>xs. table_steps (fe_meta fe) xs (fe_meta fe1) \<and> set xs \<subseteq> ?out [c] \<and> (?mem \<longrightarrow> set xs = ?out [c])"
  proof (cases c)
    case (E_persist sq v len)
    then show ?thesis using r(1) Cons.prems(2)
      by (intro exI [of _ "[]"]) (auto simp: table_steps_def dest: persist_wal_table)
  next
    case (E_apply sq v len)
    then obtain m' where m': "apply_state_machine e sq v len (fe_meta fe) = Some m'" "fe_meta fe1 = m'"
      using r(1) by auto
    have "set_option (value_entry v len) = ?out [c]" unfolding E_apply by auto
    moreover have "\<forall>x. value_entry v len = Some x \<longrightarrow> id_ok x" using Cons.prems(3) E_apply by auto
    ultimately show ?thesis using apply_state_machine_table [OF m'(1) Cons.prems(2)] unfolding m'(2) by simp
  next
    case (E_broadcast msg)
    then show ?thesis using r(1) Cons.prems(2) by (intro exI [of _ "[]"]) (auto simp: table_steps_def)
  qed
  then obtain xs where xs: "table_steps (fe_meta fe) xs (fe_meta fe1)" "set xs \<subseteq> ?out [c]" "?mem \<longrightarrow> set xs = ?out [c]" by blast
  have ids: "\<forall>sq v len x. E_apply sq v len \<in> set cbs \<and> value_entry v len = Some x \<longrightarrow> id_ok x" using Cons.prems(3) by (meson list.set_intros(2))
  obtain ys where ys: "table_steps (fe_meta fe1) ys (fe_meta fe')" "set ys \<subseteq> ?out cbs" "?mem \<longrightarrow> set ys = ?out cbs"
    using Cons.IH [OF r(2) table_steps_inv [OF xs(1)] ids] by blast
  have eq: "?out (c # cbs) = ?out [c] \<union> ?out cbs" by auto
  have "set (xs @ ys) \<subseteq> ?out (c # cbs)" unfolding set_append eq by (rule Un_mono [OF xs(2) ys(2)])
  moreover have "set (xs @ ys) = ?out (c # cbs)" if ?mem unfolding set_append eq mp [OF xs(3) that] mp [OF ys(3) that] ..
  ultimately show ?case using table_steps_trans [OF xs(1) ys(1)] by blast
qed

lemma run_callbacks_frame:
  "run_callbacks e cbs fe = Some (ne, fe') \<Longrightarrow> fe_paxos fe' = fe_paxos fe \<and> fe_store fe' = fe_store fe"
proof (induction cbs arbitrary: fe ne)
  case (Cons c cbs)
  then show ?case by (cases c) (fastforce simp: bind_eq_Some_conv)+
qed simp

section \<open>Handled messages\<close>

text \<open>What handling messages keeps of the proposal slots.\<close>

definition slot_frame :: "paxos_node \<Rightarrow> paxos_node \<Rightarrow> bool" where
  "slot_frame n n' \<longleftrightarrow> quorum_size n' = quorum_size n \<and> max_proposals n' = max_proposals n \<and>
     apply_callback n' = apply_callback n \<and> persist_callback n' = persist_callback n \<and>
     broadcast_callback n' = broadcast_callback n \<and>
     (\<forall>j. in_use (active_proposals n' j) = in_use (active_proposals n j) \<and>
          proposal_id (active_proposals n' j) = proposal_id (active_proposals n j) \<and>
          proposed_value (active_proposals n' j) = proposed_value (active_proposals n j) \<and>
          value_len (active_proposals n' j) = value_len (active_proposals n j))"

lemma slot_frame_refl [simp]: "slot_frame n n"
  by (simp add: slot_frame_def)

lemma slot_frame_trans: "slot_frame n n1 \<Longrightarrow> slot_frame n1 n2 \<Longrightarrow> slot_frame n n2"
  by (simp add: slot_frame_def)

abbreviation slot_entry :: "paxos_node \<Rightarrow> nat \<Rightarrow> metadata_entry option" where
  "slot_entry n j \<equiv> value_entry (proposed_value (active_proposals n j)) (value_len (active_proposals n j))"

definition pending :: "paxos_node \<Rightarrow> metadata_entry set" where
  "pending n = {x. \<exists>j. in_use (active_proposals n j) \<and> slot_entry n j = Some x}"

lemma slot_frame_pending: "slot_frame n n' \<Longrightarrow> pending n' = pending n"
  by (simp add: slot_frame_def pending_def)

lemma proposal_for_in_use: "proposal_for n msg = Some i \<Longrightarrow> in_use (active_proposals n i)"
  by (auto simp: proposal_for_def find_idx_Some_iff)

lemma handle_slot_frame:
  assumes "paxos_handle_message e n msg = (rc, resp, cbs, n')"
  shows "slot_frame n n'"
  using assms
  by (auto simp: paxos_handle_message_def handler_defs slot_frame_def Let_def split: if_splits option.splits)

text \<open>The entries a message makes the node apply: a value of its own that a quorum has accepted, or
  a value another node has committed.\<close>

lemma handle_applies:
  assumes "paxos_handle_message e n msg = (rc, resp, cbs, n')" "E_apply sq v len \<in> set cbs"
  shows "(\<exists>j. in_use (active_proposals n j) \<and> v = proposed_value (active_proposals n j) \<and> len = value_len (active_proposals n j)) \<or>
    m_phase msg = PAXOS_PHASE_LEARN \<and> v = m_value msg \<and> len = m_value_len msg"
  using assms
  by (auto simp: paxos_handle_message_def handler_defs Let_def dest: proposal_for_in_use split: if_splits option.splits)

lemma handle_commits:
  assumes "paxos_handle_message e n msg = (rc, resp, cbs, n')" "apply_callback n"
    "committed (active_proposals n' j)" "\<not> committed (active_proposals n j)"
  shows "\<exists>sq. E_apply sq (proposed_value (active_proposals n j)) (value_len (active_proposals n j)) \<in> set cbs"
  using assms
  by (auto simp: paxos_handle_message_def handler_defs Let_def split: if_splits option.splits)

text \<open>The entry a LEARN message carries.\<close>

definition learned_entry :: "byte list option \<Rightarrow> metadata_entry option" where
  "learned_entry pl =
     (case paxos_deserialize_message True False (case pl of None \<Rightarrow> [] | Some bs \<Rightarrow> bs) of
        Inl _ \<Rightarrow> None
      | Inr msg \<Rightarrow> if m_phase msg = PAXOS_PHASE_LEARN then value_entry (m_value msg) (m_value_len msg) else None)"

lemma deserialize_stale:
  "paxos_deserialize_message al stale bs = Inr msg \<Longrightarrow> paxos_deserialize_message True False bs = Inr (msg\<lparr>m_is_noop := False\<rparr>)"
  by (auto simp: paxos_deserialize_message_def Let_def split: if_splits)

text \<open>A well-typed entry: every field fits its array in the struct, and the number of replicas is not
  larger than the array of their ids.\<close>

definition entry_wt :: "metadata_entry \<Rightarrow> bool" where
  "entry_wt x \<longleftrightarrow> entry_ok x \<and> unat (num_storage_nodes x) \<le> length (storage_nodes x)"

lemma entry_wtD: "entry_wt x \<Longrightarrow> entry_ok x"
  by (simp add: entry_wt_def)

text \<open>A message that carries a well-typed entry if it announces a committed one.\<close>

definition delivery_ok :: "delivery \<Rightarrow> bool" where
  "delivery_ok d = (case d of (e, s, ty, pl) \<Rightarrow> case learned_entry pl of None \<Rightarrow> True | Some x \<Rightarrow> entry_wt x)"

text \<open>There is memory for an entry that handling the message commits.\<close>

definition memory_ok :: "delivery \<Rightarrow> bool" where
  "memory_ok d = (case d of (e, s, ty, pl) \<Rightarrow> he_alloc e 2 \<and> he_alloc e 3)"

lemma entry_ok_id: "entry_ok x \<Longrightarrow> id_ok x"
  by (simp add: entry_ok_def cbuf_ok_def id_ok_def)

definition learned :: "delivery list \<Rightarrow> metadata_entry set" where
  "learned ds = {x. \<exists>e s ty pl. (e, s, ty, pl) \<in> set ds \<and> learned_entry pl = Some x}"

lemma learned_mono: "set ds \<subseteq> set ds' \<Longrightarrow> learned ds \<subseteq> learned ds'"
  unfolding learned_def by blast

text \<open>From \<open>fe\<close> to \<open>fe'\<close> the entries \<open>xs\<close> were applied, each pending or learned from \<open>L\<close>, and, if there was
  memory for it (\<open>A\<close>), every slot that became committed had its entry applied.\<close>

definition handled :: "metadata_entry set \<Rightarrow> bool \<Rightarrow> frontend \<Rightarrow> metadata_entry list \<Rightarrow> frontend \<Rightarrow> bool" where
  "handled L A fe xs fe' \<longleftrightarrow> table_steps (fe_meta fe) xs (fe_meta fe') \<and> slot_frame (fe_paxos fe) (fe_paxos fe') \<and>
     fe_store fe' = fe_store fe \<and> set xs \<subseteq> pending (fe_paxos fe) \<union> L \<and>
     (A \<longrightarrow> (\<forall>j x. committed (active_proposals (fe_paxos fe') j) \<and> \<not> committed (active_proposals (fe_paxos fe) j) \<and>
        slot_entry (fe_paxos fe) j = Some x \<longrightarrow> x \<in> set xs))"

definition ready :: "frontend \<Rightarrow> bool" where
  "ready fe \<longleftrightarrow> tab_inv (fe_meta fe) \<and> apply_callback (fe_paxos fe) \<and> (\<forall>x \<in> pending (fe_paxos fe). id_ok x)"

lemma handled_ready: "handled L A fe xs fe' \<Longrightarrow> ready fe \<Longrightarrow> ready fe'"
  by (auto simp: handled_def ready_def table_steps_def slot_frame_pending) (simp_all add: slot_frame_def)

lemma handled_refl: "ready fe \<Longrightarrow> handled L A fe [] fe"
  by (simp add: handled_def ready_def table_steps_refl)

lemma handled_trans:
  assumes "handled L A fe xs fe1" "handled L A fe1 ys fe2"
  shows "handled L A fe (xs @ ys) fe2"
proof -
  have f: "slot_frame (fe_paxos fe) (fe_paxos fe1)" "slot_frame (fe_paxos fe1) (fe_paxos fe2)"
    using assms by (simp_all add: handled_def)
  have "slot_entry (fe_paxos fe1) j = slot_entry (fe_paxos fe) j" for j using f(1) by (simp add: slot_frame_def)
  then have "x \<in> set (xs @ ys)" if "committed (active_proposals (fe_paxos fe2) j)" "\<not> committed (active_proposals (fe_paxos fe) j)"
    "slot_entry (fe_paxos fe) j = Some x" A for j x
    using that assms unfolding handled_def by (cases "committed (active_proposals (fe_paxos fe1) j)") auto
  moreover have "set (xs @ ys) \<subseteq> pending (fe_paxos fe) \<union> L"
    using assms slot_frame_pending [OF f(1)] by (auto simp: handled_def)
  ultimately show ?thesis
    using assms table_steps_trans [of "fe_meta fe" xs "fe_meta fe1" ys "fe_meta fe2"] slot_frame_trans [OF f]
    by (simp add: handled_def) blast
qed

lemma handled_mono: "handled L A fe xs fe' \<Longrightarrow> L \<subseteq> L' \<Longrightarrow> A' \<longrightarrow> A \<Longrightarrow> handled L' A' fe xs fe'"
  by (auto simp: handled_def)

text \<open>A Paxos message that is handled runs the callbacks of its handler; the answer only uses the network.\<close>

lemma message_run:
  assumes "handle_network_message e s MSG_TYPE_PAXOS pl fe = Some (ne, fe')"
    "paxos_deserialize_message (he_alloc e 5) (he_stale e) (case pl of None \<Rightarrow> [] | Some bs \<Rightarrow> bs) = Inr msg"
    "paxos_handle_message (paxos_answers e (m_value msg) (m_value_len msg) fe) (fe_paxos fe) msg = (rc, resp, cbs, n)"
  obtains ne1 fe1 where "run_callbacks e cbs (fe\<lparr>fe_paxos := n\<rparr>) = Some (ne1, fe1)"
    "fe_meta fe' = fe_meta fe1" "fe_paxos fe' = n" "fe_store fe' = fe_store fe"
proof -
  obtain ne1 fe1 where r: "run_callbacks e cbs (fe\<lparr>fe_paxos := n\<rparr>) = Some (ne1, fe1)"
    and rest: "(case resp of None \<Rightarrow> Some (ne1, fe1)
      | Some m \<Rightarrow> if rc \<noteq> 0 then Some (ne1, fe1)
          else case paxos_serialize_message (he_alloc e 6) (he_ptr e) (he_pad e) (he_junk e) m of
                 Inl Wire_out_of_bounds \<Rightarrow> None | Inl _ \<Rightarrow> Some (ne1, fe1)
               | Inr bs \<Rightarrow> let (rc', ne', eng) = network_engine_send (he_reply e) s MSG_TYPE_PAXOS bs (fe_net fe1)
                           in Some (ne1 @ ne', fe1\<lparr>fe_net := eng\<rparr>)) = Some (ne, fe')"
    using assms(1) by (auto simp: handle_network_message_def assms(2,3) bind_eq_Some_conv)
  have "fe_meta fe' = fe_meta fe1" "fe_paxos fe' = fe_paxos fe1" "fe_store fe' = fe_store fe1"
    using rest by (auto split: option.splits if_splits sum.splits wire_error.splits prod.splits)
  with that [OF r] run_callbacks_frame [OF r] show ?thesis by simp
qed

lemma message_handled:
  assumes "handle_network_message e s ty pl fe = Some (ne, fe')" "ready fe" "delivery_ok (e, s, ty, pl)"
  shows "\<exists>xs. handled (learned [(e, s, ty, pl)]) (memory_ok (e, s, ty, pl)) fe xs fe'"
proof (cases "fe' = fe")
  case True
  then show ?thesis using handled_refl [OF assms(2)] by blast
next
  case False
  then obtain msg where msg: "paxos_deserialize_message (he_alloc e 5) (he_stale e) (case pl of None \<Rightarrow> [] | Some bs \<Rightarrow> bs) = Inr msg"
      and ty: "ty = MSG_TYPE_PAXOS"
    using assms(1) by (auto simp: handle_network_message_def split: if_splits sum.splits wire_error.splits)
  obtain rc resp cbs n where h:
    "paxos_handle_message (paxos_answers e (m_value msg) (m_value_len msg) fe) (fe_paxos fe) msg = (rc, resp, cbs, n)"
    by (metis prod_cases4)
  obtain ne1 fe1 where r: "run_callbacks e cbs (fe\<lparr>fe_paxos := n\<rparr>) = Some (ne1, fe1)"
    and fe1: "fe_meta fe' = fe_meta fe1" "fe_paxos fe' = n" "fe_store fe' = fe_store fe"
    using message_run [OF assms(1) [unfolded ty] msg h] by blast
  let ?L = "learned [(e, s, ty, pl)]"
  have origin: "id_ok x \<and> (x \<in> pending (fe_paxos fe) \<or> x \<in> ?L)" if "E_apply sq v len \<in> set cbs" "value_entry v len = Some x" for sq v len x
    using handle_applies [OF h that(1)]
  proof
    assume "\<exists>j. in_use (active_proposals (fe_paxos fe) j) \<and> v = proposed_value (active_proposals (fe_paxos fe) j) \<and> len = value_len (active_proposals (fe_paxos fe) j)"
    with that(2) have "x \<in> pending (fe_paxos fe)" by (auto simp: pending_def)
    with assms(2) show ?thesis by (simp add: ready_def)
  next
    assume "m_phase msg = PAXOS_PHASE_LEARN \<and> v = m_value msg \<and> len = m_value_len msg"
    with that(2) deserialize_stale [OF msg] have "learned_entry pl = Some x" by (simp add: learned_entry_def)
    with assms(3) show ?thesis by (auto simp: delivery_ok_def learned_def entry_ok_id entry_wtD)
  qed
  let ?out = "{x. \<exists>sq v len. E_apply sq v len \<in> set cbs \<and> value_entry v len = Some x}"
  have "tab_inv (fe_meta (fe\<lparr>fe_paxos := n\<rparr>))" using assms(2) by (simp add: ready_def)
  then obtain xs where xs: "table_steps (fe_meta fe) xs (fe_meta fe1)" "set xs \<subseteq> ?out" "he_alloc e 2 \<and> he_alloc e 3 \<longrightarrow> set xs = ?out"
    using run_callbacks_table [OF r] origin by fastforce
  have sub: "set xs \<subseteq> pending (fe_paxos fe) \<union> ?L" using xs(2) origin by blast
  have "x \<in> set xs" if "committed (active_proposals n j)" "\<not> committed (active_proposals (fe_paxos fe) j)" "slot_entry (fe_paxos fe) j = Some x" "memory_ok (e, s, ty, pl)" for j x
    using handle_commits [OF h _ that(1,2)] assms(2) that(3,4) xs(3) by (auto simp: ready_def memory_ok_def)
  with xs(1) sub handle_slot_frame [OF h] show ?thesis by (auto simp: handled_def fe1)
qed

lemma deliveries_handled:
  assumes "deliver_all ds fe = Some (ne, fe')" "ready fe" "\<forall>d \<in> set ds. delivery_ok d"
  shows "\<exists>xs. handled (learned ds) (\<forall>d \<in> set ds. memory_ok d) fe xs fe'"
  using assms
proof (induction ds arbitrary: fe ne)
  case Nil
  then show ?case using handled_refl by auto
next
  case (Cons d ds)
  obtain e s ty pl where d: "d = (e, s, ty, pl)" by (metis prod_cases4)
  obtain ne1 fe1 ne2 where r: "handle_network_message e s ty pl fe = Some (ne1, fe1)" "deliver_all ds fe1 = Some (ne2, fe')"
    using Cons.prems(1) by (auto simp: d bind_eq_Some_conv)
  obtain xs where xs: "handled (learned [d]) (memory_ok d) fe xs fe1" using message_handled [OF r(1)] Cons.prems(2,3) by (auto simp: d)
  obtain ys where ys: "handled (learned ds) (\<forall>d \<in> set ds. memory_ok d) fe1 ys fe'"
    using Cons.IH [OF r(2) handled_ready [OF xs Cons.prems(2)]] Cons.prems(3) by auto
  have "learned [d] \<subseteq> learned (d # ds)" "learned ds \<subseteq> learned (d # ds)" by (rule learned_mono; auto)+
  then have "handled (learned (d # ds)) (\<forall>d \<in> set (d # ds). memory_ok d) fe (xs @ ys) fe'"
    by (intro handled_trans [OF handled_mono [OF xs] handled_mono [OF ys]]) simp_all
  then show ?case by blast
qed

section \<open>Waiting\<close>

declare paxos_wait_for_condition.simps [simp del]

lemma wait_now:
  "paxos_wait_for_condition n c p [] = (if \<not> in_use p then Some (- 1) else if wait_satisfied n c p then Some 0 else None)"
  by (simp add: paxos_wait_for_condition.simps)

lemma wait_event:
  "paxos_wait_for_condition n c p [] = None \<Longrightarrow> paxos_wait_for_condition n c p ((st, p') # evs) =
     (case st of ETIMEDOUT \<Rightarrow> Some (if wait_satisfied n c p' then 0 else - 1) | Wait_error \<Rightarrow> Some (- 1)
      | Woken \<Rightarrow> paxos_wait_for_condition n c p' evs)"
  by (simp add: wait_now paxos_wait_for_condition.simps [of n c p] split: if_splits)

definition wait_deliveries :: "(wait_status \<times> delivery list) list \<Rightarrow> delivery list" where
  "wait_deliveries evs = concat (map snd evs)"

lemma wait_handled:
  assumes "wait_while c i evs fe = Some (rc, ne, fe')" "ready fe" "\<forall>d \<in> set (wait_deliveries evs). delivery_ok d"
  shows "(\<exists>xs. handled (learned (wait_deliveries evs)) (\<forall>d \<in> set (wait_deliveries evs). memory_ok d) fe xs fe') \<and>
    (rc = 0 \<longrightarrow> wait_satisfied (fe_paxos fe') c (active_proposals (fe_paxos fe') i))"
  using assms
proof (induction evs arbitrary: fe ne)
  case Nil
  then show ?case
    using handled_refl [OF Nil.prems(2), of "learned (wait_deliveries [])" "\<forall>d \<in> set (wait_deliveries []). memory_ok d"]
    by (auto simp: wait_while.simps [of c i "[]"] wait_now split: option.splits if_splits)
next
  case (Cons ev evs)
  obtain st ds where ev: "ev = (st, ds)" by fastforce
  let ?L = "learned (wait_deliveries (ev # evs))" and ?A = "\<forall>d \<in> set (wait_deliveries (ev # evs)). memory_ok d"
  have A: "?A \<longrightarrow> (\<forall>d \<in> set ds. memory_ok d)" "?A \<longrightarrow> (\<forall>d \<in> set (wait_deliveries evs). memory_ok d)" by (auto simp: wait_deliveries_def ev)
  have L: "learned ds \<subseteq> ?L" "learned (wait_deliveries evs) \<subseteq> ?L"
    by (rule learned_mono; simp add: wait_deliveries_def ev)+
  have ok: "\<forall>d \<in> set ds. delivery_ok d" "\<forall>d \<in> set (wait_deliveries evs). delivery_ok d"
    using Cons.prems(3) by (auto simp: wait_deliveries_def ev)
  let ?w = "paxos_wait_for_condition (fe_paxos fe) c (active_proposals (fe_paxos fe) i)"
  show ?case
  proof (cases "?w []")
    case (Some r)
    then have "fe' = fe" "rc = r" using Cons.prems(1) by (simp_all add: wait_while.simps [of c i "ev # evs"])
    with Some handled_refl [OF Cons.prems(2)] show ?thesis by (auto simp: wait_now split: if_splits)
  next
    case None
    obtain ne1 fe1 where d: "deliver_all ds fe = Some (ne1, fe1)"
      and rest: "(if st = Woken then map_option (\<lambda>(rc, ne', fe2). (rc, ne1 @ ne', fe2)) (wait_while c i evs fe1)
        else map_option (\<lambda>rc. (rc, ne1, fe1)) (?w [(st, active_proposals (fe_paxos fe1) i)])) = Some (rc, ne, fe')"
      using Cons.prems(1) None by (auto simp: ev wait_while.simps [of c i "(st, ds) # evs"] bind_eq_Some_conv)
    obtain xs where xs: "handled (learned ds) (\<forall>d \<in> set ds. memory_ok d) fe xs fe1" using deliveries_handled [OF d Cons.prems(2) ok(1)] by blast
    have q: "quorum_size (fe_paxos fe1) = quorum_size (fe_paxos fe)" using xs by (simp add: handled_def slot_frame_def)
    show ?thesis
    proof (cases "st = Woken")
      case True
      then obtain ne2 where w: "wait_while c i evs fe1 = Some (rc, ne2, fe')" using rest by auto
      obtain ys where "handled (learned (wait_deliveries evs)) (\<forall>d \<in> set (wait_deliveries evs). memory_ok d) fe1 ys fe'"
        using Cons.IH [OF w handled_ready [OF xs Cons.prems(2)] ok(2)] by blast
      then have "handled ?L ?A fe (xs @ ys) fe'" using handled_trans [OF handled_mono [OF xs L(1) A(1)] handled_mono [OF _ L(2) A(2)]] by blast
      with Cons.IH [OF w handled_ready [OF xs Cons.prems(2)] ok(2)] show ?thesis by blast
    next
      case False
      then have "fe' = fe1" "?w [(st, active_proposals (fe_paxos fe1) i)] = Some rc" using rest by auto
      moreover have "wait_satisfied (fe_paxos fe1) c (active_proposals (fe_paxos fe1) i)" if "rc = 0"
        using calculation(2) False that q
        by (cases st) (auto simp: wait_event [OF None] wait_satisfied_def paxos_check_quorum_def split: if_splits)
      ultimately show ?thesis using handled_mono [OF xs L(1) A(1)] by blast
    qed
  qed
qed

section \<open>A proposal from beginning to end\<close>

definition config :: "paxos_node \<Rightarrow> u32 \<times> nat \<times> bool \<times> bool \<times> bool" where
  "config n = (quorum_size n, max_proposals n, apply_callback n, persist_callback n, broadcast_callback n)"

definition idle :: "paxos_node \<Rightarrow> bool" where
  "idle n \<longleftrightarrow> (\<forall>j. \<not> in_use (active_proposals n j))"

definition quiet :: "paxos_effect list \<Rightarrow> bool" where
  "quiet cbs \<longleftrightarrow> (\<forall>sq v len. E_apply sq v len \<notin> set cbs)"

definition proposing :: "paxos_node \<Rightarrow> nat \<Rightarrow> byte list \<Rightarrow> u64 \<Rightarrow> bool" where
  "proposing n i v len \<longleftrightarrow> (\<forall>j. in_use (active_proposals n j) \<longleftrightarrow> j = i) \<and>
     proposed_value (active_proposals n i) = Some v \<and> value_len (active_proposals n i) = len"

lemma slot_frame_config: "slot_frame n n' \<Longrightarrow> config n' = config n"
  by (simp add: slot_frame_def config_def)

lemma slot_frame_proposing: "slot_frame n n' \<Longrightarrow> proposing n i v len \<Longrightarrow> proposing n' i v len"
  by (simp add: slot_frame_def proposing_def)

lemma proposing_pending: "proposing n i v len \<Longrightarrow> value_entry (Some v) len = Some x \<Longrightarrow> pending n = {x} \<and> slot_entry n i = Some x"
  by (auto simp: proposing_def pending_def)

lemma run_callbacks_quiet:
  "run_callbacks e cbs fe = Some (ne, fe') \<Longrightarrow> quiet cbs \<Longrightarrow> tab_inv (fe_meta fe) \<Longrightarrow> table_steps (fe_meta fe) [] (fe_meta fe')"
proof (induction cbs arbitrary: fe ne)
  case Nil
  then show ?case by (simp add: table_steps_refl)
next
  case (Cons c cbs)
  obtain ne1 fe1 ne2 where r: "run_callback e c fe = Some (ne1, fe1)" "run_callbacks e cbs fe1 = Some (ne2, fe')"
    using Cons.prems(1) by (auto simp: bind_eq_Some_conv)
  have "tab_inv (fe_meta fe1) \<and> meta_map (fe_meta fe1) = meta_map (fe_meta fe)"
    using r(1) Cons.prems(2,3) by (cases c) (auto simp: quiet_def dest: persist_wal_table)
  moreover have "quiet cbs" using Cons.prems(2) by (auto simp: quiet_def)
  ultimately show ?case using Cons.IH [OF r(2)] by (simp add: table_steps_def)
qed

lemma release_idle: "proposing n i v len \<Longrightarrow> idle (upd_proposal i paxos_release_proposal_slot n)"
  by (auto simp: proposing_def idle_def paxos_release_proposal_slot_def)

lemma next_id_slots [simp]:
  "active_proposals (snd (paxos_next_proposal_id n)) = active_proposals n"
  "config (snd (paxos_next_proposal_id n)) = config n"
  "max_proposals (snd (paxos_next_proposal_id n)) = max_proposals n"
  "node_id (snd (paxos_next_proposal_id n)) = node_id n"
  "next_sequence_number (snd (paxos_next_proposal_id n)) = next_sequence_number n"
  "broadcast_callback (snd (paxos_next_proposal_id n)) = broadcast_callback n"
  by (simp_all add: paxos_next_proposal_id_def Let_def config_def)

lemma config_upd [simp]:
  "config (upd_proposal i f n) = config n" "config (n\<lparr>next_sequence_number := s\<rparr>) = config n"
  by (simp_all add: config_def)

lemma begin_slots:
  assumes "paxos_propose_begin e n (Some v) len = (slot, cbs, n1)" "idle n"
  shows "quiet cbs \<and> config n1 = config n \<and>
    (case slot of None \<Rightarrow> idle n1
     | Some (i, pid, sq) \<Rightarrow> proposing n1 i v len \<and> \<not> committed (active_proposals n1 i))"
  using assms
  by (auto simp: paxos_propose_begin_def Let_def case_prod_beta quiet_def idle_def proposing_def paxos_release_proposal_slot_def
      split: if_splits option.splits)

lemma accept_slots:
  assumes "paxos_propose_accept e n i pid sq (Some v) len rc = (ok, cbs, n1)" "proposing n i v len"
  shows "quiet cbs \<and> config n1 = config n \<and>
    (if ok then proposing n1 i v len \<and> (\<forall>j. committed (active_proposals n1 j) = committed (active_proposals n j)) else idle n1)"
proof -
  define m where "m = (if pid \<ge> highest_proposal_seen n then n\<lparr>highest_proposal_seen := pid, last_accepted_proposal := pid\<rparr> else n)"
  define k where "k = (if sq > highest_sequence_persisted m then m\<lparr>highest_sequence_persisted := sq\<rparr> else m)"
  have m: "active_proposals m = active_proposals n" "config m = config n" by (simp_all add: m_def config_def)
  have k: "active_proposals k = active_proposals n" "config k = config n" using m by (simp_all add: k_def config_def)
  have p: "proposing m i v len" "proposing (upd_proposal i (\<lambda>p. p\<lparr>accept_count := 1\<rparr>) k) i v len"
    using assms(2) m(1) k(1) by (simp_all add: proposing_def)
  note r = release_idle [OF assms(2)] release_idle [OF p(1)] release_idle [OF p(2)]
  show ?thesis
    using assms(1) r p(2) m(2) k unfolding paxos_propose_accept_def Let_def m_def [symmetric] k_def [symmetric]
    by (simp add: quiet_def split: if_splits) (auto split: if_splits)
qed

definition propose_deliveries :: "propose_env \<Rightarrow> delivery list" where
  "propose_deliveries pe = wait_deliveries (pe_wait1 pe) @ pe_gap pe @ wait_deliveries (pe_wait2 pe)"

text \<open>Up to the end of the first wait and the messages after it.\<close>

lemma propose_first_phase:
  assumes "paxos_propose_begin e (fe_paxos fe) (Some v) len = (Some (i, pid, sq), cbs, n1)" "run_callbacks h cbs (fe\<lparr>fe_paxos := n1\<rparr>) = Some (ne1, fe1)"
    "wait_while False i evs fe1 = Some (rc, ne2, fe2)" "(if rc = 0 then deliver_all gap fe2 else Some ([], fe2)) = Some (ne3, fe3)"
    "tab_inv (fe_meta fe)" "idle (fe_paxos fe)" "apply_callback (fe_paxos fe)" "value_entry (Some v) len = Some x" "id_ok x"
    "\<forall>d \<in> set (wait_deliveries evs @ gap). delivery_ok d"
  shows "\<exists>xs. table_steps (fe_meta fe) xs (fe_meta fe3) \<and> set xs \<subseteq> insert x (learned (wait_deliveries evs @ gap)) \<and>
    (committed (active_proposals (fe_paxos fe3) i) \<and> (\<forall>d \<in> set (wait_deliveries evs @ gap). memory_ok d) \<longrightarrow> x \<in> set xs) \<and> proposing (fe_paxos fe3) i v len \<and>
    config (fe_paxos fe3) = config (fe_paxos fe) \<and> fe_store fe3 = fe_store fe"
proof -
  let ?L = "learned (wait_deliveries evs @ gap)" and ?A = "\<forall>d \<in> set (wait_deliveries evs @ gap). memory_ok d"
  have A: "?A \<longrightarrow> (\<forall>d \<in> set (wait_deliveries evs). memory_ok d)" "?A \<longrightarrow> (\<forall>d \<in> set gap. memory_ok d)" by auto
  have L: "learned (wait_deliveries evs) \<subseteq> ?L" "learned gap \<subseteq> ?L" by (rule learned_mono; simp)+
  have ok: "\<forall>d \<in> set (wait_deliveries evs). delivery_ok d" "\<forall>d \<in> set gap. delivery_ok d" using assms(10) by auto
  note s1 = begin_slots [OF assms(1,6)] and f1 = run_callbacks_frame [OF assms(2)]
  have t1: "table_steps (fe_meta fe) [] (fe_meta fe1)" using run_callbacks_quiet [OF assms(2)] s1 assms(5) by simp
  have p1: "proposing (fe_paxos fe1) i v len" "\<not> committed (active_proposals (fe_paxos fe1) i)" "config (fe_paxos fe1) = config (fe_paxos fe)"
    using s1 f1 by simp_all
  note pend = proposing_pending [OF p1(1) assms(8)]
  have rd: "ready fe1" using t1 p1 pend assms(7,9) by (simp add: ready_def table_steps_def config_def)
  obtain xs1 where h1: "handled ?L ?A fe1 xs1 fe2" using wait_handled [OF assms(3) rd ok(1)] handled_mono [OF _ L(1) A(1)] by blast
  have "\<exists>xs. handled ?L ?A fe2 xs fe3"
    using assms(4) handled_refl [OF handled_ready [OF h1 rd]] deliveries_handled [OF _ handled_ready [OF h1 rd] ok(2)] handled_mono [OF _ L(2) A(2)]
    by (cases "rc = 0") (simp_all, blast+)
  then obtain xs where h: "handled ?L ?A fe1 xs fe3" using handled_trans [OF h1] by blast
  have "table_steps (fe_meta fe) xs (fe_meta fe3)" using table_steps_trans [OF t1, of xs] h by (simp add: handled_def)
  with h p1 f1 pend slot_frame_proposing slot_frame_config show ?thesis
    by (intro exI [of _ xs]) (auto simp: handled_def)
qed

text \<open>The local accept and the second wait.\<close>

lemma propose_second_phase:
  assumes "paxos_propose_accept e (fe_paxos fe) i pid sq (Some v) len rc = (True, cbs, n1)" "run_callbacks h cbs (fe\<lparr>fe_paxos := n1\<rparr>) = Some (ne1, fe1)"
    "wait_while True i evs fe1 = Some (rc2, ne2, fe2)" "tab_inv (fe_meta fe)" "proposing (fe_paxos fe) i v len"
    "apply_callback (fe_paxos fe)" "value_entry (Some v) len = Some x" "id_ok x" "\<forall>d \<in> set (wait_deliveries evs). delivery_ok d"
  shows "\<exists>xs. table_steps (fe_meta fe) xs (fe_meta fe2) \<and> set xs \<subseteq> insert x (learned (wait_deliveries evs)) \<and>
    (committed (active_proposals (fe_paxos fe2) i) \<and> \<not> committed (active_proposals (fe_paxos fe) i) \<and>
      (\<forall>d \<in> set (wait_deliveries evs). memory_ok d) \<longrightarrow> x \<in> set xs) \<and>
    proposing (fe_paxos fe2) i v len \<and> config (fe_paxos fe2) = config (fe_paxos fe) \<and> fe_store fe2 = fe_store fe"
proof -
  note s1 = accept_slots [OF assms(1,5)] and f1 = run_callbacks_frame [OF assms(2)]
  have t1: "table_steps (fe_meta fe) [] (fe_meta fe1)" using run_callbacks_quiet [OF assms(2)] s1 assms(4) by simp
  have p1: "proposing (fe_paxos fe1) i v len" "config (fe_paxos fe1) = config (fe_paxos fe)"
    "committed (active_proposals (fe_paxos fe1) i) = committed (active_proposals (fe_paxos fe) i)" "fe_store fe1 = fe_store fe"
    using s1 f1 by simp_all
  note pend = proposing_pending [OF p1(1) assms(7)]
  have rd: "ready fe1" using t1 p1 pend assms(6,8) by (simp add: ready_def table_steps_def config_def)
  obtain xs where h: "handled (learned (wait_deliveries evs)) (\<forall>d \<in> set (wait_deliveries evs). memory_ok d) fe1 xs fe2" using wait_handled [OF assms(3) rd assms(9)] by blast
  have "table_steps (fe_meta fe) xs (fe_meta fe2)" using table_steps_trans [OF t1, of xs] h by (simp add: handled_def)
  with h p1 pend slot_frame_proposing slot_frame_config show ?thesis
    by (intro exI [of _ xs]) (auto simp: handled_def)
qed

text \<open>What a proposal that has returned did: it applied entries learned meanwhile and, if it was
  successful and there was memory, its own; every slot is free again.\<close>

lemma propose_returns:
  assumes "paxos_propose pe (Some v) len fe = Some (rc, ne, fe')" "tab_inv (fe_meta fe)" "idle (fe_paxos fe)"
    "apply_callback (fe_paxos fe)" "value_entry (Some v) len = Some x" "id_ok x" "\<forall>d \<in> set (propose_deliveries pe). delivery_ok d"
  shows "\<exists>xs. table_steps (fe_meta fe) xs (fe_meta fe') \<and> set xs \<subseteq> insert x (learned (propose_deliveries pe)) \<and>
    (rc = 0 \<and> (\<forall>d \<in> set (propose_deliveries pe). memory_ok d) \<longrightarrow> x \<in> set xs) \<and> idle (fe_paxos fe') \<and> config (fe_paxos fe') = config (fe_paxos fe) \<and> fe_store fe' = fe_store fe"
proof -
  let ?L = "learned (propose_deliveries pe)" and ?ds = "wait_deliveries (pe_wait1 pe) @ pe_gap pe"
  have L: "learned ?ds \<subseteq> ?L" "learned (wait_deliveries (pe_wait2 pe)) \<subseteq> ?L" by (rule learned_mono; auto simp: propose_deliveries_def)+
  have ok: "\<forall>d \<in> set ?ds. delivery_ok d" "\<forall>d \<in> set (wait_deliveries (pe_wait2 pe)). delivery_ok d"
    using assms(7) by (auto simp: propose_deliveries_def)
  obtain slot cbs1 n1 where b: "paxos_propose_begin (paxos_answers (pe_begin pe) (Some v) len fe) (fe_paxos fe) (Some v) len = (slot, cbs1, n1)"
    by (metis prod_cases3)
  obtain ne1 fe1 where r1: "run_callbacks (pe_begin pe) cbs1 (fe\<lparr>fe_paxos := n1\<rparr>) = Some (ne1, fe1)"
    using assms(1) by (auto simp: paxos_propose_def b bind_eq_Some_conv)
  note s1 = begin_slots [OF b assms(3)] and f1 = run_callbacks_frame [OF r1]
  show ?thesis
  proof (cases slot)
    case None
    then have "rc = - 1" "fe' = fe1" using assms(1) by (simp_all add: paxos_propose_def b r1)
    with None s1 f1 run_callbacks_quiet [OF r1] assms(2) show ?thesis by (intro exI [of _ "[]"]) simp
  next
    case (Some sl)
    then obtain i pid sq where sl: "slot = Some (i, pid, sq)" by (metis prod_cases3)
    obtain rc1 ne2 fe2 where w1: "wait_while False i (pe_wait1 pe) fe1 = Some (rc1, ne2, fe2)"
      using assms(1) sl by (auto simp: paxos_propose_def b r1 bind_eq_Some_conv)
    obtain ne3 fe3 where g: "(if rc1 = 0 then deliver_all (pe_gap pe) fe2 else Some ([], fe2)) = Some (ne3, fe3)"
      using assms(1) sl w1 by (auto simp: paxos_propose_def b r1 bind_eq_Some_conv)
    obtain xs where t3: "table_steps (fe_meta fe) xs (fe_meta fe3)" "set xs \<subseteq> insert x ?L"
      "committed (active_proposals (fe_paxos fe3) i) \<and> (\<forall>d \<in> set ?ds. memory_ok d) \<longrightarrow> x \<in> set xs"
      and p3: "proposing (fe_paxos fe3) i v len" "config (fe_paxos fe3) = config (fe_paxos fe)" "fe_store fe3 = fe_store fe"
      using propose_first_phase [OF b [unfolded sl] r1 w1 g assms(2-6) ok(1)] L(1) by blast
    have ap: "apply_callback (fe_paxos fe3)" using p3(2) assms(4) by (simp add: config_def)
    obtain a cbs2 n2 where a: "paxos_propose_accept (paxos_answers (pe_accept pe) (Some v) len fe3) (fe_paxos fe3) i pid sq (Some v) len rc1 = (a, cbs2, n2)"
      by (metis prod_cases3)
    obtain ne4 fe4 where r2: "run_callbacks (pe_accept pe) cbs2 (fe3\<lparr>fe_paxos := n2\<rparr>) = Some (ne4, fe4)"
      using assms(1) sl w1 g by (auto simp: paxos_propose_def b r1 a bind_eq_Some_conv)
    show ?thesis
    proof (cases a)
      case False
      then have "rc = - 1" "fe' = fe4" using assms(1) sl w1 g by (auto simp: paxos_propose_def b r1 a r2)
      moreover have "table_steps (fe_meta fe) xs (fe_meta fe4)"
        using table_steps_trans [OF t3(1)] run_callbacks_quiet [OF r2] accept_slots [OF a p3(1)] table_steps_inv [OF t3(1)] by fastforce
      ultimately show ?thesis
        using False t3(2) accept_slots [OF a p3(1)] run_callbacks_frame [OF r2] p3 by (intro exI [of _ xs]) simp
    next
      case True
      then have a1: "paxos_propose_accept (paxos_answers (pe_accept pe) (Some v) len fe3) (fe_paxos fe3) i pid sq (Some v) len rc1 = (True, cbs2, n2)"
        using a by simp
      obtain rc2 ne5 fe5 where w2: "wait_while True i (pe_wait2 pe) fe4 = Some (rc2, ne5, fe5)"
        and fin: "rc = fst (paxos_propose_finish (fe_paxos fe5) i rc2)" "fe' = fe5\<lparr>fe_paxos := snd (paxos_propose_finish (fe_paxos fe5) i rc2)\<rparr>"
        using assms(1) sl w1 g True by (auto simp: paxos_propose_def b r1 a r2 bind_eq_Some_conv case_prod_beta)
      obtain ys where t5: "table_steps (fe_meta fe3) ys (fe_meta fe5)" "set ys \<subseteq> insert x ?L"
        "committed (active_proposals (fe_paxos fe5) i) \<and> \<not> committed (active_proposals (fe_paxos fe3) i) \<and>
          (\<forall>d \<in> set (wait_deliveries (pe_wait2 pe)). memory_ok d) \<longrightarrow> x \<in> set ys"
        and p5: "proposing (fe_paxos fe5) i v len" "config (fe_paxos fe5) = config (fe_paxos fe)" "fe_store fe5 = fe_store fe"
        using propose_second_phase [OF a1 r2 w2 table_steps_inv [OF t3(1)] p3(1) ap assms(5,6) ok(2)] L(2) p3 by auto
      have "rc = 0 \<Longrightarrow> committed (active_proposals (fe_paxos fe5) i)" by (simp add: fin paxos_propose_finish_def split: if_splits)
      moreover have "idle (fe_paxos fe')" "config (fe_paxos fe') = config (fe_paxos fe)" "fe_meta fe' = fe_meta fe5" "fe_store fe' = fe_store fe"
        using release_idle [OF p5(1)] p5 by (simp_all add: fin paxos_propose_finish_def)
      ultimately show ?thesis using table_steps_trans [OF t3(1) t5(1)] t3(2,3) t5(2,3) by (intro exI [of _ "xs @ ys"]) (auto simp: propose_deliveries_def)
    qed
  qed
qed

section \<open>A proposal that returns\<close>

definition host_good :: "host_env \<Rightarrow> bool" where
  "host_good e \<longleftrightarrow> (\<forall>k. he_alloc e k) \<and> wal_sound (he_wal e)"

lemma broadcast_returns:
  assumes "he_alloc e 1" "case m_value msg of None \<Rightarrow> True | Some v \<Rightarrow> unat (m_value_len msg) \<le> length v"
  shows "\<exists>effs eng'. paxos_broadcast_message e msg eng = Some (0, effs, eng')"
  using assms
  by (auto simp: paxos_broadcast_message_def paxos_serialize_message_def Let_def split: option.splits prod.splits)

lemma value_entry_decode: "value_entry (Some v) len = Some x \<longleftrightarrow> len \<noteq> 0 \<and> decode_value True v len = Some (Some x)"
  by (auto simp: value_entry_def split: option.splits if_splits)

lemma persist_returns:
  assumes "host_good e" "value_entry (Some v) len = Some x" "entry_ok x" "current_lsn m \<noteq> - 2"
  shows "\<exists>m'. persist_wal e sq (Some v) len m = Some (0, m')"
proof -
  have "current_lsn m + 1 \<noteq> - 1"
  proof
    assume "current_lsn m + 1 = - 1"
    then have "current_lsn m = - 1 - 1" by (simp only: eq_diff_eq)
    with assms(4) show False by simp
  qed
  with assms show ?thesis by (simp add: persist_wal_def value_entry_decode host_good_def wal_append_sound)
qed

lemma apply_returns:
  assumes "host_good e" "value_entry (Some v) len = Some x"
  shows "\<exists>m'. apply_state_machine e sq (Some v) len m = Some m'"
  using assms by (simp add: apply_state_machine_def value_entry_decode host_good_def)

lemma begin_returns:
  assumes "idle n" "0 < max_proposals n" "broadcast_callback n" "len \<noteq> 0" "\<not> malloc_fails e" "\<not> broadcast_fails e PAXOS_PHASE_PREPARE"
  shows "\<exists>n1 msg. paxos_propose_begin e n (Some v) len = (Some (0, fst (paxos_next_proposal_id n), next_sequence_number n), [E_broadcast msg], n1) \<and>
    m_value msg = None \<and> proposal_id (active_proposals n1 0) = fst (paxos_next_proposal_id n) \<and> promise_count (active_proposals n1 0) = 1 \<and>
    \<not> completed (active_proposals n1 0)"
proof -
  have "find_idx (max_proposals n) (\<lambda>i. \<not> in_use (active_proposals n i)) = Some 0"
    using assms(1,2) by (simp add: find_idx_Some_iff idle_def)
  with assms(3-6) show ?thesis by (simp add: paxos_propose_begin_def case_prod_beta Let_def)
qed

lemma accept_returns:
  assumes "persist_callback n" "\<not> persist_fails e sq" "\<not> broadcast_fails e PAXOS_PHASE_ACCEPT"
  shows "\<exists>n1 msg. paxos_propose_accept e n i pid sq (Some v) len 0 = (True, [E_persist sq (Some v) len, E_broadcast msg], n1) \<and>
    m_value msg = Some v \<and> m_value_len msg = len \<and> accept_count (active_proposals n1 i) = 1 \<and>
    proposal_id (active_proposals n1 i) = proposal_id (active_proposals n i) \<and> completed (active_proposals n1 i) = completed (active_proposals n i)"
  using assms by (simp add: paxos_propose_accept_def Let_def)

lemma proposing_for:
  assumes "proposing n i v len" "i < max_proposals n" "proposal_id (active_proposals n i) = m_proposal_id msg" "\<not> completed (active_proposals n i)"
  shows "proposal_for n msg = Some i"
  using assms by (intro proposal_for_slot) (auto simp: proposing_def open_slot_def)

end
