(* ===== verification/Frontend_Liveness.thy ===== *)
theory Frontend_Liveness
  imports Frontend_Consensus
begin

text \<open>
  Proposals return, and succeed when a quorum answers in time, whatever other messages the coordinator
  handles meanwhile. Messages must announce no more bytes than they carry and than an entry has
  (\<open>wire_safe\<close>), and each wait must see its timeout or its quorum. For success, PROMISE and ACCEPTED
  messages are counted across arbitrary lists of messages.
\<close>

section \<open>Values that fit\<close>

definition value_fits :: "byte list option \<Rightarrow> u64 \<Rightarrow> bool" where
  "value_fits v len \<longleftrightarrow> (case v of None \<Rightarrow> True | Some b \<Rightarrow> unat len \<le> length b \<and> unat len \<le> 5456)"

fun effect_fits :: "paxos_effect \<Rightarrow> bool" where
  "effect_fits (E_persist sq v len) = value_fits v len"
| "effect_fits (E_apply sq v len) = value_fits v len"
| "effect_fits (E_broadcast msg) = value_fits (m_value msg) (m_value_len msg)"

definition slots_fit :: "paxos_node \<Rightarrow> bool" where
  "slots_fit n \<longleftrightarrow> (\<forall>j. in_use (active_proposals n j) \<longrightarrow>
     value_fits (proposed_value (active_proposals n j)) (value_len (active_proposals n j)))"

lemma slots_fit_frame: "slot_frame n n' \<Longrightarrow> slots_fit n' = slots_fit n"
  by (simp add: slot_frame_def slots_fit_def)

lemma slots_fit_proposing: "proposing n i v len \<Longrightarrow> value_fits (Some v) len \<Longrightarrow> slots_fit n"
  by (auto simp: proposing_def slots_fit_def)

lemma decode_completes: "value_fits (Some v) len \<Longrightarrow> decode_value al v len \<noteq> None"
  by (auto simp: value_fits_def decode_value_def metadata_deserialize_def)

lemma serialize_fits: "value_fits (m_value msg) (m_value_len msg) \<Longrightarrow> paxos_serialize_message al ptr pad jk msg \<noteq> Inl Wire_out_of_bounds"
  by (auto simp: value_fits_def paxos_serialize_message_def Let_def split: option.splits)

lemma callback_completes: "effect_fits c \<Longrightarrow> run_callback e c fe \<noteq> None"
  by (cases c) (auto simp: persist_wal_def apply_state_machine_def paxos_broadcast_message_def case_prod_beta Let_def
      dest: decode_completes serialize_fits split: option.splits sum.splits wire_error.splits)

lemma callbacks_complete: "list_all effect_fits cbs \<Longrightarrow> run_callbacks e cbs fe \<noteq> None"
proof (induction cbs arbitrary: fe)
  case (Cons c cbs)
  then obtain ne fe1 where "run_callback e c fe = Some (ne, fe1)" using callback_completes [of c e fe] by auto
  with Cons.IH [of fe1] Cons.prems show ?case by auto
qed simp

lemma handle_fits:
  assumes "paxos_handle_message e n msg = (rc, resp, cbs, n')" "slots_fit n" "value_fits (m_value msg) (m_value_len msg)"
  shows "list_all effect_fits cbs \<and> (\<forall>r. resp = Some r \<longrightarrow> value_fits (m_value r) (m_value_len r))"
  using assms
  by (auto simp: paxos_handle_message_def handler_defs Let_def slots_fit_def zero_message_def value_fits_def [of None]
      dest: proposal_for_in_use split: if_splits option.splits)

section \<open>Messages\<close>

definition wire_safe :: "delivery \<Rightarrow> bool" where
  "wire_safe d = (case d of (e, s, ty, pl) \<Rightarrow>
     let bs = (case pl of None \<Rightarrow> [] | Some bs \<Rightarrow> bs); len = unat (u64_dec (slice 48 8 bs)) in
     ty = MSG_TYPE_PAXOS \<longrightarrow> length bs < 56 \<or> len \<le> length bs - 56 \<and> len \<le> 5456)"

lemma deserialize_fits:
  assumes "length bs < 56 \<or> unat (u64_dec (slice 48 8 bs)) \<le> length bs - 56 \<and> unat (u64_dec (slice 48 8 bs)) \<le> 5456"
  shows "paxos_deserialize_message al stale bs \<noteq> Inl Wire_out_of_bounds"
    "paxos_deserialize_message al stale bs = Inr msg \<Longrightarrow> value_fits (m_value msg) (m_value_len msg)"
  using assms by (auto simp: paxos_deserialize_message_def Let_def value_fits_def split: if_splits) (simp add: slice_def)

lemma handled_frame: "slot_frame n (snd (snd (snd (paxos_handle_message e n msg))))"
  by (metis handle_slot_frame prod.collapse)

lemma message_frame:
  assumes "handle_network_message e s ty pl fe = Some (ne, fe')"
  shows "slot_frame (fe_paxos fe) (fe_paxos fe')"
  using assms
  by (auto simp: handle_network_message_def bind_eq_Some_conv Let_def case_prod_beta handled_frame dest!: run_callbacks_frame
      split: if_splits sum.splits wire_error.splits option.splits)

lemma message_completes:
  assumes "slots_fit (fe_paxos fe)" "wire_safe (e, s, ty, pl)"
  shows "handle_network_message e s ty pl fe \<noteq> None"
proof (cases "ty = MSG_TYPE_PAXOS")
  case True
  let ?bs = "case pl of None \<Rightarrow> [] | Some bs \<Rightarrow> bs"
  let ?d = "paxos_deserialize_message (he_alloc e 5) (he_stale e) ?bs"
  have w: "length ?bs < 56 \<or> unat (u64_dec (slice 48 8 ?bs)) \<le> length ?bs - 56 \<and> unat (u64_dec (slice 48 8 ?bs)) \<le> 5456"
    using assms(2) True by (simp add: wire_safe_def Let_def)
  show ?thesis
  proof (cases ?d)
    case (Inl err)
    then have "err \<noteq> Wire_out_of_bounds" using deserialize_fits(1) [OF w] by metis
    with Inl True show ?thesis by (cases err) (simp_all add: handle_network_message_def)
  next
    case (Inr msg)
    obtain rc resp cbs n where h:
      "paxos_handle_message (paxos_answers e (m_value msg) (m_value_len msg) fe) (fe_paxos fe) msg = (rc, resp, cbs, n)"
      by (metis prod_cases4)
    note f = handle_fits [OF h assms(1) deserialize_fits(2) [OF w Inr]]
    obtain ne fe1 where "run_callbacks e cbs (fe\<lparr>fe_paxos := n\<rparr>) = Some (ne, fe1)"
      using callbacks_complete [of cbs e] f by fastforce
    with f show ?thesis
      by (auto simp: handle_network_message_def True Inr h case_prod_beta Let_def dest: serialize_fits split: option.splits sum.splits wire_error.splits)
  qed
qed (simp add: handle_network_message_def)

lemma deliveries_complete:
  assumes "slots_fit (fe_paxos fe)" "\<forall>d \<in> set ds. wire_safe d"
  shows "completes (\<lambda>(ne, fe'). slot_frame (fe_paxos fe) (fe_paxos fe')) (deliver_all ds fe)"
  using assms
proof (induction ds arbitrary: fe)
  case (Cons d ds)
  obtain e s ty pl where d: "d = (e, s, ty, pl)" by (metis prod_cases4)
  obtain ne fe1 where m: "handle_network_message e s ty pl fe = Some (ne, fe1)"
    using message_completes [OF Cons.prems(1), of e s ty pl] Cons.prems(2) by (auto simp: d)
  note f = message_frame [OF m]
  with Cons.IH [of fe1] Cons.prems slots_fit_frame [OF f]
  have "completes (\<lambda>(ne, fe'). slot_frame (fe_paxos fe1) (fe_paxos fe')) (deliver_all ds fe1)" by simp
  then show ?case using slot_frame_trans [OF f] by (auto simp: d m completes_def)
qed simp

section \<open>Waits and proposals\<close>

definition times_out :: "(wait_status \<times> delivery list) list \<Rightarrow> bool" where
  "times_out evs \<longleftrightarrow> (\<exists>ev \<in> set evs. fst ev \<noteq> Woken)"

lemma wait_completes:
  assumes "slots_fit (fe_paxos fe)" "times_out evs" "\<forall>d \<in> set (wait_deliveries evs). wire_safe d"
  shows "completes (\<lambda>(rc, ne, fe'). slot_frame (fe_paxos fe) (fe_paxos fe')) (wait_while c i evs fe)"
  using assms
proof (induction evs arbitrary: fe)
  case (Cons ev evs)
  obtain st ds where ev: "ev = (st, ds)" by fastforce
  let ?w = "paxos_wait_for_condition (fe_paxos fe) c (active_proposals (fe_paxos fe) i)"
  show ?case
  proof (cases "?w []")
    case (Some rc)
    then show ?thesis by (simp add: wait_while.simps [of c i "ev # evs"])
  next
    case None
    have safe: "\<forall>d \<in> set ds. wire_safe d" "\<forall>d \<in> set (wait_deliveries evs). wire_safe d"
      using Cons.prems(3) by (auto simp: wait_deliveries_def ev)
    obtain ne fe1 where d: "deliver_all ds fe = Some (ne, fe1)" "slot_frame (fe_paxos fe) (fe_paxos fe1)"
      using deliveries_complete [OF Cons.prems(1) safe(1)] by (auto simp: completes_def)
    show ?thesis
    proof (cases "st = Woken")
      case True
      then have "times_out evs" using Cons.prems(2) by (simp add: times_out_def ev)
      with Cons.IH [of fe1] Cons.prems(1) safe(2) d(2) slots_fit_frame [OF d(2)]
      have "completes (\<lambda>(rc, ne, fe'). slot_frame (fe_paxos fe1) (fe_paxos fe')) (wait_while c i evs fe1)" by simp
      then show ?thesis using None d True slot_frame_trans [OF d(2)]
        by (auto simp: wait_while.simps [of c i "z # evs" for z] ev completes_def)
    next
      case False
      then obtain rc where "?w [(st, active_proposals (fe_paxos fe1) i)] = Some rc" by (cases st) (simp_all add: wait_event [OF None])
      with None d False show ?thesis by (simp add: wait_while.simps [of c i "z # evs" for z] ev)
    qed
  qed
qed (simp add: times_out_def)

definition proposal_ends :: "propose_env \<Rightarrow> bool" where
  "proposal_ends pe \<longleftrightarrow> times_out (pe_wait1 pe) \<and> times_out (pe_wait2 pe) \<and> (\<forall>d \<in> set (propose_deliveries pe). wire_safe d)"

lemma begin_fits:
  "paxos_propose_begin e n (Some v) len = (slot, cbs, n1) \<Longrightarrow> list_all effect_fits cbs"
  by (auto simp: paxos_propose_begin_def Let_def case_prod_beta zero_message_def value_fits_def split: if_splits option.splits)

lemma accept_fits:
  "paxos_propose_accept e n i pid sq (Some v) len rc = (ok, cbs, n1) \<Longrightarrow> value_fits (Some v) len \<Longrightarrow> list_all effect_fits cbs"
  by (auto simp: paxos_propose_accept_def Let_def split: if_splits)

lemma propose_completes:
  assumes "idle (fe_paxos fe)" "value_fits (Some v) len" "proposal_ends pe"
  shows "paxos_propose pe (Some v) len fe \<noteq> None"
proof -
  have ok: "times_out (pe_wait1 pe)" "times_out (pe_wait2 pe)" "\<forall>d \<in> set (wait_deliveries (pe_wait1 pe)). wire_safe d"
    "\<forall>d \<in> set (pe_gap pe). wire_safe d" "\<forall>d \<in> set (wait_deliveries (pe_wait2 pe)). wire_safe d"
    using assms(3) by (auto simp: proposal_ends_def propose_deliveries_def)
  obtain slot cbs1 n1 where b: "paxos_propose_begin (paxos_answers (pe_begin pe) (Some v) len fe) (fe_paxos fe) (Some v) len = (slot, cbs1, n1)"
    by (metis prod_cases3)
  obtain ne1 fe1 where r1: "run_callbacks (pe_begin pe) cbs1 (fe\<lparr>fe_paxos := n1\<rparr>) = Some (ne1, fe1)"
    using callbacks_complete [OF begin_fits [OF b]] by fastforce
  show ?thesis
  proof (cases slot)
    case None
    then show ?thesis by (simp add: paxos_propose_def b r1)
  next
    case (Some sl)
    then obtain i pid sq where sl: "slot = Some (i, pid, sq)" by (metis prod_cases3)
    have p1: "proposing (fe_paxos fe1) i v len" using begin_slots [OF b assms(1)] sl run_callbacks_frame [OF r1] by simp
    obtain rc1 ne2 fe2 where w1: "wait_while False i (pe_wait1 pe) fe1 = Some (rc1, ne2, fe2)" "slot_frame (fe_paxos fe1) (fe_paxos fe2)"
      using wait_completes [OF slots_fit_proposing [OF p1 assms(2)] ok(1,3), of False i] by (auto simp: completes_def)
    note p2 = slot_frame_proposing [OF w1(2) p1]
    obtain ne3 fe3 where g: "(if rc1 = 0 then deliver_all (pe_gap pe) fe2 else Some ([], fe2)) = Some (ne3, fe3)"
      "slot_frame (fe_paxos fe2) (fe_paxos fe3)"
      using deliveries_complete [OF slots_fit_proposing [OF p2 assms(2)] ok(4)] by (cases "rc1 = 0") (auto simp: completes_def)
    note p3 = slot_frame_proposing [OF g(2) p2]
    obtain a cbs2 n2 where a: "paxos_propose_accept (paxos_answers (pe_accept pe) (Some v) len fe3) (fe_paxos fe3) i pid sq (Some v) len rc1 = (a, cbs2, n2)"
      by (metis prod_cases3)
    obtain ne4 fe4 where r2: "run_callbacks (pe_accept pe) cbs2 (fe3\<lparr>fe_paxos := n2\<rparr>) = Some (ne4, fe4)"
      using callbacks_complete [OF accept_fits [OF a assms(2)]] by fastforce
    show ?thesis
    proof (cases a)
      case True
      have p4: "proposing (fe_paxos fe4) i v len" using accept_slots [OF a p3] True run_callbacks_frame [OF r2] by simp
      obtain rc2 ne5 fe5 where "wait_while True i (pe_wait2 pe) fe4 = Some (rc2, ne5, fe5)"
        using wait_completes [OF slots_fit_proposing [OF p4 assms(2)] ok(2,5), of True i] by (auto simp: completes_def)
      with True show ?thesis by (simp add: paxos_propose_def b r1 sl w1(1) g(1) a r2 case_prod_beta)
    qed (simp add: paxos_propose_def b r1 sl w1(1) g(1) a r2)
  qed
qed

section \<open>Answers\<close>

definition is_answer :: "u32 \<Rightarrow> u64 \<Rightarrow> delivery \<Rightarrow> bool" where
  "is_answer phase pid d = (case d of (e, s, ty, pl) \<Rightarrow> ty = MSG_TYPE_PAXOS \<and>
     (case paxos_deserialize_message (he_alloc e 5) (he_stale e) (case pl of None \<Rightarrow> [] | Some bs \<Rightarrow> bs) of
        Inl _ \<Rightarrow> False | Inr msg \<Rightarrow> m_phase msg = phase \<and> m_proposal_id msg = pid))"

definition count_answers :: "u32 \<Rightarrow> u64 \<Rightarrow> delivery list \<Rightarrow> nat" where
  "count_answers phase pid ds = length (filter (is_answer phase pid) ds)"

lemma count_answers_simps [simp]:
  "count_answers ph pid [] = 0" "count_answers ph pid (d # ds) = (if is_answer ph pid d then Suc (count_answers ph pid ds) else count_answers ph pid ds)"
  "count_answers ph pid (ds @ ds') = count_answers ph pid ds + count_answers ph pid ds'"
  by (simp_all add: count_answers_def)

lemma count_answers_le: "count_answers ph pid ds \<le> length ds"
  by (simp add: count_answers_def)

text \<open>What handling a message does to the node: nothing, or what the handler of its phase does.\<close>

lemma message_node:
  assumes "handle_network_message e s ty pl fe = Some (ne, fe')"
  shows "fe_paxos fe' = fe_paxos fe \<and> (\<forall>ph pid. \<not> is_answer ph pid (e, s, ty, pl)) \<or>
    (\<exists>msg env rc resp cbs. paxos_handle_message env (fe_paxos fe) msg = (rc, resp, cbs, fe_paxos fe') \<and>
      (\<forall>ph pid. is_answer ph pid (e, s, ty, pl) \<longleftrightarrow> m_phase msg = ph \<and> m_proposal_id msg = pid))"
proof (cases "ty = MSG_TYPE_PAXOS")
  case False
  with assms show ?thesis by (simp add: handle_network_message_def is_answer_def)
next
  case True
  show ?thesis
  proof (cases "paxos_deserialize_message (he_alloc e 5) (he_stale e) (case pl of None \<Rightarrow> [] | Some bs \<Rightarrow> bs)")
    case (Inl err)
    with assms True show ?thesis by (cases err) (auto simp: handle_network_message_def is_answer_def)
  next
    case (Inr msg)
    obtain rc resp cbs n where h:
      "paxos_handle_message (paxos_answers e (m_value msg) (m_value_len msg) fe) (fe_paxos fe) msg = (rc, resp, cbs, n)"
      by (metis prod_cases4)
    have "fe_paxos fe' = n" by (rule message_run [OF assms [unfolded True] Inr h])
    moreover have "\<forall>ph pid. is_answer ph pid (e, s, ty, pl) \<longleftrightarrow> m_phase msg = ph \<and> m_proposal_id msg = pid"
      by (simp add: is_answer_def True Inr)
    ultimately show ?thesis using h by blast
  qed
qed

abbreviation slot_of :: "frontend \<Rightarrow> nat \<Rightarrow> paxos_proposal" where
  "slot_of fe i \<equiv> active_proposals (fe_paxos fe) i"

text \<open>A proposal of its own that the coordinator still counts answers for.\<close>

definition counting :: "frontend \<Rightarrow> nat \<Rightarrow> byte list \<Rightarrow> u64 \<Rightarrow> u64 \<Rightarrow> bool" where
  "counting fe i v len pid \<longleftrightarrow> proposing (fe_paxos fe) i v len \<and> i < max_proposals (fe_paxos fe) \<and> proposal_id (slot_of fe i) = pid"

lemma counting_frame: "counting fe i v len pid \<Longrightarrow> slot_frame (fe_paxos fe) (fe_paxos fe') \<Longrightarrow> counting fe' i v len pid"
  by (auto simp: counting_def slot_frame_proposing) (simp_all add: slot_frame_def)

lemma counting_slot:
  "counting fe i v len pid \<Longrightarrow> \<not> completed (slot_of fe i) \<Longrightarrow> proposal_for (fe_paxos fe) msg = (if m_proposal_id msg = pid then Some i else None)"
proof (cases "m_proposal_id msg = pid")
  case True
  then show "counting fe i v len pid \<Longrightarrow> \<not> completed (slot_of fe i) \<Longrightarrow> ?thesis" by (auto simp: counting_def intro: proposing_for)
next
  case False
  assume c: "counting fe i v len pid"
  have "proposal_for (fe_paxos fe) msg = None"
  proof (rule ccontr)
    assume "proposal_for (fe_paxos fe) msg \<noteq> None"
    then obtain j where j: "proposal_for (fe_paxos fe) msg = Some j" by blast
    then have "j = i" using proposal_for_in_use [OF j] c by (auto simp: counting_def proposing_def)
    with j c False show False by (auto simp: proposal_for_def find_idx_Some_iff counting_def)
  qed
  with False show ?thesis by simp
qed

lemma handle_counts:
  assumes "paxos_handle_message env n msg = (rc, resp, cbs, n')" "proposal_for n msg = (if m_proposal_id msg = pid then Some i else None)"
    "\<not> completed (active_proposals n i)"
  shows "promise_count (active_proposals n' i) = promise_count (active_proposals n i) + (if m_phase msg = PAXOS_PHASE_PROMISE \<and> m_proposal_id msg = pid then 1 else 0)"
    "if m_phase msg = PAXOS_PHASE_ACCEPTED \<and> m_proposal_id msg = pid
     then if quorum_size n \<le> accept_count (active_proposals n i) + 1 then committed (active_proposals n' i)
       else \<not> completed (active_proposals n' i) \<and> accept_count (active_proposals n' i) = accept_count (active_proposals n i) + 1 \<and>
         committed (active_proposals n' i) = committed (active_proposals n i)
     else \<not> completed (active_proposals n' i) \<and> accept_count (active_proposals n' i) = accept_count (active_proposals n i) \<and>
       committed (active_proposals n' i) = committed (active_proposals n i)"
  using assms
  by (auto simp: paxos_handle_message_def handler_defs paxos_check_quorum_def Let_def split: if_splits)

lemma handle_committed:
  "paxos_handle_message env n msg = (rc, resp, cbs, n') \<Longrightarrow> committed (active_proposals n i) \<Longrightarrow> committed (active_proposals n' i)"
  by (auto simp: paxos_handle_message_def handler_defs Let_def split: if_splits option.splits)

lemma message_counts:
  assumes "handle_network_message e s ty pl fe = Some (ne, fe')" "counting fe i v len pid" "\<not> completed (slot_of fe i)"
  shows "promise_count (slot_of fe' i) = promise_count (slot_of fe i) + (if is_answer PAXOS_PHASE_PROMISE pid (e, s, ty, pl) then 1 else 0)"
    "if is_answer PAXOS_PHASE_ACCEPTED pid (e, s, ty, pl)
     then if quorum_size (fe_paxos fe) \<le> accept_count (slot_of fe i) + 1 then committed (slot_of fe' i)
       else \<not> completed (slot_of fe' i) \<and> accept_count (slot_of fe' i) = accept_count (slot_of fe i) + 1 \<and> committed (slot_of fe' i) = committed (slot_of fe i)
     else \<not> completed (slot_of fe' i) \<and> accept_count (slot_of fe' i) = accept_count (slot_of fe i) \<and> committed (slot_of fe' i) = committed (slot_of fe i)"
proof -
  consider (ignored) "fe_paxos fe' = fe_paxos fe" "\<And>ph pid. \<not> is_answer ph pid (e, s, ty, pl)"
    | (handled) msg env rc resp cbs where "paxos_handle_message env (fe_paxos fe) msg = (rc, resp, cbs, fe_paxos fe')"
        "\<And>ph pid. is_answer ph pid (e, s, ty, pl) \<longleftrightarrow> m_phase msg = ph \<and> m_proposal_id msg = pid"
    using message_node [OF assms(1)] by blast
  note c = this
  from c show "promise_count (slot_of fe' i) = promise_count (slot_of fe i) + (if is_answer PAXOS_PHASE_PROMISE pid (e, s, ty, pl) then 1 else 0)"
  proof cases
    case handled
    from handle_counts(1) [OF handled(1) counting_slot [OF assms(2,3)] assms(3)] show ?thesis by (simp only: handled(2))
  qed simp
  from c show "if is_answer PAXOS_PHASE_ACCEPTED pid (e, s, ty, pl)
     then if quorum_size (fe_paxos fe) \<le> accept_count (slot_of fe i) + 1 then committed (slot_of fe' i)
       else \<not> completed (slot_of fe' i) \<and> accept_count (slot_of fe' i) = accept_count (slot_of fe i) + 1 \<and> committed (slot_of fe' i) = committed (slot_of fe i)
     else \<not> completed (slot_of fe' i) \<and> accept_count (slot_of fe' i) = accept_count (slot_of fe i) \<and> committed (slot_of fe' i) = committed (slot_of fe i)"
  proof cases
    case handled
    from handle_counts(2) [OF handled(1) counting_slot [OF assms(2,3)] assms(3)] show ?thesis by (simp only: handled(2))
  qed (simp add: assms(3))
qed

lemma message_committed:
  assumes "handle_network_message e s ty pl fe = Some (ne, fe')" "committed (slot_of fe i)"
  shows "committed (slot_of fe' i)"
  using message_node [OF assms(1)]
proof
  assume "\<exists>msg env rc resp cbs. paxos_handle_message env (fe_paxos fe) msg = (rc, resp, cbs, fe_paxos fe') \<and>
      (\<forall>ph pid. is_answer ph pid (e, s, ty, pl) \<longleftrightarrow> m_phase msg = ph \<and> m_proposal_id msg = pid)"
  with handle_committed assms(2) show ?thesis by blast
qed (use assms(2) in simp)

section \<open>The sequence number of the log\<close>

definition lsn_within :: "nat \<Rightarrow> metadata_manager \<Rightarrow> metadata_manager \<Rightarrow> bool" where
  "lsn_within k m m' \<longleftrightarrow> (\<exists>j \<le> k. current_lsn m' = current_lsn m + of_nat j)"

lemma lsn_within_refl: "lsn_within k m m"
  unfolding lsn_within_def by (rule exI [of _ 0]) simp

lemma lsn_within_trans: "lsn_within k m m1 \<Longrightarrow> lsn_within l m1 m2 \<Longrightarrow> k + l \<le> n \<Longrightarrow> lsn_within n m m2"
proof -
  assume "lsn_within k m m1" "lsn_within l m1 m2" and le: "k + l \<le> n"
  then obtain i j where "i \<le> k" "current_lsn m1 = current_lsn m + of_nat i" "j \<le> l" "current_lsn m2 = current_lsn m1 + of_nat j"
    unfolding lsn_within_def by blast
  with le show ?thesis unfolding lsn_within_def by (intro exI [of _ "i + j"]) simp
qed

fun is_persist :: "paxos_effect \<Rightarrow> bool" where
  "is_persist (E_persist sq v len) = True"
| "is_persist _ = False"

lemma apply_lsn: "apply_state_machine e sq v len m = Some m' \<Longrightarrow> current_lsn m' = current_lsn m"
  by (auto simp: apply_state_machine_def metadata_apply_entry_def insert_node_def upd_entry_def Let_def split: option.splits if_splits)

lemma persist_lsn: "persist_wal e sq v len m = Some (rc, m') \<Longrightarrow> lsn_within 1 m m'"
proof -
  assume p: "persist_wal e sq v len m = Some (rc, m')"
  have "current_lsn (snd (wal_append we ptr op x m)) \<in> {current_lsn m, current_lsn m + 1}" for we ptr op x
    by (auto simp: wal_append_def metadata_serialize_def Let_def)
  with p have "current_lsn m' = current_lsn m \<or> current_lsn m' = current_lsn m + 1"
    by (auto simp: persist_wal_def case_prod_beta Let_def split: option.splits if_splits)
  then show ?thesis
  proof
    assume "current_lsn m' = current_lsn m"
    then show ?thesis unfolding lsn_within_def by (intro exI [of _ 0]) simp
  next
    assume "current_lsn m' = current_lsn m + 1"
    then show ?thesis unfolding lsn_within_def by (intro exI [of _ 1]) simp
  qed
qed

lemma callbacks_lsn: "run_callbacks e cbs fe = Some (ne, fe') \<Longrightarrow> lsn_within (length (filter is_persist cbs)) (fe_meta fe) (fe_meta fe')"
proof (induction cbs arbitrary: fe ne)
  case (Cons c cbs)
  obtain ne1 fe1 ne2 where r: "run_callback e c fe = Some (ne1, fe1)" "run_callbacks e cbs fe1 = Some (ne2, fe')"
    using Cons.prems by (auto simp: bind_eq_Some_conv)
  have "lsn_within (length (filter is_persist [c])) (fe_meta fe) (fe_meta fe1)"
    using r(1) by (cases c) (auto simp: lsn_within_refl lsn_within_def [of 0] dest!: persist_lsn apply_lsn)
  from lsn_within_trans [OF this Cons.IH [OF r(2)]] show ?case by simp
qed (simp add: lsn_within_refl)

lemma handle_persists: "paxos_handle_message env n msg = (rc, resp, cbs, n') \<Longrightarrow> length (filter is_persist cbs) \<le> 1"
  by (auto simp: paxos_handle_message_def handler_defs Let_def split: if_splits option.splits)

lemma message_lsn:
  assumes "handle_network_message e s ty pl fe = Some (ne, fe')"
  shows "lsn_within 1 (fe_meta fe) (fe_meta fe')"
proof (cases "fe' = fe")
  case True
  then show ?thesis by (simp add: lsn_within_refl)
next
  case False
  then obtain msg where msg: "paxos_deserialize_message (he_alloc e 5) (he_stale e) (case pl of None \<Rightarrow> [] | Some bs \<Rightarrow> bs) = Inr msg" "ty = MSG_TYPE_PAXOS"
    using assms by (auto simp: handle_network_message_def split: if_splits sum.splits wire_error.splits)
  obtain rc resp cbs n where h:
    "paxos_handle_message (paxos_answers e (m_value msg) (m_value_len msg) fe) (fe_paxos fe) msg = (rc, resp, cbs, n)"
    by (metis prod_cases4)
  obtain ne1 fe1 where r: "run_callbacks e cbs (fe\<lparr>fe_paxos := n\<rparr>) = Some (ne1, fe1)" "fe_meta fe' = fe_meta fe1"
    using message_run [OF assms [unfolded msg(2)] msg(1) h] by blast
  from lsn_within_trans [OF callbacks_lsn [OF r(1)] lsn_within_refl [of 0]] handle_persists [OF h] r(2) show ?thesis by simp
qed

section \<open>Lists of messages\<close>

lemma unat_inc: "(c :: u32) < q \<Longrightarrow> unat (c + 1) = unat c + 1"
proof -
  assume "c < q"
  then have "unat c < unat q" by (simp add: word_less_nat_alt)
  moreover have "unat q < 2 ^ 32" using unsigned_less [of q] by simp
  ultimately have "unat c + unat (1 :: u32) < 2 ^ 32" by simp
  then show ?thesis using unat_add_lem [of c 1] by simp
qed

lemma deliveries_count:
  assumes "deliver_all ds fe = Some (ne, fe')" "counting fe i v len pid" "\<not> completed (slot_of fe i)" "\<not> committed (slot_of fe i)"
    "count_answers PAXOS_PHASE_ACCEPTED pid ds = 0"
  shows "promise_count (slot_of fe' i) = promise_count (slot_of fe i) + of_nat (count_answers PAXOS_PHASE_PROMISE pid ds) \<and>
    \<not> completed (slot_of fe' i) \<and> \<not> committed (slot_of fe' i) \<and> counting fe' i v len pid \<and> quorum_size (fe_paxos fe') = quorum_size (fe_paxos fe) \<and>
    lsn_within (length ds) (fe_meta fe) (fe_meta fe')"
  using assms
proof (induction ds arbitrary: fe ne)
  case Nil
  then show ?case by (simp add: lsn_within_refl)
next
  case (Cons d ds)
  obtain e s ty pl where d: "d = (e, s, ty, pl)" by (metis prod_cases4)
  obtain ne1 fe1 ne2 where r: "handle_network_message e s ty pl fe = Some (ne1, fe1)" "deliver_all ds fe1 = Some (ne2, fe')"
    using Cons.prems(1) by (auto simp: d bind_eq_Some_conv)
  note m = message_counts [OF r(1) Cons.prems(2,3)] and f = message_frame [OF r(1)]
  have a: "\<not> is_answer PAXOS_PHASE_ACCEPTED pid (e, s, ty, pl)" "count_answers PAXOS_PHASE_ACCEPTED pid ds = 0"
    using Cons.prems(5) by (auto simp: d split: if_splits)
  have q: "quorum_size (fe_paxos fe1) = quorum_size (fe_paxos fe)" using f by (simp add: slot_frame_def)
  have "\<not> completed (slot_of fe1 i)" "\<not> committed (slot_of fe1 i)" using m(2) a(1) Cons.prems(4) by auto
  note IH = Cons.IH [OF r(2) counting_frame [OF Cons.prems(2) f] this a(2)]
  have "lsn_within (length (d # ds)) (fe_meta fe) (fe_meta fe')" 
    by (rule lsn_within_trans [OF message_lsn [OF r(1)], of "length ds"]) (use IH in simp_all)
  with IH m(1) q show ?case by (simp add: d)
qed

lemma word_count: "unat (c :: u32) + n < 2 ^ 32 \<Longrightarrow> unat (c + of_nat n) = unat c + n"
  by (subst unat_add_lem [THEN iffD1]) (simp_all add: unat_of_nat)

text \<open>The proposal is committed, or its count has grown by the ACCEPTED messages and is no quorum yet.\<close>

definition accepting :: "frontend \<Rightarrow> nat \<Rightarrow> nat \<Rightarrow> bool" where
  "accepting fe i c \<longleftrightarrow> committed (slot_of fe i) \<or>
     \<not> completed (slot_of fe i) \<and> unat (accept_count (slot_of fe i)) = c \<and> c < unat (quorum_size (fe_paxos fe))"

lemma deliveries_accept:
  assumes "deliver_all ds fe = Some (ne, fe')" "counting fe i v len pid" "accepting fe i c"
  shows "accepting fe' i (c + count_answers PAXOS_PHASE_ACCEPTED pid ds) \<and> counting fe' i v len pid \<and>
    quorum_size (fe_paxos fe') = quorum_size (fe_paxos fe)"
  using assms
proof (induction ds arbitrary: fe ne c)
  case (Cons d ds)
  obtain e s ty pl where d: "d = (e, s, ty, pl)" by (metis prod_cases4)
  obtain ne1 fe1 ne2 where r: "handle_network_message e s ty pl fe = Some (ne1, fe1)" "deliver_all ds fe1 = Some (ne2, fe')"
    using Cons.prems(1) by (auto simp: d bind_eq_Some_conv)
  note f = message_frame [OF r(1)]
  let ?k = "if is_answer PAXOS_PHASE_ACCEPTED pid d then 1 else 0"
  have q: "quorum_size (fe_paxos fe1) = quorum_size (fe_paxos fe)" using f by (simp add: slot_frame_def)
  have "accepting fe1 i (c + ?k)"
  proof (cases "committed (slot_of fe i)")
    case True
    then show ?thesis using message_committed [OF r(1)] by (simp add: accepting_def)
  next
    case False
    then have c: "\<not> completed (slot_of fe i)" "unat (accept_count (slot_of fe i)) = c" "c < unat (quorum_size (fe_paxos fe))"
      using Cons.prems(3) by (simp_all add: accepting_def)
    have "unat (accept_count (slot_of fe i) + 1) = c + 1" using unat_inc [of "accept_count (slot_of fe i)"] c(2,3) by (simp add: word_less_nat_alt)
    with message_counts(2) [OF r(1) Cons.prems(2) c(1)] c q show ?thesis
      by (auto simp: accepting_def d word_le_nat_alt split: if_splits)
  qed
  from Cons.IH [OF r(2) counting_frame [OF Cons.prems(2) f] this] q show ?case by (auto simp: add.assoc split: if_splits)
qed simp

section \<open>The two waits\<close>

text \<open>The wait is woken, and at most the last time by its timeout.\<close>

definition in_time :: "(wait_status \<times> delivery list) list \<Rightarrow> bool" where
  "in_time evs \<longleftrightarrow> (\<forall>ev \<in> set (butlast evs). fst ev = Woken) \<and> (\<forall>ev \<in> set evs. fst ev \<noteq> Wait_error)"

lemma in_time_Cons: "in_time (ev # evs) \<Longrightarrow> in_time evs" "in_time (ev # evs) \<Longrightarrow> fst ev = Woken \<or> evs = [] \<and> fst ev = ETIMEDOUT"
  by (cases "fst ev"; auto simp: in_time_def split: if_splits)+

lemma wait_deliveries_simps [simp]: "wait_deliveries [] = []" "wait_deliveries ((st, ds) # evs) = ds @ wait_deliveries evs"
  by (simp_all add: wait_deliveries_def)

lemma wait_promises:
  assumes "counting fe i v len pid" "\<not> completed (slot_of fe i)" "\<not> committed (slot_of fe i)" "value_fits (Some v) len" "in_time evs"
    "\<forall>d \<in> set (wait_deliveries evs). wire_safe d" "count_answers PAXOS_PHASE_ACCEPTED pid (wait_deliveries evs) = 0"
    "unat (quorum_size (fe_paxos fe)) \<le> unat (promise_count (slot_of fe i)) + count_answers PAXOS_PHASE_PROMISE pid (wait_deliveries evs)"
    "unat (promise_count (slot_of fe i)) + length (wait_deliveries evs) < 2 ^ 32"
  shows "\<exists>ne fe'. wait_while False i evs fe = Some (0, ne, fe') \<and> counting fe' i v len pid \<and> \<not> completed (slot_of fe' i) \<and> \<not> committed (slot_of fe' i) \<and>
    quorum_size (fe_paxos fe') = quorum_size (fe_paxos fe) \<and> config (fe_paxos fe') = config (fe_paxos fe) \<and>
    lsn_within (length (wait_deliveries evs)) (fe_meta fe) (fe_meta fe')"
  using assms
proof (induction evs arbitrary: fe)
  case Nil
  have "in_use (slot_of fe i)" using Nil.prems(1) by (simp add: counting_def proposing_def)
  then show ?case using Nil.prems by (simp add: wait_while.simps wait_now wait_satisfied_def paxos_check_quorum_def word_le_nat_alt lsn_within_refl)
next
  case (Cons ev evs)
  obtain st ds where ev: "ev = (st, ds)" by fastforce
  have use: "in_use (slot_of fe i)" and p: "proposing (fe_paxos fe) i v len" using Cons.prems(1) by (simp_all add: counting_def proposing_def)
  show ?case
  proof (cases "quorum_size (fe_paxos fe) \<le> promise_count (slot_of fe i)")
    case True
    with use Cons.prems(1-3) show ?thesis
      by (simp add: wait_while.simps [of False i "ev # evs"] wait_now wait_satisfied_def paxos_check_quorum_def lsn_within_refl)
  next
    case False
    then have None: "paxos_wait_for_condition (fe_paxos fe) False (slot_of fe i) [] = None"
      using use by (simp add: wait_now wait_satisfied_def paxos_check_quorum_def)
    have safe: "\<forall>d \<in> set ds. wire_safe d" "\<forall>d \<in> set (wait_deliveries evs). wire_safe d" using Cons.prems(6) by (auto simp: ev)
    have acc: "count_answers PAXOS_PHASE_ACCEPTED pid ds = 0" "count_answers PAXOS_PHASE_ACCEPTED pid (wait_deliveries evs) = 0"
      using Cons.prems(7) by (simp_all add: ev)
    obtain ne1 fe1 where d: "deliver_all ds fe = Some (ne1, fe1)" and fr: "slot_frame (fe_paxos fe) (fe_paxos fe1)"
      using deliveries_complete [OF slots_fit_proposing [OF p Cons.prems(4)] safe(1)] by (auto simp: completes_def)
    note c = deliveries_count [OF d Cons.prems(1-3) acc(1)] and cf = slot_frame_config [OF fr]
    have "count_answers PAXOS_PHASE_PROMISE pid ds \<le> length ds" by (rule count_answers_le)
    with Cons.prems(9) have pc: "unat (promise_count (slot_of fe1 i)) = unat (promise_count (slot_of fe i)) + count_answers PAXOS_PHASE_PROMISE pid ds"
      using c word_count [of "promise_count (slot_of fe i)"] by (simp add: ev)
    from in_time_Cons(2) [OF Cons.prems(5)] consider "st = Woken" | "evs = []" "st = ETIMEDOUT" by (auto simp: ev)
    then show ?thesis
    proof cases
      case 1
      have "count_answers PAXOS_PHASE_PROMISE pid ds \<le> length ds" by (rule count_answers_le)
      then obtain ne2 fe2 where w: "wait_while False i evs fe1 = Some (0, ne2, fe2)" "counting fe2 i v len pid" "\<not> completed (slot_of fe2 i)" "\<not> committed (slot_of fe2 i)"
        "quorum_size (fe_paxos fe2) = quorum_size (fe_paxos fe1)" "config (fe_paxos fe2) = config (fe_paxos fe1)"
        "lsn_within (length (wait_deliveries evs)) (fe_meta fe1) (fe_meta fe2)"
        using Cons.IH [of fe1] c in_time_Cons(1) [OF Cons.prems(5)] Cons.prems(4,8,9) safe(2) acc(2) pc by (auto simp: ev)
      moreover have "lsn_within (length (wait_deliveries (ev # evs))) (fe_meta fe) (fe_meta fe2)"
        by (rule lsn_within_trans [where k = "length ds", OF _ w(7)]) (use c in \<open>simp_all add: ev\<close>)
      ultimately show ?thesis using None d 1 c cf by (simp add: ev wait_while.simps [of False i "z # evs" for z])
    next
      case 2
      then have "wait_satisfied (fe_paxos fe) False (slot_of fe1 i)"
        using Cons.prems(8) pc by (simp add: ev wait_satisfied_def paxos_check_quorum_def word_le_nat_alt)
      with None d 2 c cf show ?thesis by (simp add: ev wait_while.simps [of False i "z # y" for z y] wait_event [OF None])
    qed
  qed
qed

lemma wait_accepted:
  assumes "counting fe i v len pid" "accepting fe i c" "value_fits (Some v) len" "in_time evs"
    "\<forall>d \<in> set (wait_deliveries evs). wire_safe d"
    "unat (quorum_size (fe_paxos fe)) \<le> c + count_answers PAXOS_PHASE_ACCEPTED pid (wait_deliveries evs)"
  shows "\<exists>ne fe'. wait_while True i evs fe = Some (0, ne, fe') \<and> committed (slot_of fe' i)"
  using assms
proof (induction evs arbitrary: fe c)
  case Nil
  have "in_use (slot_of fe i)" using Nil.prems(1) by (simp add: counting_def proposing_def)
  moreover have "committed (slot_of fe i)" using Nil.prems(2,6) by (auto simp: accepting_def)
  ultimately show ?case by (simp add: wait_while.simps wait_now wait_satisfied_def)
next
  case (Cons ev evs)
  obtain st ds where ev: "ev = (st, ds)" by fastforce
  have use: "in_use (slot_of fe i)" and p: "proposing (fe_paxos fe) i v len" using Cons.prems(1) by (simp_all add: counting_def proposing_def)
  show ?case
  proof (cases "committed (slot_of fe i)")
    case True
    with use show ?thesis by (simp add: wait_while.simps [of True i "ev # evs"] wait_now wait_satisfied_def)
  next
    case False
    then have None: "paxos_wait_for_condition (fe_paxos fe) True (slot_of fe i) [] = None"
      using use by (simp add: wait_now wait_satisfied_def)
    have safe: "\<forall>d \<in> set ds. wire_safe d" "\<forall>d \<in> set (wait_deliveries evs). wire_safe d" using Cons.prems(5) by (auto simp: ev)
    obtain ne1 fe1 where d: "deliver_all ds fe = Some (ne1, fe1)"
      using deliveries_complete [OF slots_fit_proposing [OF p Cons.prems(3)] safe(1)] by (auto simp: completes_def)
    let ?c = "c + count_answers PAXOS_PHASE_ACCEPTED pid ds"
    have a: "accepting fe1 i ?c" "counting fe1 i v len pid" "quorum_size (fe_paxos fe1) = quorum_size (fe_paxos fe)"
      using deliveries_accept [OF d Cons.prems(1,2)] by simp_all
    from in_time_Cons(2) [OF Cons.prems(4)] consider "st = Woken" | "evs = []" "st = ETIMEDOUT" by (auto simp: ev)
    then show ?thesis
    proof cases
      case 1
      then obtain ne2 fe2 where "wait_while True i evs fe1 = Some (0, ne2, fe2)" "committed (slot_of fe2 i)"
        using Cons.IH [OF a(2,1) Cons.prems(3) in_time_Cons(1) [OF Cons.prems(4)] safe(2)] Cons.prems(6) a(3) by (auto simp: ev)
      with None d 1 show ?thesis by (simp add: ev wait_while.simps [of True i "z # evs" for z])
    next
      case 2
      then have "committed (slot_of fe1 i)" using a(1,3) Cons.prems(6) by (auto simp: ev accepting_def)
      with None d 2 show ?thesis by (simp add: ev wait_while.simps [of True i "z # y" for z y] wait_event [OF None] wait_satisfied_def)
    qed
  qed
qed

section \<open>A proposal that succeeds\<close>

definition quorum_answers :: "propose_env \<Rightarrow> u64 \<Rightarrow> u32 \<Rightarrow> bool" where
  "quorum_answers pe pid q \<longleftrightarrow>
     in_time (pe_wait1 pe) \<and> in_time (pe_wait2 pe) \<and> length (wait_deliveries (pe_wait1 pe)) + 1 < 2 ^ 32 \<and>
     count_answers PAXOS_PHASE_ACCEPTED pid (wait_deliveries (pe_wait1 pe) @ pe_gap pe) = 0 \<and>
     unat q \<le> 1 + count_answers PAXOS_PHASE_PROMISE pid (wait_deliveries (pe_wait1 pe)) \<and>
     unat q \<le> 1 + count_answers PAXOS_PHASE_ACCEPTED pid (wait_deliveries (pe_wait2 pe))"

text \<open>The log can count on: one number for each message that may be logged before the own entry is.\<close>

definition log_room :: "propose_env \<Rightarrow> metadata_manager \<Rightarrow> bool" where
  "log_room pe m \<longleftrightarrow> (\<forall>k \<le> length (wait_deliveries (pe_wait1 pe) @ pe_gap pe). current_lsn m + of_nat k \<noteq> - 2)"

lemma log_room_within:
  "log_room pe m \<Longrightarrow> lsn_within (length (wait_deliveries (pe_wait1 pe) @ pe_gap pe)) m m' \<Longrightarrow> current_lsn m' \<noteq> - 2"
  unfolding log_room_def lsn_within_def by metis

lemma propose_opens:
  fixes fe :: frontend
  defines "n \<equiv> fe_paxos fe" and "pid \<equiv> fst (paxos_next_proposal_id (fe_paxos fe))"
  assumes "idle n" "config n = (q, mp, True, True, True)" "0 < mp" "len \<noteq> 0" "host_good (pe_begin pe)"
  shows "\<exists>cbs n1 ne1 fe1. paxos_propose_begin (paxos_answers (pe_begin pe) (Some v) len fe) n (Some v) len = (Some (0, pid, next_sequence_number n), cbs, n1) \<and>
    run_callbacks (pe_begin pe) cbs (fe\<lparr>fe_paxos := n1\<rparr>) = Some (ne1, fe1) \<and> counting fe1 0 v len pid \<and> config (fe_paxos fe1) = config n \<and>
    promise_count (slot_of fe1 0) = 1 \<and> \<not> completed (slot_of fe1 0) \<and> \<not> committed (slot_of fe1 0) \<and> fe_meta fe1 = fe_meta fe"
proof -
  have c: "max_proposals n = mp" "broadcast_callback n" using assms(4) by (simp_all add: config_def)
  have al: "he_alloc (pe_begin pe) k" for k using assms(7) by (simp add: host_good_def)
  let ?env = "paxos_answers (pe_begin pe) (Some v) len fe"
  have env: "\<not> malloc_fails ?env" "\<not> broadcast_fails ?env PAXOS_PHASE_PREPARE" using al by (simp_all add: paxos_answers_def)
  obtain n1 msg where b: "paxos_propose_begin ?env n (Some v) len = (Some (0, pid, next_sequence_number n), [E_broadcast msg], n1)"
    and m: "m_value msg = None" and n1: "proposal_id (active_proposals n1 0) = pid" "promise_count (active_proposals n1 0) = 1" "\<not> completed (active_proposals n1 0)"
    using begin_returns [OF assms(3) _ c(2) assms(6) env, of v] assms(5) c(1) by (auto simp: pid_def n_def)
  have p1: "proposing n1 0 v len" "\<not> committed (active_proposals n1 0)" "config n1 = config n" using begin_slots [OF b assms(3)] by simp_all
  obtain ne1 eng where bc: "paxos_broadcast_message (pe_begin pe) msg (fe_net fe) = Some (0, ne1, eng)"
    using broadcast_returns [of "pe_begin pe" msg "fe_net fe"] al m by auto
  let ?g = "fe\<lparr>fe_paxos := n1, fe_net := eng\<rparr>"
  have r1: "run_callbacks (pe_begin pe) [E_broadcast msg] (fe\<lparr>fe_paxos := n1\<rparr>) = Some (ne1, ?g)" by (simp add: bc)
  have "counting ?g 0 v len pid" using p1 n1(1) assms(4,5) by (simp add: counting_def config_def)
  with b r1 p1 n1 show ?thesis
    by (intro exI [of _ "[E_broadcast msg]"] exI [of _ n1] exI [of _ ne1] exI [of _ ?g]) (simp del: run_callbacks.simps)
qed

lemma propose_accepts:
  assumes "counting fe i v len pid" "config (fe_paxos fe) = (q, mp, True, True, True)" "1 < q" "\<not> completed (slot_of fe i)" "\<not> committed (slot_of fe i)"
    "value_entry (Some v) len = Some x" "unat len \<le> length v" "entry_ok x" "current_lsn (fe_meta fe) \<noteq> - 2" "host_good (pe_accept pe)"
  shows "\<exists>cbs n1 ne1 fe1. paxos_propose_accept (paxos_answers (pe_accept pe) (Some v) len fe) (fe_paxos fe) i pid sq (Some v) len 0 = (True, cbs, n1) \<and>
    run_callbacks (pe_accept pe) cbs (fe\<lparr>fe_paxos := n1\<rparr>) = Some (ne1, fe1) \<and> counting fe1 i v len pid \<and> accepting fe1 i 1 \<and> quorum_size (fe_paxos fe1) = q"
proof -
  have pc: "persist_callback (fe_paxos fe)" using assms(2) by (simp add: config_def)
  have p: "proposing (fe_paxos fe) i v len" "proposal_id (slot_of fe i) = pid" "i < max_proposals (fe_paxos fe)" using assms(1) by (simp_all add: counting_def)
  have al: "he_alloc (pe_accept pe) k" for k using assms(10) by (simp add: host_good_def)
  let ?env = "paxos_answers (pe_accept pe) (Some v) len fe"
  obtain m' where ps: "persist_wal (pe_accept pe) sq (Some v) len (fe_meta fe) = Some (0, m')"
    using persist_returns [OF assms(10,6,8,9), of sq] by blast
  have env: "\<not> broadcast_fails ?env PAXOS_PHASE_ACCEPT" "\<not> persist_fails ?env sq" using al by (simp_all add: paxos_answers_def ps)
  obtain n3 msg where a: "paxos_propose_accept ?env (fe_paxos fe) i pid sq (Some v) len 0 = (True, [E_persist sq (Some v) len, E_broadcast msg], n3)"
    and msg: "m_value msg = Some v" "m_value_len msg = len"
    and acc: "accept_count (active_proposals n3 i) = 1" "proposal_id (active_proposals n3 i) = pid" "\<not> completed (active_proposals n3 i)"
    using accept_returns [OF pc env(2,1), of i pid v len] p(2) assms(4) by auto
  have p3: "proposing n3 i v len" "config n3 = (q, mp, True, True, True)" using accept_slots [OF a p(1)] assms(2) by simp_all
  obtain ne3 eng where bc: "paxos_broadcast_message (pe_accept pe) msg (fe_net fe) = Some (0, ne3, eng)"
    using broadcast_returns [OF al, of msg "fe_net fe"] msg assms(7) by auto
  let ?g = "fe\<lparr>fe_paxos := n3, fe_meta := m', fe_net := eng\<rparr>"
  have r: "run_callbacks (pe_accept pe) [E_persist sq (Some v) len, E_broadcast msg] (fe\<lparr>fe_paxos := n3\<rparr>) = Some (ne3, ?g)"
    by (simp add: ps bc)
  have "i < mp" using p(3) assms(2) by (simp add: config_def)
  then have "counting ?g i v len pid" "quorum_size n3 = q" using p3 acc(2) by (simp_all add: counting_def config_def)
  moreover have "accepting ?g i 1" using acc(1,3) \<open>quorum_size n3 = q\<close> assms(3) by (simp add: accepting_def word_less_nat_alt)
  ultimately show ?thesis using a r
    by (intro exI [of _ "[E_persist sq (Some v) len, E_broadcast msg]"] exI [of _ n3] exI [of _ ne3] exI [of _ ?g]) (simp del: run_callbacks.simps)
qed

lemma propose_succeeds:
  assumes "idle (fe_paxos fe)" "config (fe_paxos fe) = (q, mp, True, True, True)" "0 < mp" "1 < q" "value_entry (Some v) len = Some x" "value_fits (Some v) len"
    "entry_ok x" "log_room pe (fe_meta fe)" "host_good (pe_begin pe)" "host_good (pe_accept pe)"
    "quorum_answers pe (fst (paxos_next_proposal_id (fe_paxos fe))) q" "\<forall>d \<in> set (propose_deliveries pe). wire_safe d"
  shows "\<exists>ne fe'. paxos_propose pe (Some v) len fe = Some (0, ne, fe')"
proof -
  let ?pid = "fst (paxos_next_proposal_id (fe_paxos fe))" and ?sq = "next_sequence_number (fe_paxos fe)"
  let ?d1 = "wait_deliveries (pe_wait1 pe)" and ?d2 = "wait_deliveries (pe_wait2 pe)"
  have len: "len \<noteq> 0" "unat len \<le> length v" using assms(5,6) by (simp_all add: value_entry_decode value_fits_def)
  have safe: "\<forall>d \<in> set ?d1. wire_safe d" "\<forall>d \<in> set (pe_gap pe). wire_safe d" "\<forall>d \<in> set ?d2. wire_safe d"
    using assms(12) by (auto simp: propose_deliveries_def)
  note qa = assms(11) [unfolded quorum_answers_def]
  obtain cbs n1 ne1 fe1 where o: "paxos_propose_begin (paxos_answers (pe_begin pe) (Some v) len fe) (fe_paxos fe) (Some v) len = (Some (0, ?pid, ?sq), cbs, n1)"
      "run_callbacks (pe_begin pe) cbs (fe\<lparr>fe_paxos := n1\<rparr>) = Some (ne1, fe1)"
    and fe1: "counting fe1 0 v len ?pid" "config (fe_paxos fe1) = config (fe_paxos fe)" "promise_count (slot_of fe1 0) = 1"
      "\<not> completed (slot_of fe1 0)" "\<not> committed (slot_of fe1 0)" "fe_meta fe1 = fe_meta fe"
    using propose_opens [OF assms(1-3) len(1) assms(9), of v] by blast
  have q1: "quorum_size (fe_paxos fe1) = q" using fe1(2) assms(2) by (simp add: config_def)
  obtain ne2 fe2 where w1: "wait_while False 0 (pe_wait1 pe) fe1 = Some (0, ne2, fe2)"
    and fe2: "counting fe2 0 v len ?pid" "\<not> completed (slot_of fe2 0)" "\<not> committed (slot_of fe2 0)" "config (fe_paxos fe2) = config (fe_paxos fe1)"
      "lsn_within (length ?d1) (fe_meta fe1) (fe_meta fe2)"
    using wait_promises [OF fe1(1,4,5) assms(6) _ safe(1)] qa q1 fe1(3) by auto
  have p2: "proposing (fe_paxos fe2) 0 v len" using fe2(1) by (simp add: counting_def)
  obtain ne3 fe3 where g: "deliver_all (pe_gap pe) fe2 = Some (ne3, fe3)" and fr: "slot_frame (fe_paxos fe2) (fe_paxos fe3)"
    using deliveries_complete [OF slots_fit_proposing [OF p2 assms(6)] safe(2)] by (auto simp: completes_def)
  have fe3: "counting fe3 0 v len ?pid" "\<not> completed (slot_of fe3 0)" "\<not> committed (slot_of fe3 0)" "lsn_within (length (pe_gap pe)) (fe_meta fe2) (fe_meta fe3)"
    using deliveries_count [OF g fe2(1-3)] qa by simp_all
  have c3: "config (fe_paxos fe3) = (q, mp, True, True, True)" using slot_frame_config [OF fr] fe2(4) fe1(2) assms(2) by simp
  have "lsn_within (length (?d1 @ pe_gap pe)) (fe_meta fe) (fe_meta fe3)"
    using lsn_within_trans [OF fe2(5) fe3(4)] fe1(6) by simp
  from log_room_within [OF assms(8) this] have lsn: "current_lsn (fe_meta fe3) \<noteq> - 2" .
  obtain cbs2 n2 ne4 fe4 where a: "paxos_propose_accept (paxos_answers (pe_accept pe) (Some v) len fe3) (fe_paxos fe3) 0 ?pid ?sq (Some v) len 0 = (True, cbs2, n2)"
      "run_callbacks (pe_accept pe) cbs2 (fe3\<lparr>fe_paxos := n2\<rparr>) = Some (ne4, fe4)"
    and fe4: "counting fe4 0 v len ?pid" "accepting fe4 0 1" "quorum_size (fe_paxos fe4) = q"
    using propose_accepts [OF fe3(1) c3 assms(4) fe3(2,3) assms(5) len(2) assms(7) lsn assms(10), of ?sq] by blast
  obtain ne5 fe5 where w2: "wait_while True 0 (pe_wait2 pe) fe4 = Some (0, ne5, fe5)" "committed (slot_of fe5 0)"
    using wait_accepted [OF fe4(1,2) assms(6) _ safe(3)] qa fe4(3) by auto
  show ?thesis by (simp add: paxos_propose_def o w1 g a w2 paxos_propose_finish_def)
qed

end
