(* ===== verification/Frontend_Inv.thy ===== *)
theory Frontend_Inv
  imports Frontend_Liveness
begin

text \<open>
  The invariant of the coordinator's state and that every request and every handled message keeps
  it: the table is well formed, every entry fits its record, and between requests no proposal
  slot is in use.
\<close>

section \<open>Entries\<close>

lemma c_str_nul [simp]: "CHR 0x00 \<notin> set (c_str s)"
  by (auto simp: c_str_def dest: set_takeWhileD)

lemma strncpy_ok: "CHR 0x00 \<notin> set s \<Longrightarrow> k < n \<Longrightarrow> cbuf_ok n (strncpy0 s k)"
  by (auto simp: cbuf_ok_def strncpy0_def dest: in_set_takeD)

lemma new_entry_ok: "entry_ok (new_entry e p md)"
  by (simp add: entry_ok_def new_entry_def zero_entry_def strncpy_ok) (simp add: cbuf_ok_def)

definition hosts_ok :: "storage_interface \<Rightarrow> bool" where
  "hosts_ok iface \<longleftrightarrow> (\<forall>i. CHR 0x00 \<notin> set (sn_ip (nodes iface i)))"

lemma entry_ok_assign:
  assumes "entry_ok y" "hosts_ok iface" "storage_interface_get_node iface nid = Some nd"
  shows "entry_ok (y\<lparr>storage_node_ips := (storage_node_ips y)[i := strncpy0 (sn_ip nd) 63],
    storage_node_ports := (storage_node_ports y)[i := p], storage_nodes := (storage_nodes y)[i := s]\<rparr>)"
proof -
  have "cbuf_ok 64 (strncpy0 (sn_ip nd) 63)"
    using assms(2,3) by (intro strncpy_ok) (auto simp: hosts_ok_def storage_interface_get_node_def)
  then show ?thesis using assms(1) set_update_subset_insert [of "storage_node_ips y" i "strncpy0 (sn_ip nd) 63"]
    by (auto simp: entry_ok_def)
qed

lemma assign_nodes_ok: "entry_ok x \<Longrightarrow> hosts_ok iface \<Longrightarrow> entry_ok (assign_nodes iface sel x)"
proof -
  assume iface: "hosts_ok iface" and x: "entry_ok x"
  let ?f = "\<lambda>y i. case storage_interface_get_node iface (sel ! i) of None \<Rightarrow> y
    | Some nd \<Rightarrow> y\<lparr>storage_node_ips := (storage_node_ips y)[i := strncpy0 (sn_ip nd) 63],
        storage_node_ports := (storage_node_ports y)[i := ucast (sn_port nd)], storage_nodes := (storage_nodes y)[i := sel ! i]\<rparr>"
  have "entry_ok (foldl ?f x is)" for "is"
    using x
  proof (induction "is" arbitrary: x)
    case (Cons i "is")
    then show ?case using entry_ok_assign [OF _ iface] by (cases "storage_interface_get_node iface (sel ! i)") auto
  qed simp
  then show ?thesis by (simp add: assign_nodes_def)
qed

lemma entry_ok_fields [simp]:
  "entry_ok (x\<lparr>num_storage_nodes := a\<rparr>) = entry_ok x" "entry_ok (x\<lparr>num_replicas := a\<rparr>) = entry_ok x"
  "entry_ok (x\<lparr>primary_node_idx := a\<rparr>) = entry_ok x" "entry_ok (x\<lparr>fstate := a\<rparr>) = entry_ok x"
  "entry_ok (x\<lparr>modified_time := b\<rparr>) = entry_ok x" "entry_ok (x\<lparr>version := b\<rparr>) = entry_ok x"
  "entry_ok (x\<lparr>fsize := b\<rparr>) = entry_ok x"
  by (simp_all add: entry_ok_def)

lemma new_entry_wt: "entry_wt (new_entry e p md)"
  using new_entry_ok [of e p md] by (simp add: entry_wt_def) (simp add: new_entry_def zero_entry_def)

lemma entry_wt_fields [simp]:
  "entry_wt (x\<lparr>fstate := a\<rparr>) = entry_wt x" "entry_wt (x\<lparr>modified_time := b\<rparr>) = entry_wt x"
  "entry_wt (x\<lparr>version := b\<rparr>) = entry_wt x" "entry_wt (x\<lparr>fsize := b\<rparr>) = entry_wt x"
  by (simp_all add: entry_wt_def)

lemma entry_value: "entry_ok x \<Longrightarrow> value_entry (Some (entry_bytes x)) (of_nat (length (entry_bytes x))) = Some x"
  by (simp add: value_entry_decode decode_value_def length_entry_bytes metadata_deserialize_bytes)

section \<open>The invariant\<close>

definition frontend_inv :: "frontend \<Rightarrow> bool" where
  "frontend_inv fe \<longleftrightarrow> tab_inv (fe_meta fe) \<and> (\<forall>x \<in> ran (meta_map (fe_meta fe)). entry_wt x) \<and> idle (fe_paxos fe) \<and>
     (\<exists>q. config (fe_paxos fe) = (q, 256, True, True, True)) \<and> iface_wf (fe_store fe) \<and> hosts_ok (fe_store fe)"

definition same_nodes :: "storage_interface \<Rightarrow> storage_interface \<Rightarrow> bool" where
  "same_nodes a b \<longleftrightarrow> nodes b = nodes a \<and> num_nodes b = num_nodes a \<and> max_nodes b = max_nodes a \<and> next_node_idx b = next_node_idx a"

lemma same_nodes_refl [simp]: "same_nodes a a"
  by (simp add: same_nodes_def)

lemma same_nodes_trans: "same_nodes a b \<Longrightarrow> same_nodes b c \<Longrightarrow> same_nodes a c"
  by (simp add: same_nodes_def)

lemma exchange_nodes:
  "storage_interface_write t nid fid off d a = Some (rc, resp, sent, b) \<Longrightarrow> same_nodes a b"
  "storage_interface_read t nid fid off len a = Some (rc, resp, sent, b) \<Longrightarrow> same_nodes a b"
  "storage_interface_delete t nid fid a = Some (rc, resp, sent, b) \<Longrightarrow> same_nodes a b"
  by (auto simp: storage_interface_write_def storage_interface_read_def storage_interface_delete_def Let_def same_nodes_def
      split: option.splits if_splits tcp_recv.splits)

lemma delete_replicas_nodes: "delete_replicas ts k ids fid c a = Some (c', b) \<Longrightarrow> same_nodes a b"
  by (induction ids arbitrary: k c a) (auto split: option.splits dest: exchange_nodes intro: same_nodes_trans)

lemma write_replicas_nodes: "write_replicas ts k ids fid off d cb a = Some (c', n, b) \<Longrightarrow> same_nodes a b"
proof (induction ids arbitrary: k cb a)
  case Nil
  then show ?case by (cases cb) simp
next
  case (Cons nid ids)
  then show ?case by (cases cb) (auto split: option.splits if_splits dest: exchange_nodes intro: same_nodes_trans)
qed

lemma read_replicas_nodes: "read_replicas ts k ids fid off sz q cs a = Some (r, b) \<Longrightarrow> same_nodes a b"
  by (induction ids arbitrary: k cs a)
    (auto simp: Let_def split: option.splits if_splits dest: exchange_nodes intro: same_nodes_trans)

lemma inv_store: "frontend_inv fe \<Longrightarrow> same_nodes (fe_store fe) b \<Longrightarrow> frontend_inv (fe\<lparr>fe_store := b\<rparr>)"
  by (simp add: frontend_inv_def same_nodes_def iface_wf_def hosts_ok_def)

text \<open>A commit keeps the invariant, and a successful one has put the entry into the table if there was
  memory for it.\<close>

definition commit_ok :: "request_env \<Rightarrow> bool" where
  "commit_ok e \<longleftrightarrow> (\<forall>d \<in> set (propose_deliveries (rq_propose e)). delivery_ok d)"

definition memory_left :: "request_env \<Rightarrow> bool" where
  "memory_left e \<longleftrightarrow> (\<forall>d \<in> set (propose_deliveries (rq_propose e)). memory_ok d)"

abbreviation learned_in :: "request_env \<Rightarrow> metadata_entry set" where
  "learned_in e \<equiv> learned (propose_deliveries (rq_propose e))"

text \<open>No change of another coordinator is learned while the request proposes, and no allocation fails when
  an entry is applied.\<close>

definition undisturbed :: "request_env \<Rightarrow> bool" where
  "undisturbed e \<longleftrightarrow> commit_ok e \<and> learned_in e = {} \<and> memory_left e"

lemma undisturbed_ok: "undisturbed e \<Longrightarrow> commit_ok e"
  by (simp add: undisturbed_def)

lemma learned_ok: "commit_ok e \<Longrightarrow> x \<in> learned_in e \<Longrightarrow> entry_wt x"
  by (fastforce simp: commit_ok_def learned_def delivery_ok_def)

lemma commit_effect:
  assumes "commit_metadata_with_paxos al (rq_propose e) x fe = Some (ok, ne, fe')" "frontend_inv fe" "entry_wt x" "commit_ok e"
  shows "frontend_inv fe' \<and> fe_store fe' = fe_store fe \<and>
    (\<exists>xs. table_steps (fe_meta fe) xs (fe_meta fe') \<and> set xs \<subseteq> insert x (learned_in e) \<and> (ok \<and> memory_left e \<longrightarrow> x \<in> set xs))"
proof (cases al)
  case False
  with assms(1) have "ok = False" "fe' = fe" by (simp_all add: commit_metadata_with_paxos_def metadata_serialize_def)
  with assms(2) show ?thesis by (auto simp: frontend_inv_def table_steps_refl intro!: exI [of _ "[]"])
next
  case True
  then obtain rc where p: "paxos_propose (rq_propose e) (Some (entry_bytes x)) (of_nat (length (entry_bytes x))) fe = Some (rc, ne, fe')" "ok = (rc = 0)"
    using assms(1) by (auto simp: commit_metadata_with_paxos_def metadata_serialize_def)
  have i: "tab_inv (fe_meta fe)" "idle (fe_paxos fe)" "apply_callback (fe_paxos fe)" using assms(2) by (auto simp: frontend_inv_def config_def)
  obtain xs where xs: "table_steps (fe_meta fe) xs (fe_meta fe')" "set xs \<subseteq> insert x (learned_in e)" "rc = 0 \<and> memory_left e \<longrightarrow> x \<in> set xs"
    and f: "idle (fe_paxos fe')" "config (fe_paxos fe') = config (fe_paxos fe)" "fe_store fe' = fe_store fe"
    using propose_returns [OF p(1) i entry_value [OF entry_wtD [OF assms(3)]] entry_ok_id [OF entry_wtD [OF assms(3)]]] assms(4) by (auto simp: commit_ok_def memory_left_def)
  have "ran (meta_map (fe_meta fe')) \<subseteq> ran (meta_map (fe_meta fe)) \<union> set xs" using xs(1) ran_puts by (simp add: table_steps_def)
  then have "\<forall>y \<in> ran (meta_map (fe_meta fe')). entry_wt y"
    using xs(2) assms(2,3) learned_ok [OF assms(4)] by (auto simp: frontend_inv_def)
  with xs f p(2) assms(2) table_steps_inv [OF xs(1)] show ?thesis by (auto simp: frontend_inv_def)
qed

lemma reply_effect:
  assumes "propose_reply e x fe = Some (r, ne, fe')" "frontend_inv fe" "entry_wt x" "commit_ok e"
  shows "frontend_inv fe' \<and> fe_store fe' = fe_store fe \<and>
    (\<exists>xs. table_steps (fe_meta fe) xs (fe_meta fe') \<and> set xs \<subseteq> insert x (learned_in e) \<and> (fst r = 0 \<and> memory_left e \<longrightarrow> x \<in> set xs))"
proof -
  obtain ok where c: "commit_metadata_with_paxos (rq_malloc e) (rq_propose e) x fe = Some (ok, ne, fe')"
    "r = (if ok then (0, []) else (- errno_code EIO, ''Failed to commit metadata''))"
    using assms(1) by (auto simp: propose_reply_def)
  then have "fst r = 0 \<longrightarrow> ok" by auto
  with commit_effect [OF c(1) assms(2-4)] show ?thesis by blast
qed

section \<open>Requests\<close>

lemma looked_up:
  assumes "frontend_inv fe" "metadata_lookup_by_path (fe_meta fe) p = Some a"
  shows "heap (fe_meta fe) a \<in> ran (meta_map (fe_meta fe))" "entry_wt (heap (fe_meta fe) a)"
    "fpath (heap (fe_meta fe) a) = p" "fstate (heap (fe_meta fe) a) \<noteq> FILE_STATE_DELETED"
  using lookup_by_path_nodes [OF assms(2)] all_nodes_ran assms(1) by (auto simp: frontend_inv_def)

text \<open>The entry that a creation proposes.\<close>

definition created_file :: "request_env \<Rightarrow> string \<Rightarrow> u32 \<Rightarrow> storage_interface \<Rightarrow> metadata_entry" where
  "created_file e full_path md iface =
     (case storage_interface_select_nodes 0 MAX_REPLICAS iface of (k, sel, iface') \<Rightarrow>
        (assign_nodes iface' sel (new_entry e full_path (S_IFREG OR md)))\<lparr>num_storage_nodes := word_of_int k,
          num_replicas := word_of_int k, primary_node_idx := 0\<rparr>)"

lemma created_file_wt:
  assumes "iface_wf iface" "hosts_ok iface"
  shows "entry_wt (created_file e p md iface)"
proof -
  obtain k sel iface' where s: "storage_interface_select_nodes 0 MAX_REPLICAS iface = (k, sel, iface')" by (metis prod_cases3)
  note sp = select_nodes_spec [OF assms(1) _ s]
  then have "hosts_ok iface'" using assms(2) by (auto simp: hosts_ok_def)
  then have ok: "entry_ok (assign_nodes iface' sel (new_entry e p (S_IFREG OR md)))" by (simp add: assign_nodes_ok new_entry_ok)
  have "k = int (length sel)" "length sel \<le> 3" using sp by auto
  then have "unat (word_of_int k :: u32) \<le> 16" by (simp add: unat_of_nat)
  moreover have "length (storage_nodes (assign_nodes iface' sel (new_entry e p (S_IFREG OR md)))) = 16" using ok by (simp add: entry_ok_def)
  ultimately show ?thesis using ok by (simp add: created_file_def s entry_wt_def)
qed

lemma select_inv:
  assumes "frontend_inv fe" "storage_interface_select_nodes 0 MAX_REPLICAS (fe_store fe) = (k, sel, iface')"
  shows "frontend_inv (fe\<lparr>fe_store := iface'\<rparr>)"
proof -
  have "iface_wf (fe_store fe)" using assms(1) by (simp add: frontend_inv_def)
  from select_nodes_spec [OF this _ assms(2)] have "iface_wf iface'" "nodes iface' = nodes (fe_store fe)" by auto
  with assms(1) show ?thesis by (simp add: frontend_inv_def hosts_ok_def)
qed

lemma creation_check_status: "creation_check b x p f m = Inl err \<Longrightarrow> fst err \<noteq> 0"
  by (auto simp: creation_check_def Let_def split: if_splits option.splits)

lemma Create_cases:
  assumes "Create e p f md fe0 fe = Some (r, ne, fe')" "frontend_inv fe"
  obtains (refused) "fst r \<noteq> 0" "frontend_inv fe'" "fe_meta fe' = fe_meta fe"
  | (proposed) iface' where "is_valid_name_component f" "frontend_inv (fe\<lparr>fe_store := iface'\<rparr>)"
      "propose_reply e (created_file e (join_path (trim_trailing_slash (normalize_path p)) f) md (fe_store fe)) (fe\<lparr>fe_store := iface'\<rparr>) = Some (r, ne, fe')"
      "entry_wt (created_file e (join_path (trim_trailing_slash (normalize_path p)) f) md (fe_store fe))"
proof (cases "creation_check ''Invalid filename'' ''File already exists'' p f (fe_meta fe0)")
  case (Inl err)
  with creation_check_status [OF Inl] assms refused show ?thesis by (auto simp: Create_def)
next
  case (Inr full)
  then have full: "is_valid_name_component f" "full = join_path (trim_trailing_slash (normalize_path p)) f"
    by (auto simp: creation_check_def Let_def split: if_splits option.splits)
  obtain k sel iface' where s: "storage_interface_select_nodes 0 MAX_REPLICAS (fe_store fe) = (k, sel, iface')" by (metis prod_cases3)
  note i = select_inv [OF assms(2) s]
  show ?thesis
  proof (cases "k \<le> 0")
    case True
    then have "fst r \<noteq> 0" "fe' = fe\<lparr>fe_store := iface'\<rparr>" using assms(1) by (auto simp: Create_def Inr s)
    with refused i show ?thesis by simp
  next
    case False
    have "entry_wt (created_file e full md (fe_store fe))"
      using assms(2) by (simp add: created_file_wt frontend_inv_def)
    with False assms(1) full proposed [OF full(1) i] show ?thesis by (simp add: Create_def Inr s created_file_def)
  qed
qed

lemma Create_inv: "Create e p f md fe0 fe = Some (r, ne, fe') \<Longrightarrow> frontend_inv fe \<Longrightarrow> commit_ok e \<Longrightarrow> frontend_inv fe'"
  by (erule (1) Create_cases) (use reply_effect in blast)+

lemma Mkdir_inv:
  assumes "Mkdir e p f md fe0 fe = Some (r, ne, fe')" "frontend_inv fe" "commit_ok e"
  shows "frontend_inv fe'"
  using assms(1) reply_effect [OF _ assms(2) new_entry_wt assms(3)] assms(2)
  by (auto simp: Mkdir_def split: sum.splits)

lemma deleted_entry_wt [simp]: "entry_wt (deleted_entry e x) = entry_wt x"
  by (simp add: deleted_entry_def)

lemma Rmdir_inv:
  assumes "Rmdir e p fe = Some (r, ne, fe')" "frontend_inv fe" "commit_ok e"
  shows "frontend_inv fe'"
proof -
  have "frontend_inv fe'" if "metadata_lookup_by_path (fe_meta fe) q = Some a" "propose_reply e (deleted_entry e (heap (fe_meta fe) a)) fe = Some (r, ne, fe')" for q a
    using reply_effect [OF that(2) assms(2) _ assms(3)] looked_up(2) [OF assms(2) that(1)] by simp
  with assms(1,2) show ?thesis by (auto simp: Rmdir_def Let_def split: if_splits option.splits)
qed

lemma Remove_inv:
  assumes "Remove e p fe = Some (r, ne, fe')" "frontend_inv fe" "commit_ok e"
  shows "frontend_inv fe'"
proof -
  have c: "frontend_inv fe'" if "metadata_lookup_by_path (fe_meta fe) q = Some a"
    "propose_reply e (deleted_entry e (heap (fe_meta fe) a)) (fe\<lparr>fe_store := b\<rparr>) = Some (r, ne, fe')" "same_nodes (fe_store fe) b" for q a b
    using reply_effect [OF that(2) inv_store [OF assms(2) that(3)] _ assms(3)] looked_up(2) [OF assms(2) that(1)] by simp
  have "fe = fe\<lparr>fe_store := fe_store fe\<rparr>" by simp
  with c [of _ _ "fe_store fe"] have n: "frontend_inv fe'" if "metadata_lookup_by_path (fe_meta fe) q = Some a"
    "propose_reply e (deleted_entry e (heap (fe_meta fe) a)) fe = Some (r, ne, fe')" for q a using that by simp
  from assms(1,2) show ?thesis
    by (auto simp: Remove_def Let_def bind_eq_Some_conv split: if_splits option.splits
        intro: c n inv_store dest: delete_replicas_nodes)
qed

text \<open>Where a write goes: at the end when the offset is zero and the file is not empty.\<close>

definition write_at :: "metadata_entry \<Rightarrow> int \<Rightarrow> u64" where
  "write_at x off = (if off = 0 \<and> fsize x > 0 then fsize x else word_of_int off)"

definition written_entry :: "request_env \<Rightarrow> metadata_entry \<Rightarrow> int \<Rightarrow> byte list \<Rightarrow> metadata_entry" where
  "written_entry e x off d = x\<lparr>fsize := max (fsize x) (write_at x off + of_nat (length d)),
     modified_time := rq_time e, version := version x + 1\<rparr>"

lemma written_entry_wt [simp]: "entry_wt (written_entry e x off d) = entry_wt x"
  by (simp add: written_entry_def)

lemma Write_cases:
  assumes "Write e p d off fe = Some (r, ne, fe')" "frontend_inv fe" "commit_ok e"
  obtains (failed) "wr_status r \<noteq> 0" "frontend_inv fe'"
  | (written) a ids c bytes iface where
      "metadata_lookup_by_path (fe_meta fe) (c_str (normalize_path p)) = Some a" "replica_ids (heap (fe_meta fe) a) = Some ids"
      "write_replicas (rq_tcp e) 0 ids (file_id (heap (fe_meta fe) a)) (write_at (heap (fe_meta fe) a) off) d (0, 0) (fe_store fe) = Some (c, bytes, iface)"
      "quorum_required (heap (fe_meta fe) a) \<le> c" "wr_status r = 0" "wr_bytes r = sint bytes" "frontend_inv (fe\<lparr>fe_store := iface\<rparr>)"
      "commit_metadata_with_paxos (rq_malloc e) (rq_propose e) (written_entry e (heap (fe_meta fe) a) off d) (fe\<lparr>fe_store := iface\<rparr>) = Some (True, ne, fe')"
proof (cases "metadata_lookup_by_path (fe_meta fe) (c_str (normalize_path p))")
  case None
  then show ?thesis using assms(1,2) failed by (auto simp: Write_def)
next
  case (Some a)
  let ?x = "heap (fe_meta fe) a"
  note ok = looked_up(2) [OF assms(2) Some]
  have m: "(if b > c then b else c) = max c b" for b c :: u64 by (auto simp: max_def)
  show ?thesis
  proof (cases "num_storage_nodes ?x = 0")
    case True
    then show ?thesis using assms(1,2) Some failed by (auto simp: Write_def Let_def)
  next
    case False
    then obtain ids c bytes iface where w: "replica_ids ?x = Some ids"
        "write_replicas (rq_tcp e) 0 ids (file_id ?x) (write_at ?x off) d (0, 0) (fe_store fe) = Some (c, bytes, iface)"
      using assms(1) Some unfolding Write_def Let_def write_at_def by (auto simp: bind_eq_Some_conv)
    note i = inv_store [OF assms(2) write_replicas_nodes [OF w(2)]]
    show ?thesis
    proof (cases "quorum_required ?x \<le> c")
      case q: False
      then show ?thesis using assms(1) Some False w i failed
        unfolding Write_def Let_def write_at_def [symmetric] by auto
    next
      case q: True
      obtain b ne' fe2 where cm: "commit_metadata_with_paxos (rq_malloc e) (rq_propose e) (written_entry e ?x off d) (fe\<lparr>fe_store := iface\<rparr>) = Some (b, ne', fe2)"
        using assms(1) Some False w q unfolding Write_def Let_def write_at_def [symmetric] m written_entry_def [symmetric]
        by (auto simp: bind_eq_Some_conv)
      have i2: "frontend_inv fe2" using commit_effect [OF cm i _ assms(3)] ok by simp
      show ?thesis
      proof (cases b)
        case True
        then show ?thesis
          using assms(1) Some False w q i cm written [OF Some w q]
          unfolding Write_def Let_def write_at_def [symmetric] m written_entry_def [symmetric] by auto
      next
        case f: False
        have "wr_status r \<noteq> 0 \<and> frontend_inv fe'"
          using assms(1) Some False w q cm f i2 inv_store [OF i2 delete_replicas_nodes]
          unfolding Write_def Let_def write_at_def [symmetric] m written_entry_def [symmetric]
          by (auto simp: bind_eq_Some_conv split: if_splits)
        then show ?thesis using failed by blast
      qed
    qed
  qed
qed

lemma Write_inv: "Write e p d off fe = Some (r, ne, fe') \<Longrightarrow> frontend_inv fe \<Longrightarrow> commit_ok e \<Longrightarrow> frontend_inv fe'"
proof (erule (2) Write_cases)
  fix a ids c bytes iface
  assume a: "frontend_inv fe" "commit_ok e" "metadata_lookup_by_path (fe_meta fe) (c_str (normalize_path p)) = Some a" "frontend_inv (fe\<lparr>fe_store := iface\<rparr>)"
    "commit_metadata_with_paxos (rq_malloc e) (rq_propose e) (written_entry e (heap (fe_meta fe) a) off d) (fe\<lparr>fe_store := iface\<rparr>) = Some (True, ne, fe')"
  from commit_effect [OF a(5,4) _ a(2)] looked_up(2) [OF a(1,3)] show "frontend_inv fe'" by simp
qed

lemma Get_inv:
  assumes "Get e nf ne_env te ask p off sz fe = Some (r, ne, fe')" "frontend_inv fe"
  shows "frontend_inv fe'"
  using assms inv_store [OF assms(2) read_replicas_nodes]
  by (auto simp: Get_def Let_def bind_eq_Some_conv split: option.splits if_splits)

lemma message_inv:
  assumes "handle_network_message h s ty pl fe = Some (ne, fe')" "frontend_inv fe" "delivery_ok (h, s, ty, pl)"
  shows "frontend_inv fe'"
proof -
  have "ready fe" using assms(2) by (auto simp: frontend_inv_def ready_def pending_def idle_def config_def)
  then obtain xs where h: "handled (learned [(h, s, ty, pl)]) (memory_ok (h, s, ty, pl)) fe xs fe'" using message_handled [OF assms(1) _ assms(3)] by blast
  have l: "set xs \<subseteq> learned [(h, s, ty, pl)]" using h assms(2) by (auto simp: handled_def pending_def frontend_inv_def idle_def)
  then have "\<forall>x \<in> set xs. entry_wt x" using assms(3) by (auto simp: learned_def delivery_ok_def)
  moreover have "ran (meta_map (fe_meta fe')) \<subseteq> ran (meta_map (fe_meta fe)) \<union> set xs" using h ran_puts by (simp add: handled_def table_steps_def)
  ultimately have "\<forall>x \<in> ran (meta_map (fe_meta fe')). entry_wt x" using assms(2) by (auto simp: frontend_inv_def)
  moreover have "idle (fe_paxos fe')" "config (fe_paxos fe') = config (fe_paxos fe)" "fe_store fe' = fe_store fe" "tab_inv (fe_meta fe')"
    using h assms(2) slot_frame_config by (auto simp: handled_def frontend_inv_def idle_def slot_frame_def table_steps_def)
  ultimately show ?thesis using assms(2) by (simp add: frontend_inv_def)
qed

section \<open>Start\<close>

lemma register_inv:
  assumes "storage_interface_register_node nid ip prt cap t iface = (rc, iface')" "iface_wf iface" "hosts_ok iface" "CHR 0x00 \<notin> set ip"
  shows "iface_wf iface' \<and> hosts_ok iface'"
proof (cases "num_nodes iface \<ge> max_nodes iface")
  case True
  then show ?thesis using assms by (simp add: storage_interface_register_node_def)
next
  case False
  then have lt: "num_nodes iface < max_nodes iface" by simp
  then have "num_nodes iface + 1 \<le> max_nodes iface" by (rule inc_le)
  moreover have "CHR 0x00 \<notin> set (strncpy0 ip 63)" using assms(4) by (auto simp: strncpy0_def dest: in_set_takeD)
  ultimately show ?thesis using assms False
    by (auto simp: storage_interface_register_node_def iface_wf_def hosts_ok_def split: if_splits)
qed

lemma space_tokens_set: "t \<in> set (space_tokens s) \<Longrightarrow> set t \<subseteq> set s"
proof (induction s rule: space_tokens.induct)
  case (1 s)
  show ?case
  proof (cases "dropWhile (\<lambda>c. c = CHR '' '') s")
    case Nil
    with "1.prems" show ?thesis by (simp add: space_tokens.simps [of s])
  next
    case (Cons c cs)
    have sub: "set (c # cs) \<subseteq> set s" using set_dropWhileD [of _ "\<lambda>c. c = CHR '' ''" s] by (auto simp: Cons)
    from "1.prems" Cons consider "t = takeWhile (\<lambda>c. c \<noteq> CHR '' '') (c # cs)"
      | "t \<in> set (space_tokens (dropWhile (\<lambda>c. c \<noteq> CHR '' '') (c # cs)))"
      unfolding space_tokens.simps [of s] by auto
    then show ?thesis
    proof cases
      case 1
      then have "set t \<subseteq> set (c # cs)" by (auto dest: set_takeWhileD)
      with sub show ?thesis by blast
    next
      case 2
      then have "set t \<subseteq> set (dropWhile (\<lambda>c. c \<noteq> CHR '' '') (c # cs))" using "1.IH" [OF Cons] by blast
      then have "set t \<subseteq> set (c # cs)" by (meson set_dropWhileD subsetD subsetI)
      with sub show ?thesis by blast
    qed
  qed
qed

lemma register_nodes_inv:
  "register_nodes t toks nid iface = Some iface' \<Longrightarrow> iface_wf iface \<Longrightarrow> hosts_ok iface \<Longrightarrow> \<forall>tok \<in> set toks. CHR 0x00 \<notin> set tok \<Longrightarrow>
     iface_wf iface' \<and> hosts_ok iface'"
proof (induction toks arbitrary: nid iface)
  case (Cons tok toks)
  have step: "iface_wf b \<and> hosts_ok b" if "scan_host_port tok = Some (ip, prt)" "b = snd (storage_interface_register_node nid ip prt GIB t iface)" for ip prt b
  proof -
    have "set ip \<subseteq> set tok"
      using that(1) by (auto simp: scan_host_port_def scan_host_def Let_def bind_eq_Some_conv split: if_splits dest: set_takeWhileD)
    with Cons.prems(4) have "CHR 0x00 \<notin> set ip" by auto
    with register_inv [OF _ Cons.prems(2,3)] show ?thesis unfolding that(2) by (metis prod.collapse)
  qed
  from Cons.prems(1) step Cons.IH Cons.prems(2-4) show ?case
    by (auto split: option.splits if_splits)
qed simp

lemma default_nodes_inv: "iface_wf iface \<Longrightarrow> hosts_ok iface \<Longrightarrow> iface_wf (default_nodes t iface) \<and> hosts_ok (default_nodes t iface)"
proof -
  assume i: "iface_wf iface" "hosts_ok iface"
  have step: "iface_wf (snd (storage_interface_register_node nid ip prt cap t a)) \<and> hosts_ok (snd (storage_interface_register_node nid ip prt cap t a))"
    if "iface_wf a" "hosts_ok a" "CHR 0x00 \<notin> set ip" for nid ip prt cap a
    using register_inv [OF _ that] by (metis prod.collapse)
  show ?thesis unfolding default_nodes_def by (intro step conjunct1 [OF step] conjunct2 [OF step] i) simp_all
qed

lemma paxos_init_idle:
  "paxos_init nid total_n True True al = Some n \<Longrightarrow>
     idle (paxos_set_proposal_timeout ms (paxos_set_broadcast_callback True n)) \<and>
     (\<exists>q. config (paxos_set_proposal_timeout ms (paxos_set_broadcast_callback True n)) = (q, 256, True, True, True))"
  by (auto simp: paxos_init_def paxos_set_broadcast_callback_def paxos_set_proposal_timeout_def idle_def config_def zero_proposal_def
      split: if_splits)

lemma manager_init_table:
  assumes "metadata_manager_init e stack al op f = Some (Some m)"
  shows "tab_inv m \<and> meta_map m = Map.empty"
proof -
  obtain lsn where m: "m = (empty_manager f)\<lparr>current_lsn := lsn\<rparr>"
    using assms by (auto simp: metadata_manager_init_def wal_replay_def split: if_splits option.splits replay_result.splits)
  show ?thesis by (auto simp: m tab_inv_def mgr_inv_def keys_distinct_def meta_map_def metadata_lookup_def bucket_find_def empty_manager_def)
qed

lemma start_inv:
  assumes "initialize_distributed_system e nid lport total_n addrs = Some (Some fe)" "\<forall>s. se_nodes e = Some s \<longrightarrow> CHR 0x00 \<notin> set s"
  shows "frontend_inv fe \<and> meta_map (fe_meta fe) = Map.empty"
proof -
  obtain n mgr eng iface iface1 where
    n: "paxos_init nid total_n True True (se_alloc e 0) = Some n" and
    m: "metadata_manager_init (se_replay e) (se_stack e) (se_alloc e 1) (se_open e) (se_log e) = Some (Some mgr)" and
    i: "storage_interface_init (of_nat MAX_STORAGE_NODES) (se_alloc e 3) = Some iface"
      "(case se_nodes e of Some s \<Rightarrow> register_nodes (se_time e) (space_tokens s) 100 iface | None \<Rightarrow> Some (default_nodes (se_time e) iface)) = Some iface1" and
    fe: "fe = \<lparr>fe_meta = mgr, fe_paxos = paxos_set_proposal_timeout (timeout_of (se_timeout e)) (paxos_set_broadcast_callback True n),
      fe_net = eng, fe_store = iface1\<rparr>"
    using assms(1) unfolding initialize_distributed_system_def Let_def
    by (auto split: option.splits prod.splits if_splits)
  have "iface_wf iface" "hosts_ok iface" using i(1) by (auto simp: storage_interface_init_def iface_wf_def hosts_ok_def zero_node_def split: if_splits)
  then have "iface_wf iface1 \<and> hosts_ok iface1"
    using i(2) register_nodes_inv default_nodes_inv assms(2) space_tokens_set by (cases "se_nodes e") (auto, blast+)
  with manager_init_table [OF m] paxos_init_idle [OF n] show ?thesis by (simp add: fe frontend_inv_def)
qed

section \<open>Reachable states\<close>

text \<open>The event loop may change the connections at any time.\<close>

inductive fe_reachable :: "frontend \<Rightarrow> bool" where
  started: "initialize_distributed_system se nid lport total_n addrs = Some (Some fe) \<Longrightarrow>
    \<forall>s. se_nodes se = Some s \<longrightarrow> CHR 0x00 \<notin> set s \<Longrightarrow> fe_reachable fe"
| message: "fe_reachable fe \<Longrightarrow> handle_network_message h s ty pl fe = Some (ne, fe') \<Longrightarrow> delivery_ok (h, s, ty, pl) \<Longrightarrow> fe_reachable fe'"
| req_create: "fe_reachable fe \<Longrightarrow> Create e p f md fe0 fe = Some (r, ne, fe') \<Longrightarrow> commit_ok e \<Longrightarrow> fe_reachable fe'"
| req_mkdir: "fe_reachable fe \<Longrightarrow> Mkdir e p f md fe0 fe = Some (r, ne, fe') \<Longrightarrow> commit_ok e \<Longrightarrow> fe_reachable fe'"
| req_remove: "fe_reachable fe \<Longrightarrow> Remove e p fe = Some (r, ne, fe') \<Longrightarrow> commit_ok e \<Longrightarrow> fe_reachable fe'"
| req_rmdir: "fe_reachable fe \<Longrightarrow> Rmdir e p fe = Some (r, ne, fe') \<Longrightarrow> commit_ok e \<Longrightarrow> fe_reachable fe'"
| req_write: "fe_reachable fe \<Longrightarrow> Write e p d off fe = Some (wr, ne, fe') \<Longrightarrow> commit_ok e \<Longrightarrow> fe_reachable fe'"
| connections: "fe_reachable fe \<Longrightarrow> fe_reachable (fe\<lparr>fe_net := eng\<rparr>)"
| req_get: "fe_reachable fe \<Longrightarrow> Get e nf n_env t_env ask p off sz fe = Some (gr, ne, fe') \<Longrightarrow> fe_reachable fe'"

lemma reachable_inv: "fe_reachable fe \<Longrightarrow> frontend_inv fe"
proof (induction rule: fe_reachable.induct)
  case started
  then show ?case using start_inv by blast
next
  case message
  then show ?case by (rule_tac message_inv)
next
  case req_create
  then show ?case by (rule_tac Create_inv)
next
  case req_mkdir
  then show ?case by (rule_tac Mkdir_inv)
next
  case req_remove
  then show ?case by (rule_tac Remove_inv)
next
  case req_rmdir
  then show ?case by (rule_tac Rmdir_inv)
next
  case req_write
  then show ?case by (rule_tac Write_inv)
next
  case connections
  then show ?case by (simp add: frontend_inv_def)
next
  case req_get
  then show ?case by (rule_tac Get_inv)
qed

end
