(* ===== verification/Frontend_Props.thy ===== *)
theory Frontend_Props
  imports Frontend_Inv
begin

text \<open>
  What the coordinator guarantees its clients: commits and the table, read and write quorums over
  the replicas, and what it reports when replicas have lost a file.
\<close>

section \<open>Replica exchanges\<close>

text \<open>What one replica answers to a read: a value, or nothing that counts; \<^term>\<open>None\<close> when the exchange does
  not end.\<close>

definition replica_value :: "tcp_env \<Rightarrow> u32 \<Rightarrow> string \<Rightarrow> u64 \<Rightarrow> u64 \<Rightarrow> storage_interface \<Rightarrow> byte list option option" where
  "replica_value t nid fid off sz iface =
     map_option (\<lambda>(rc, resp, sent, iface'). if rc = 0 \<and> status resp = 0 then rdata resp else None)
       (storage_interface_read t nid fid off sz iface)"

definition replica_wrote :: "tcp_env \<Rightarrow> u32 \<Rightarrow> string \<Rightarrow> u64 \<Rightarrow> byte list \<Rightarrow> storage_interface \<Rightarrow> bool" where
  "replica_wrote t nid fid off d iface =
     (case storage_interface_write t nid fid off d iface of
        None \<Rightarrow> False | Some (rc, resp, sent, iface') \<Rightarrow> rc = 0 \<and> status resp = 0)"

lemma get_node_same: "same_nodes a b \<Longrightarrow> storage_interface_get_node b nid = storage_interface_get_node a nid"
  by (simp add: same_nodes_def storage_interface_get_node_def find_node_def)

lemma replica_value_same: "same_nodes a b \<Longrightarrow> replica_value t nid fid off sz b = replica_value t nid fid off sz a"
  by (auto simp: replica_value_def storage_interface_read_def get_node_same Let_def split: option.splits)

lemma replica_wrote_same: "same_nodes a b \<Longrightarrow> replica_wrote t nid fid off d b = replica_wrote t nid fid off d a"
  by (auto simp: replica_wrote_def storage_interface_write_def get_node_same Let_def split: option.splits tcp_recv.splits)

section \<open>Reading from a majority\<close>

text \<open>The values the replicas return, in order; the loop may stop before the last.\<close>

lemma read_loop:
  assumes "\<forall>j<length ids. replica_value (ts (k + j)) (ids ! j) fid off sz iface = Some (vs ! j)" "length vs = length ids"
    "\<forall>v. cs v < q"
  shows "\<exists>r iface'. read_replicas ts k ids fid off sz q cs iface = Some (r, iface') \<and>
    (case r of Some v \<Rightarrow> unat q \<le> unat (cs v) + count_list vs (Some v)
     | None \<Rightarrow> \<forall>v. unat (cs v) + count_list vs (Some v) < unat q)"
  using assms
proof (induction ids arbitrary: k vs cs iface)
  case Nil
  then show ?case by (auto simp: word_less_nat_alt)
next
  case (Cons nid ids)
  then obtain o1 vs' where vs: "vs = o1 # vs'" "length vs' = length ids" by (cases vs) auto
  have "replica_value (ts k) nid fid off sz iface = Some o1" using Cons.prems(1) vs(1) by force
  then obtain rc resp sent iface1 where r: "storage_interface_read (ts k) nid fid off sz iface = Some (rc, resp, sent, iface1)"
    and o1: "o1 = (if rc = 0 \<and> status resp = 0 then rdata resp else None)" by (auto simp: replica_value_def)
  note sn = exchange_nodes(2) [OF r]
  have rest: "\<forall>j<length ids. replica_value (ts (Suc k + j)) (ids ! j) fid off sz iface1 = Some (vs' ! j)"
  proof (intro allI impI)
    fix j assume "j < length ids"
    with Cons.prems(1) vs(1) have "replica_value (ts (k + Suc j)) ((nid # ids) ! Suc j) fid off sz iface = Some ((o1 # vs') ! Suc j)" by force
    with replica_value_same [OF sn] show "replica_value (ts (Suc k + j)) (ids ! j) fid off sz iface1 = Some (vs' ! j)" by simp
  qed
  show ?case
  proof (cases o1)
    case None
    with Cons.IH [OF rest vs(2) Cons.prems(3)] r o1 show ?thesis by (auto simp: vs split: option.splits)
  next
    case (Some pl)
    let ?c = "cs(pl := cs pl + 1)"
    have c: "unat (cs pl + 1) = unat (cs pl) + 1" using Cons.prems(3) by (intro unat_inc) blast
    have rc: "rc = 0" "status resp = 0" "rdata resp = Some pl" using o1 Some by (auto split: if_splits)
    show ?thesis
    proof (cases "q \<le> cs pl + 1")
      case True
      then have "unat q \<le> unat (cs pl) + 1" using c by (simp add: word_le_nat_alt)
      with True r rc Some show ?thesis by (simp add: vs Let_def)
    next
      case False
      with Cons.prems(3) have lt: "\<forall>v. ?c v < q" by simp
      obtain res iface' where IH: "read_replicas ts (Suc k) ids fid off sz q ?c iface1 = Some (res, iface')"
        "case res of Some v \<Rightarrow> unat q \<le> unat (?c v) + count_list vs' (Some v) | None \<Rightarrow> \<forall>v. unat (?c v) + count_list vs' (Some v) < unat q"
        using Cons.IH [OF rest vs(2) lt] by blast
      have "unat (?c v) + count_list vs' (Some v) = unat (cs v) + count_list vs (Some v)" for v using c Some by (auto simp: vs)
      note IH(2) [unfolded this]
      moreover have "read_replicas ts k (nid # ids) fid off sz q cs iface = Some (res, iface')" using IH(1) False r rc by (simp add: Let_def)
      ultimately show ?thesis by blast
    qed
  qed
qed

lemma count_two: "v \<noteq> w \<Longrightarrow> count_list xs v + count_list xs w \<le> length xs"
  by (induction xs) auto

text \<open>The loop finds exactly the value that a majority has.\<close>

lemma read_majority:
  assumes "\<forall>j<length ids. replica_value (ts j) (ids ! j) fid off sz iface = Some (vs ! j)" "length vs = length ids"
    "0 < q" "length ids < 2 * unat q"
  shows "\<exists>r iface'. read_replicas ts 0 ids fid off sz q (\<lambda>_. 0) iface = Some (r, iface') \<and>
    (\<forall>v. r = Some v \<longleftrightarrow> unat q \<le> count_list vs (Some v))"
proof -
  obtain r iface' where r: "read_replicas ts 0 ids fid off sz q (\<lambda>_. 0) iface = Some (r, iface')"
    "case r of Some v \<Rightarrow> unat q \<le> count_list vs (Some v) | None \<Rightarrow> \<forall>v. count_list vs (Some v) < unat q"
    using read_loop [of ids ts 0 fid off sz iface vs "\<lambda>_. 0" q] assms(1-3) by (auto split: option.splits)
  have "r = Some v \<longleftrightarrow> unat q \<le> count_list vs (Some v)" for v
  proof (cases r)
    case None
    with r(2) show ?thesis by (metis not_less option.distinct(1) option.simps(4))
  next
    case (Some w)
    have "v = w" if "unat q \<le> count_list vs (Some v)"
    proof (rule ccontr)
      assume "v \<noteq> w"
      then have "count_list vs (Some v) + count_list vs (Some w) \<le> length vs" by (intro count_two) simp
      with that Some r(2) assms(2,4) show False by simp
    qed
    with Some r(2) show ?thesis by auto
  qed
  with r(1) show ?thesis by blast
qed

lemma quorum_unat: "unat (quorum_required x) = unat (num_storage_nodes x) div 2 + 1"
proof -
  have "unat (num_storage_nodes x) < 2 ^ 32" using unsigned_less [of "num_storage_nodes x"] by simp
  then have "unat (num_storage_nodes x div 2) + unat (1 :: u32) < 2 ^ 32" by (simp add: unat_div_distrib)
  then show ?thesis using unat_add_lem [of "num_storage_nodes x div 2" 1] by (simp add: quorum_required_def unat_div_distrib)
qed

lemma replica_ids_length: "replica_ids x = Some ids \<Longrightarrow> length ids \<le> unat (num_storage_nodes x)"
  by (auto simp: replica_ids_def split: if_splits intro: order_trans [OF length_filter_le])

section \<open>Writing to a majority\<close>

lemma write_success_bytes: "storage_interface_write t nid fid off d a = Some (0, resp, sent, b) \<Longrightarrow> bytes_transferred resp = of_nat (length d)"
  by (auto simp: storage_interface_write_def Let_def split: option.splits if_splits tcp_recv.splits)

lemma write_loop:
  assumes "write_replicas ts k ids fid off d (c, b) iface = Some (c', b', iface')" "unat c + length ids < 2 ^ 32"
  shows "unat c' = unat c + count_list (map (\<lambda>j. replica_wrote (ts (k + j)) (ids ! j) fid off d iface) [0..<length ids]) True \<and>
    (c' \<noteq> c \<or> b = of_nat (length d) \<longrightarrow> b' = of_nat (length d))"
  using assms
proof (induction ids arbitrary: k c b iface)
  case (Cons nid ids)
  obtain rc resp sent iface1 where r: "storage_interface_write (ts k) nid fid off d iface = Some (rc, resp, sent, iface1)"
    using Cons.prems(1) by (auto split: option.splits)
  let ?ok = "rc = 0 \<and> status resp = 0"
  let ?c = "if ?ok then c + 1 else c" and ?b = "if ?ok then bytes_transferred resp else b"
  have w: "write_replicas ts (Suc k) ids fid off d (?c, ?b) iface1 = Some (c', b', iface')"
    using Cons.prems(1) r by (auto split: if_splits)
  have c: "unat ?c = unat c + (if ?ok then 1 else 0)"
    using Cons.prems(2) unat_add_lem [of c 1] by auto
  with Cons.prems(2) have "unat ?c + length ids < 2 ^ 32" by (auto split: if_splits)
  note IH = Cons.IH [OF w this]
  have "replica_wrote (ts (k + j)) ((nid # ids) ! j) fid off d iface =
      (if j = 0 then ?ok else replica_wrote (ts (Suc k + (j - 1))) (ids ! (j - 1)) fid off d iface1)" for j
    using r replica_wrote_same [OF exchange_nodes(1) [OF r]] by (cases j) (simp_all add: replica_wrote_def)
  then have "map (\<lambda>j. replica_wrote (ts (k + j)) ((nid # ids) ! j) fid off d iface) [0..<length (nid # ids)] =
      ?ok # map (\<lambda>j. replica_wrote (ts (Suc k + j)) (ids ! j) fid off d iface1) [0..<length ids]"
    by (simp add: map_upt_Suc del: upt_Suc)
  moreover have "?b = of_nat (length d)" if ?ok using that r write_success_bytes by auto
  ultimately show ?case using IH c by auto
qed simp

text \<open>The quorums of replicas are majorities, so any two share one.\<close>

definition replica_quorum :: "metadata_entry \<Rightarrow> nat set \<Rightarrow> bool" where
  "replica_quorum x Q \<longleftrightarrow> Q \<subseteq> {..<unat (num_storage_nodes x)} \<and> unat (quorum_required x) \<le> card Q"

interpretation replica_q: majority_quorums "{..<unat (num_storage_nodes x)}" "replica_quorum x" for x
  by unfold_locales (auto simp: replica_quorum_def quorum_unat)

lemma write_replicas_quorum:
  assumes "write_replicas ts 0 ids fid off d (0, 0) iface = Some (c, bytes, iface')" "replica_ids x = Some ids" "quorum_required x \<le> c"
  shows "replica_quorum x {j. j < length ids \<and> replica_wrote (ts j) (ids ! j) fid off d iface} \<and> bytes = of_nat (length d)"
proof -
  note len = replica_ids_length [OF assms(2)]
  have "unat (num_storage_nodes x) < 2 ^ 32" using unsigned_less [of "num_storage_nodes x"] by simp
  with len have lt: "unat (0 :: u32) + length ids < 2 ^ 32" by simp
  let ?oks = "map (\<lambda>j. replica_wrote (ts j) (ids ! j) fid off d iface) [0..<length ids]"
  have w: "unat c = count_list ?oks True" "c \<noteq> 0 \<longrightarrow> bytes = of_nat (length d)" using write_loop [OF assms(1) lt] by simp_all
  have "count_list ?oks True = card {j. j < length ids \<and> replica_wrote (ts j) (ids ! j) fid off d iface}"
    unfolding count_list_eq_length_filter length_filter_conv_card by (rule arg_cong [of _ _ card]) auto
  moreover have "unat (quorum_required x) \<le> unat c" using assms(3) by (simp add: word_le_nat_alt)
  moreover have "c \<noteq> 0" using calculation(2) by (auto simp: quorum_unat)
  ultimately show ?thesis using w len by (auto simp: replica_quorum_def)
qed

section \<open>Reads\<close>

definition get_size :: "metadata_entry \<Rightarrow> int \<Rightarrow> int \<Rightarrow> u64" where
  "get_size x off sz = (if sz = 0 then if off < sint (fsize x) then fsize x - word_of_int off else 0 else word_of_int sz)"

lemma get_reads_majority:
  assumes "metadata_lookup_by_path (fe_meta fe) (c_str (normalize_path p)) = Some a" "x = heap (fe_meta fe) a" "num_storage_nodes x \<noteq> 0"
    "replica_ids x = Some ids" "length vs = length ids"
    "\<forall>j<length ids. replica_value (rq_tcp e j) (ids ! j) (file_id x) (word_of_int off) (get_size x off sz) (fe_store fe) = Some (vs ! j)"
  shows "\<exists>r fe'. Get e nf n_env t_env ask p off sz fe = Some (r, [], fe') \<and> fe_meta fe' = fe_meta fe \<and>
    (\<forall>v. gr_status r = 0 \<and> gr_data r = v \<longleftrightarrow> unat (num_storage_nodes x) < 2 * count_list vs (Some v)) \<and> gr_bytes r = int (length (gr_data r))"
proof -
  have q: "0 < quorum_required x" "length ids < 2 * unat (quorum_required x)"
    using replica_ids_length [OF assms(4)] quorum_unat [of x] by (auto simp: word_less_nat_alt)
  obtain res iface' where r: "read_replicas (rq_tcp e) 0 ids (file_id x) (word_of_int off) (get_size x off sz) (quorum_required x) (\<lambda>_. 0) (fe_store fe) = Some (res, iface')"
    and res: "\<And>v. res = Some v \<longleftrightarrow> unat (quorum_required x) \<le> count_list vs (Some v)"
    using read_majority [OF assms(6,5) q] by blast
  have m: "res = Some v \<longleftrightarrow> unat (num_storage_nodes x) < 2 * count_list vs (Some v)" for v
    unfolding res quorum_unat by auto
  let ?r = "case res of Some v \<Rightarrow> \<lparr>gr_status = 0, gr_message = [], gr_data = v, gr_bytes = int (length v)\<rparr>
    | None \<Rightarrow> \<lparr>gr_status = - errno_code EIO, gr_message = ''Read quorum not reached'', gr_data = [], gr_bytes = 0\<rparr>"
  have "Get e nf n_env t_env ask p off sz fe = Some (?r, [], fe\<lparr>fe_store := iface'\<rparr>)"
    using assms(1,3,4) r unfolding assms(2) get_size_def by (simp add: Get_def Let_def)
  moreover have "\<forall>v. gr_status ?r = 0 \<and> gr_data ?r = v \<longleftrightarrow> unat (num_storage_nodes x) < 2 * count_list vs (Some v)"
    unfolding m [symmetric] by (cases res) auto
  moreover have "gr_bytes ?r = int (length (gr_data ?r))" by (cases res) auto
  ultimately show ?thesis by auto
qed

section \<open>Creation\<close>

lemma assign_nodes_frame:
  "file_id (assign_nodes iface sel x) = file_id x \<and> fpath (assign_nodes iface sel x) = fpath x \<and>
   fstate (assign_nodes iface sel x) = fstate x \<and> fsize (assign_nodes iface sel x) = fsize x \<and> fmode (assign_nodes iface sel x) = fmode x"
proof -
  let ?f = "\<lambda>y i. case storage_interface_get_node iface (sel ! i) of None \<Rightarrow> y
    | Some nd \<Rightarrow> y\<lparr>storage_node_ips := (storage_node_ips y)[i := strncpy0 (sn_ip nd) 63],
        storage_node_ports := (storage_node_ports y)[i := ucast (sn_port nd)], storage_nodes := (storage_nodes y)[i := sel ! i]\<rparr>"
  have "file_id (foldl ?f x is) = file_id x \<and> fpath (foldl ?f x is) = fpath x \<and> fstate (foldl ?f x is) = fstate x \<and>
      fsize (foldl ?f x is) = fsize x \<and> fmode (foldl ?f x is) = fmode x" for "is"
  proof (induction "is" arbitrary: x)
    case (Cons i "is")
    then show ?case by (cases "storage_interface_get_node iface (sel ! i)") simp_all
  qed simp
  then show ?thesis by (simp add: assign_nodes_def)
qed

lemma created_file_fields [simp]:
  "file_id (created_file e p md iface) = take 63 (c_str (rq_uuid e))" "fpath (created_file e p md iface) = take 4095 (c_str p)"
  "fstate (created_file e p md iface) = FILE_STATE_ACTIVE" "fsize (created_file e p md iface) = 0"
  "fmode (created_file e p md iface) = S_IFREG OR md"
  by (simp_all add: created_file_def assign_nodes_frame new_entry_def strncpy0_def zero_entry_def split: prod.splits)

lemma c_str_id: "CHR 0x00 \<notin> set s \<Longrightarrow> c_str s = s"
  by (auto simp: c_str_def takeWhile_eq_all_conv)

lemma full_path_nul:
  assumes "CHR 0x00 \<notin> set p" "CHR 0x00 \<notin> set f" "is_valid_name_component f"
  shows "CHR 0x00 \<notin> set (join_path (trim_trailing_slash (normalize_path p)) f)"
proof -
  have "set (trim_trailing_slash q) \<subseteq> set q" for q by (auto simp: trim_trailing_slash_def dest: in_set_takeD)
  moreover have "set (normalize_path p) \<subseteq> insert (CHR ''/'') (set p)" by (auto simp: normalize_path_def)
  ultimately have "CHR 0x00 \<notin> set (trim_trailing_slash (normalize_path p))" using assms(1) by fastforce
  moreover have "f \<noteq> []" "CHR ''/'' \<notin> set f" using assms(3) by (auto simp: is_valid_name_component_def split: if_splits)
  ultimately show ?thesis using assms(2) by (simp add: join_trimmed)
qed

text \<open>The listing of a directory and a later creation in it see every live child.\<close>

lemma child_listed:
  assumes "tab_inv (fe_meta fe)" "x \<in> ran (meta_map (fe_meta fe))" "fstate x \<noteq> FILE_STATE_DELETED" "is_valid_name_component f"
    "fpath x = join_path (trim_trailing_slash (normalize_path p)) f" "ReadDirectory p fe = (0, m, es)"
  shows "f \<in> e_name ` set es"
proof -
  let ?dir = "trim_trailing_slash (normalize_path p)"
  have f: "f \<noteq> []" "CHR ''/'' \<notin> set f" using assms(4) by (auto simp: is_valid_name_component_def split: if_splits)
  have "trim_trailing_slash (fpath x) = fpath x" using join_trimmed(2) [OF normalize_trimmed f] by (simp add: assms(5) trim_id)
  then have "child_of ?dir x = Some f" using f assms(3,5) by (simp add: child_of_def direct_child_iff)
  moreover have "es = list_children ?dir {} (all_nodes (fe_meta fe))"
    using assms(6) trim_id [OF normalize_trimmed [of p]] by (auto simp: ReadDirectory_def Let_def split: if_splits option.splits)
  ultimately show ?thesis
    using list_children_names [of ?dir "{}" "all_nodes (fe_meta fe)"] assms(1,2) by (auto simp: all_nodes_ran)
qed

lemma child_blocks_creation:
  assumes "tab_inv (fe_meta fe)" "x \<in> ran (meta_map (fe_meta fe))" "fstate x \<noteq> FILE_STATE_DELETED" "is_valid_name_component f"
    "fpath x = c_str (join_path (trim_trailing_slash (normalize_path p)) f)" "Create e p f md fe fe2 = Some (r, ne, fe3)"
  shows "fst r = - errno_code EEXIST \<or> fst r = - errno_code ENOENT"
proof -
  have "metadata_lookup_by_path (fe_meta fe) (fpath x) \<noteq> None" using assms(1-3) by (auto simp: lookup_by_path_None all_nodes_ran)
  then obtain a where a: "metadata_lookup_by_path (fe_meta fe) (fpath x) = Some a" by blast
  with lookup_by_path_nodes(3) [OF a] assms(4,5,6) show ?thesis
    by (auto simp: Create_def creation_check_def Let_def split: if_splits)
qed

section \<open>A concrete coordinator\<close>

definition demo_host_env :: host_env where
  "demo_host_env = \<lparr>he_alloc = (\<lambda>_. True), he_wal = demo_wal_env, he_ptr = 0, he_pad = 0, he_junk = [], he_stale = False,
     he_sends = (\<lambda>_. \<lparr>socket_result = - 1, resolves = False, connect_ok = False, clock = 0, buffer_ok = True, send_result = 0\<rparr>),
     he_reply = \<lparr>socket_result = - 1, resolves = False, connect_ok = False, clock = 0, buffer_ok = True, send_result = 0\<rparr>\<rparr>"

definition demo_msg :: "u32 \<Rightarrow> paxos_message" where
  "demo_msg ph = zero_message\<lparr>m_phase := ph, m_proposal_id := 0x10001, m_sequence_number := 1, m_sender_id := 2, m_acceptor_id := 2\<rparr>"

definition demo_answer :: "u32 \<Rightarrow> byte list" where
  "demo_answer ph = msg_header 0 0 (demo_msg ph)"

definition demo_pe :: propose_env where
  "demo_pe = \<lparr>pe_begin = demo_host_env,
     pe_wait1 = [(Woken, [(demo_host_env, 2, MSG_TYPE_PAXOS, Some (demo_answer PAXOS_PHASE_PROMISE))])], pe_gap = [],
     pe_accept = demo_host_env,
     pe_wait2 = [(Woken, [(demo_host_env, 2, MSG_TYPE_PAXOS, Some (demo_answer PAXOS_PHASE_ACCEPTED))])]\<rparr>"

definition demo_request :: request_env where
  "demo_request = \<lparr>rq_uuid = ''u1'', rq_uid = 0, rq_gid = 0, rq_time = 9, rq_malloc = True, rq_tcp = (\<lambda>_. demo_tcp_env),
     rq_cleanup = (\<lambda>_. demo_tcp_env), rq_propose = demo_pe\<rparr>"

definition demo_fe :: "metadata_manager \<Rightarrow> frontend" where
  "demo_fe mgr = \<lparr>fe_meta = mgr, fe_paxos = demo_node 1, fe_net = the (network_engine_init 1 8001 True True), fe_store = demo_iface\<rparr>"

lemma demo_fe_simps [simp]: "fe_meta (demo_fe mgr) = mgr" "fe_paxos (demo_fe mgr) = demo_node 1" "fe_store (demo_fe mgr) = demo_iface"
  "current_lsn (empty_manager f) = 0"
  by (simp_all add: demo_fe_def empty_manager_def)

lemma demo_decodes: "paxos_deserialize_message True st (demo_answer ph) = Inr ((demo_msg ph)\<lparr>m_is_noop := st\<rparr>)"
proof -
  have "paxos_serialize_message True 0 0 [] (demo_msg ph) = Inr (demo_answer ph)"
    by (simp add: paxos_serialize_message_def demo_answer_def demo_msg_def)
  from message_decodes [OF _ this, of st] show ?thesis by (simp add: demo_msg_def)
qed

lemma demo_answers [simp]:
  "is_answer ph pid (demo_host_env, s, MSG_TYPE_PAXOS, Some (demo_answer ph')) \<longleftrightarrow> ph = ph' \<and> pid = 0x10001"
  "wire_safe (demo_host_env, s, MSG_TYPE_PAXOS, Some (demo_answer ph))" "host_good demo_host_env"
  by (auto simp: is_answer_def host_good_def demo_host_env_def demo_decodes demo_msg_def)
    (simp add: wire_safe_def Let_def demo_answer_def msg_header_def codec_simps demo_msg_def)

lemma demo_request_simps [simp]:
  "rq_propose demo_request = demo_pe" "rq_malloc demo_request" "rq_tcp demo_request = (\<lambda>_. demo_tcp_env)"
  "pe_begin demo_pe = demo_host_env" "pe_accept demo_pe = demo_host_env" "pe_gap demo_pe = []"
  "pe_wait1 demo_pe = [(Woken, [(demo_host_env, 2, MSG_TYPE_PAXOS, Some (demo_answer PAXOS_PHASE_PROMISE))])]"
  "pe_wait2 demo_pe = [(Woken, [(demo_host_env, 2, MSG_TYPE_PAXOS, Some (demo_answer PAXOS_PHASE_ACCEPTED))])]"
  by (simp_all add: demo_request_def demo_pe_def)

lemma demo_commit_ok [simp]: "commit_ok demo_request" "learned (propose_deliveries demo_pe) = {}" "memory_left demo_request"
proof -
  have "learned_entry (Some (demo_answer PAXOS_PHASE_PROMISE)) = None" "learned_entry (Some (demo_answer PAXOS_PHASE_ACCEPTED)) = None"
    by (simp_all add: learned_entry_def demo_decodes demo_msg_def)
  then show "commit_ok demo_request" "learned (propose_deliveries demo_pe) = {}"
    by (auto simp: commit_ok_def learned_def propose_deliveries_def wait_deliveries_def delivery_ok_def)
  show "memory_left demo_request"
    by (simp add: memory_left_def memory_ok_def propose_deliveries_def wait_deliveries_def demo_host_env_def)
qed

lemma demo_undisturbed [simp]: "undisturbed demo_request"
  by (simp add: undisturbed_def)

lemma demo_node_simps [simp]: "idle (demo_node 1)" "config (demo_node 1) = (2, 256, True, True, True)"
  "fst (paxos_next_proposal_id (demo_node 1)) = 0x10001"
proof -
  show "idle (demo_node 1)" "config (demo_node 1) = (2, 256, True, True, True)"
    by (simp_all add: demo_node_def paxos_init_def paxos_set_broadcast_callback_def idle_def config_def zero_proposal_def)
  show "fst (paxos_next_proposal_id (demo_node 1)) = 0x10001" by code_simp
qed

lemma demo_quorum: "quorum_answers demo_pe 0x10001 2" "\<forall>d \<in> set (propose_deliveries demo_pe). wire_safe d"
  "current_lsn m = 0 \<Longrightarrow> log_room demo_pe m"
  by (simp_all add: quorum_answers_def in_time_def propose_deliveries_def log_room_def le_Suc_eq)

lemma demo_commit:
  assumes "entry_wt x" "current_lsn (fe_meta fe) = 0" "fe_paxos fe = demo_node 1"
  shows "\<exists>ne fe'. commit_metadata_with_paxos True demo_pe x fe = Some (True, ne, fe')"
proof -
  note ok = entry_wtD [OF assms(1)]
  have len: "length (entry_bytes x) = 5400" by (rule length_entry_bytes [OF ok])
  have "\<exists>ne fe'. paxos_propose demo_pe (Some (entry_bytes x)) (of_nat (length (entry_bytes x))) fe = Some (0, ne, fe')"
    by (rule propose_succeeds [where mp = 256 and q = 2 and x = x])
      (use assms ok entry_value [OF ok] len demo_quorum in \<open>simp_all add: value_fits_def\<close>)
  then show ?thesis by (auto simp: commit_metadata_with_paxos_def metadata_serialize_def)
qed

lemma demo_inv: "tab_inv mgr \<Longrightarrow> \<forall>x \<in> ran (meta_map mgr). entry_wt x \<Longrightarrow> frontend_inv (demo_fe mgr)"
  by (simp add: frontend_inv_def demo_fe_def) (simp add: hosts_ok_def demo_iface_def)

definition demo_file :: metadata_entry where
  "demo_file = (demo_entry ''u1'' 3)\<lparr>storage_nodes := [101, 102, 103] @ replicate 13 0, num_storage_nodes := 3\<rparr>"

definition demo_table :: metadata_manager where
  "demo_table = apply_committed demo_file (empty_manager [])"

lemma demo_file_simps [simp]:
  "entry_wt demo_file" "file_id demo_file = ''u1''" "fpath demo_file = ''/a''" "num_storage_nodes demo_file = 3" "fsize demo_file = 3"
  "replica_ids demo_file = Some [101, 102, 103]" "quorum_required demo_file = 2" "fstate demo_file = 1"
  by (simp_all add: demo_file_def demo_entry_def entry_wt_def entry_ok_def cbuf_ok_def replica_ids_def quorum_required_def)

lemma demo_table_inv [simp]: "frontend_inv (demo_fe demo_table)" "meta_map demo_table = [''u1'' \<mapsto> demo_file]" "current_lsn demo_table = 0"
proof -
  have t: "tab_inv demo_table \<and> meta_map demo_table = [''u1'' \<mapsto> demo_file]"
    using apply_entry_table [OF empty_tab entry_ok_id [OF entry_wtD [OF demo_file_simps(1)]]] by (simp add: demo_table_def apply_committed_def)
  then show "meta_map demo_table = [''u1'' \<mapsto> demo_file]" by blast
  show "frontend_inv (demo_fe demo_table)" by (rule demo_inv) (use t in auto)
  show "current_lsn demo_table = 0"
    by (simp add: demo_table_def apply_committed_def metadata_apply_entry_def metadata_lookup_def empty_manager_def bucket_find_def insert_node_def Let_def)
qed

lemma demo_lookup: "\<exists>a. metadata_lookup_by_path demo_table ''/a'' = Some a \<and> heap demo_table a = demo_file"
proof -
  have t: "tab_inv demo_table" using demo_table_inv(1) by (simp add: frontend_inv_def)
  have "metadata_lookup_by_path demo_table ''/a'' \<noteq> None" using t by (auto simp: lookup_by_path_None all_nodes_ran)
  then obtain a where a: "metadata_lookup_by_path demo_table ''/a'' = Some a" by blast
  with lookup_by_path_nodes(1) [OF a] all_nodes_ran [OF t] show ?thesis by auto
qed

lemma demo_path: "c_str (normalize_path ''/a'') = ''/a''"
  by (simp add: c_str_def normalize_path_def)

lemma demo_names: "trim_trailing_slash (normalize_path ''/'') = ''/''" "join_path ''/'' ''f'' = ''/f''" "c_str (rq_uuid demo_request) = ''u1''"
  by (simp_all add: trim_trailing_slash_def normalize_path_def join_path_def c_str_def demo_request_def)

lemma demo_create_on:
  assumes "frontend_inv fe" "fe_meta fe = empty_manager []" "fe_paxos fe = demo_node 1"
    "0 < fst (storage_interface_select_nodes 0 MAX_REPLICAS (fe_store fe))"
  shows "\<exists>ne fe'. Create demo_request ''/'' ''f'' 0x1A4 fe fe = Some ((0, []), ne, fe')"
proof -
  have "all_nodes (empty_manager []) = []" by (simp add: all_nodes_def empty_manager_def)
  then have "metadata_lookup_by_path (empty_manager []) q = None" for q by (simp add: lookup_by_path_None)
  then have chk: "creation_check ''Invalid filename'' ''File already exists'' ''/'' ''f'' (fe_meta fe) = Inr ''/f''"
    by (simp add: creation_check_def demo_names assms(2) is_valid_name_component_def path_is_existing_directory_def)
  obtain k sel iface' where sel: "storage_interface_select_nodes 0 MAX_REPLICAS (fe_store fe) = (k, sel, iface')" by (metis prod_cases3)
  let ?x = "created_file demo_request ''/f'' 0x1A4 (fe_store fe)"
  have ok: "entry_wt ?x" using assms(1) by (simp add: created_file_wt frontend_inv_def)
  obtain ne fe' where "commit_metadata_with_paxos True demo_pe ?x (fe\<lparr>fe_store := iface'\<rparr>) = Some (True, ne, fe')"
    using demo_commit [OF ok, of "fe\<lparr>fe_store := iface'\<rparr>"] assms(2,3) by auto
  with assms(4) sel show ?thesis unfolding Create_def chk by (simp add: sel created_file_def propose_reply_def)
qed

lemma demo_create:
  "\<exists>ne fe'. Create demo_request ''/'' ''f'' 0x1A4 (demo_fe (empty_manager [])) (demo_fe (empty_manager [])) = Some ((0, []), ne, fe')"
proof (rule demo_create_on)
  show "frontend_inv (demo_fe (empty_manager []))" by (rule demo_inv) simp_all
  have "fst (storage_interface_select_nodes 0 MAX_REPLICAS demo_iface) = 2" by code_simp
  then show "0 < fst (storage_interface_select_nodes 0 MAX_REPLICAS (fe_store (demo_fe (empty_manager []))))" by simp
qed simp_all

lemma Create_puts:
  assumes "Create e p f md fe0 fe = Some (r, ne, fe')" "fst r = 0" "frontend_inv fe" "undisturbed e"
    "x = created_file e (join_path (trim_trailing_slash (normalize_path p)) f) md (fe_store fe)"
  shows "meta_map (fe_meta fe') = (meta_map (fe_meta fe))(file_id x \<mapsto> x)"
  using assms(1,3)
proof (cases rule: Create_cases)
  case (proposed iface')
  obtain xs where xs: "table_steps (fe_meta fe) xs (fe_meta fe')" "set xs \<subseteq> {x}" "x \<in> set xs"
    using reply_effect [OF proposed(3,2,4) undisturbed_ok [OF assms(4)]] assms(2,4,5) by (auto simp: undisturbed_def)
  then have "xs \<noteq> []" by auto
  with puts_single [OF xs(2)] xs(1) show ?thesis by (simp add: table_steps_def)
qed (use assms(2) in simp)

definition demo_start :: start_env where
  "demo_start = \<lparr>se_alloc = (\<lambda>_. True), se_replay = demo_replay_env, se_stack = replicate 48 0, se_open = True, se_log = [], se_fd = 3,
     se_bind = True, se_listen = True, se_thread = True, se_peers = (\<lambda>_. he_reply demo_host_env), se_timeout = Some 3000, se_nodes = None, se_time = 5\<rparr>"

lemma demo_started:
  "\<exists>fe. initialize_distributed_system demo_start 1 8001 3 [] = Some (Some fe) \<and> fe_reachable fe \<and>
     fe_meta fe = empty_manager [] \<and> fe_paxos fe = demo_node 1 \<and> fe_store fe = default_nodes 5 (the (storage_interface_init 16 True))"
proof -
  have r: "replay_loop demo_replay_env (replicate 48 0) 0 [] = Replayed 0" by (simp add: replay_loop.simps demo_replay_env_def)
  obtain fe where fe: "initialize_distributed_system demo_start 1 8001 3 [] = Some (Some fe)"
    "fe_meta fe = empty_manager []" "fe_paxos fe = demo_node 1" "fe_store fe = default_nodes 5 (the (storage_interface_init 16 True))"
    using r by (simp add: initialize_distributed_system_def demo_start_def demo_node_def paxos_init_def metadata_manager_init_def wal_replay_def
        empty_manager_def network_engine_init_def network_engine_start_def storage_interface_init_def Let_def
        paxos_set_proposal_timeout_def timeout_of_def paxos_set_broadcast_callback_def)
  have "fe_reachable fe" by (rule fe_reachable.started [OF fe(1)]) (simp add: demo_start_def)
  with fe show ?thesis by blast
qed

text \<open>A reachable coordinator whose table is not empty: the first file after a start.\<close>

lemma demo_created_file:
  "\<exists>fe ne fe' x. initialize_distributed_system demo_start 1 8001 3 [] = Some (Some fe) \<and> fe_reachable fe \<and>
     Create demo_request ''/'' ''f'' 0x1A4 fe fe = Some ((0, []), ne, fe') \<and> x \<in> ran (meta_map (fe_meta fe')) \<and> fpath x = ''/f''"
proof -
  obtain fe where fe: "initialize_distributed_system demo_start 1 8001 3 [] = Some (Some fe)" "fe_reachable fe" "fe_meta fe = empty_manager []"
    "fe_paxos fe = demo_node 1" "fe_store fe = default_nodes 5 (the (storage_interface_init 16 True))" using demo_started by blast
  note inv = reachable_inv [OF fe(2)]
  have "fst (storage_interface_select_nodes 0 MAX_REPLICAS (default_nodes 5 (the (storage_interface_init 16 True)))) = 3" by code_simp
  then obtain ne fe' where c: "Create demo_request ''/'' ''f'' 0x1A4 fe fe = Some ((0, []), ne, fe')"
    using demo_create_on [OF inv fe(3,4)] fe(5) by auto
  let ?x = "created_file demo_request ''/f'' 0x1A4 (fe_store fe)"
  have "?x \<in> ran (meta_map (fe_meta fe'))" using Create_puts [OF c _ inv, of ?x] by (simp add: demo_names ran_def) (metis fun_upd_same)
  moreover have "fpath ?x = ''/f''" by (simp add: c_str_def)
  ultimately show ?thesis using fe(1,2) c by blast
qed

lemma demo_reachable_file: "\<exists>fe x. fe_reachable fe \<and> x \<in> ran (meta_map (fe_meta fe)) \<and> fpath x = ''/f''"
  using demo_created_file fe_reachable.req_create [OF _ _ demo_commit_ok(1)] by blast

section \<open>Properties\<close>

text \<open>C5: a metadata change is committed once a quorum answers, whatever else is handled meanwhile: if, before the
  timeouts, as many PROMISE and then ACCEPTED messages for the proposal are handled as make a quorum
  with the coordinator's own, the commit returns successfully, and the table then holds the proposed entry
  and is changed otherwise only where another coordinator's change was learned. The quorum is more than
  one (a cluster has three nodes at least). Among the handled messages may be any others that
  announce no more bytes than they carry, but no ACCEPTED for a proposal before its ACCEPT was sent; learned entries are
  well typed and of other files. The allocations and log writes of the proposal itself
  and the allocations for committed entries succeed, and the log's sequence number is not exhausted.\<close>

theorem quorum_commits:
  assumes "frontend_inv fe" "entry_wt x" "1 < quorum_size (fe_paxos fe)" "pe = rq_propose e"
    "quorum_answers pe (fst (paxos_next_proposal_id (fe_paxos fe))) (quorum_size (fe_paxos fe))"
    "\<forall>d \<in> set (propose_deliveries pe). wire_safe d" "commit_ok e" "\<forall>y \<in> learned_in e. file_id y \<noteq> file_id x"
    "host_good (pe_begin pe)" "host_good (pe_accept pe)" "memory_left e" "log_room pe (fe_meta fe)"
  shows "\<exists>ne fe'. commit_metadata_with_paxos True pe x fe = Some (True, ne, fe') \<and> frontend_inv fe' \<and>
    meta_map (fe_meta fe') (file_id x) = Some x \<and>
    (\<forall>k. k \<noteq> file_id x \<and> k \<notin> file_id ` learned_in e \<longrightarrow> meta_map (fe_meta fe') k = meta_map (fe_meta fe) k)"
proof -
  note ok = entry_wtD [OF assms(2)]
  let ?len = "of_nat (length (entry_bytes x)) :: u64"
  have fits: "value_fits (Some (entry_bytes x)) ?len" by (simp add: value_fits_def length_entry_bytes [OF ok])
  have c: "idle (fe_paxos fe)" "config (fe_paxos fe) = (quorum_size (fe_paxos fe), 256, True, True, True)"
    using assms(1) by (auto simp: frontend_inv_def config_def)
  obtain ne fe' where "paxos_propose pe (Some (entry_bytes x)) ?len fe = Some (0, ne, fe')"
    using propose_succeeds [OF c _ assms(3) entry_value [OF ok] fits ok assms(12,9,10,5,6)] by auto
  then have cm: "commit_metadata_with_paxos True pe x fe = Some (True, ne, fe')"
    by (simp add: commit_metadata_with_paxos_def metadata_serialize_def)
  obtain xs where xs: "table_steps (fe_meta fe) xs (fe_meta fe')" "set xs \<subseteq> insert x (learned_in e)" "x \<in> set xs" "frontend_inv fe'"
    using commit_effect [OF cm [unfolded assms(4)] assms(1,2,7)] assms(11) by blast
  have own: "\<forall>y \<in> set xs. file_id y = file_id x \<longrightarrow> y = x" using xs(2) assms(8) by auto
  have "meta_map (fe_meta fe') k = meta_map (fe_meta fe) k" if "k \<noteq> file_id x" "k \<notin> file_id ` learned_in e" for k
    using puts_other [of xs k] xs(1,2) that by (auto simp: table_steps_def)
  with cm xs(1,4) puts_last [OF xs(3) own, of "meta_map (fe_meta fe)"] show ?thesis by (auto simp: table_steps_def)
qed

theorem quorum_commits_witness:
  "\<exists>ne fe'. commit_metadata_with_paxos True demo_pe (demo_entry ''1_5'' 9) (demo_fe (empty_manager [])) = Some (True, ne, fe') \<and>
     meta_map (fe_meta fe') ''1_5'' = Some (demo_entry ''1_5'' 9)"
proof -
  let ?fe = "demo_fe (empty_manager [])" and ?x = "demo_entry ''1_5'' 9"
  have inv: "frontend_inv ?fe" by (rule demo_inv) simp_all
  have "unat (num_storage_nodes ?x) \<le> length (storage_nodes ?x)" by (simp add: demo_entry_def)
  then have x: "entry_wt ?x" by (simp add: entry_wt_def)
  have q: "quorum_size (demo_node 1) = 2" "file_id ?x = ''1_5''" using demo_node_simps(2) by (simp_all add: config_def demo_entry_def)
  obtain ne fe' where "commit_metadata_with_paxos True demo_pe ?x ?fe = Some (True, ne, fe')" "meta_map (fe_meta fe') (file_id ?x) = Some ?x"
    using quorum_commits [OF inv x, of demo_pe demo_request] demo_quorum by (auto simp: q word_less_nat_alt)
  with q(2) show ?thesis by auto
qed

text \<open>A file whose creation is reported as successful is in the table, active and empty, under its
  path; a listing of its directory that succeeds shows it, and creating it again is refused. This
  holds as long as no peer uses the same UUID, the path fits its array and there is memory.\<close>

theorem create_visible:
  assumes "frontend_inv fe" "commit_ok e" "Create e p f md fe0 fe = Some ((0, msg), ne, fe')"
    "\<forall>y \<in> learned_in e. file_id y \<noteq> take 63 (c_str (rq_uuid e))" "CHR 0x00 \<notin> set p" "CHR 0x00 \<notin> set f"
    "length (join_path (trim_trailing_slash (normalize_path p)) f) \<le> 4095" "memory_left e"
  shows "(\<exists>x. meta_map (fe_meta fe') (take 63 (c_str (rq_uuid e))) = Some x \<and> fstate x = FILE_STATE_ACTIVE \<and> fsize x = 0 \<and>
      fpath x = join_path (trim_trailing_slash (normalize_path p)) f) \<and>
    (\<forall>m es. ReadDirectory p fe' = (0, m, es) \<longrightarrow> f \<in> e_name ` set es) \<and>
    (\<forall>e2 md2 fe2 r ne2 fe3. Create e2 p f md2 fe' fe2 = Some (r, ne2, fe3) \<longrightarrow> fst r = - errno_code EEXIST \<or> fst r = - errno_code ENOENT)"
  using assms(3,1)
proof (cases rule: Create_cases)
  case refused
  then show ?thesis by simp
next
  case (proposed iface')
  let ?full = "join_path (trim_trailing_slash (normalize_path p)) f"
  let ?x = "created_file e ?full md (fe_store fe)"
  have full: "c_str ?full = ?full" using assms(5,6) proposed(1) by (intro c_str_id full_path_nul)
  have path: "fpath ?x = ?full" using assms(7) by (simp add: full)
  obtain xs where xs: "table_steps (fe_meta fe) xs (fe_meta fe')" "set xs \<subseteq> insert ?x (learned_in e)" "?x \<in> set xs" "frontend_inv fe'"
    using reply_effect [OF proposed(3,2,4) assms(2)] assms(8) by auto
  have "puts xs (meta_map (fe_meta fe)) (file_id ?x) = Some ?x"
    using xs(2,3) assms(4) by (intro puts_last) auto
  then have x: "meta_map (fe_meta fe') (take 63 (c_str (rq_uuid e))) = Some ?x" using xs(1) by (simp add: table_steps_def)
  then have ran: "?x \<in> ran (meta_map (fe_meta fe'))" by (auto simp: ran_def)
  have tab: "tab_inv (fe_meta fe')" using xs(4) by (simp add: frontend_inv_def)
  have "f \<in> e_name ` set es" if "ReadDirectory p fe' = (0, m, es)" for m es
    using child_listed [OF tab ran _ proposed(1) path that] by simp
  moreover have "fst r = - errno_code EEXIST \<or> fst r = - errno_code ENOENT" if "Create e2 p f md2 fe' fe2 = Some (r, ne2, fe3)" for e2 md2 fe2 r ne2 fe3
    using child_blocks_creation [OF tab ran _ proposed(1) _ that] path full by simp
  ultimately show ?thesis using x path by auto
qed

theorem create_visible_witness:
  "\<exists>msg ne fe'. Create demo_request ''/'' ''f'' 0x1A4 (demo_fe (empty_manager [])) (demo_fe (empty_manager [])) = Some ((0, msg), ne, fe') \<and>
     (\<exists>x. meta_map (fe_meta fe') ''u1'' = Some x \<and> fpath x = ''/f'') \<and>
     (\<forall>m es. ReadDirectory ''/'' fe' = (0, m, es) \<longrightarrow> ''f'' \<in> e_name ` set es)"
proof -
  have inv: "frontend_inv (demo_fe (empty_manager []))" by (rule demo_inv) simp_all
  obtain ne fe' where c: "Create demo_request ''/'' ''f'' 0x1A4 (demo_fe (empty_manager [])) (demo_fe (empty_manager [])) = Some ((0, []), ne, fe')"
    using demo_create by blast
  from create_visible [OF inv demo_commit_ok(1) c] demo_names c show ?thesis by auto
qed

text \<open>C3: a write reported as successful has been acknowledged by a majority of the file's replicas, so
  every majority that is read afterwards contains a replica that has acknowledged it. The table has
  changed only by entries applied during the proposal: the file with its new size, time and version,
  and entries that other coordinators committed meanwhile. It then holds the written entry, unless
  another coordinator's change of the same file was learned meanwhile (it may come after the write
  and replace its entry) or there was no memory to apply the entry. Entries that are learned are
  assumed to be well typed.\<close>

theorem write_quorum_meets_reads:
  assumes "frontend_inv fe" "commit_ok e" "Write e p d off fe = Some (r, ne, fe')" "wr_status r = 0" "length d < 2 ^ 63"
  shows "\<exists>x ids xs. x \<in> ran (meta_map (fe_meta fe)) \<and> fpath x = c_str (normalize_path p) \<and> replica_ids x = Some ids \<and>
    wr_bytes r = int (length d) \<and>
    (\<forall>Q. replica_quorum x Q \<longrightarrow> (\<exists>j \<in> Q. j < length ids \<and> replica_wrote (rq_tcp e j) (ids ! j) (file_id x) (write_at x off) d (fe_store fe))) \<and>
    table_steps (fe_meta fe) xs (fe_meta fe') \<and> set xs \<subseteq> insert (written_entry e x off d) (learned_in e) \<and>
    (memory_left e \<longrightarrow> written_entry e x off d \<in> set xs \<and>
      ((\<forall>y \<in> learned_in e. file_id y \<noteq> file_id x) \<longrightarrow> meta_map (fe_meta fe') (file_id x) = Some (written_entry e x off d)))"
  using assms(3,1,2)
proof (cases rule: Write_cases)
  case failed
  with assms(4) show ?thesis by simp
next
  case (written a ids c bytes iface)
  let ?x = "heap (fe_meta fe) a"
  let ?J = "{j. j < length ids \<and> replica_wrote (rq_tcp e j) (ids ! j) (file_id ?x) (write_at ?x off) d (fe_store fe)}"
  let ?y = "written_entry e ?x off d"
  note l = looked_up [OF assms(1) written(1)]
  have q: "replica_quorum ?x ?J" "bytes = of_nat (length d)" using write_replicas_quorum [OF written(3,2,4)] by simp_all
  have meet: "\<exists>j \<in> Q. j < length ids \<and> replica_wrote (rq_tcp e j) (ids ! j) (file_id ?x) (write_at ?x off) d (fe_store fe)" if "replica_quorum ?x Q" for Q
    using replica_q.quorums_meet [OF that q(1)] by blast
  obtain xs where xs: "table_steps (fe_meta fe) xs (fe_meta fe')" "set xs \<subseteq> insert ?y (learned_in e)" "memory_left e \<longrightarrow> ?y \<in> set xs"
    using commit_effect [OF written(8,7) _ assms(2)] l(2) by auto
  have b: "wr_bytes r = int (length d)" using written(6) q(2) assms(5) by (simp add: signed_of_nat signed_take_bit_int_eq_self)
  have last: "meta_map (fe_meta fe') (file_id ?x) = Some ?y" if "memory_left e" "\<forall>y \<in> learned_in e. file_id y \<noteq> file_id ?x"
  proof -
    have id: "file_id ?y = file_id ?x" by (simp add: written_entry_def)
    have own: "\<forall>z \<in> set xs. file_id z = file_id ?y \<longrightarrow> z = ?y" using xs(2) that(2) by (auto simp: id)
    from puts_last [OF mp [OF xs(3) that(1)] own, of "meta_map (fe_meta fe)"] xs(1) show ?thesis by (simp add: table_steps_def id)
  qed
  show ?thesis
    by (intro exI [of _ ?x] exI [of _ ids] exI [of _ xs] conjI allI impI) (use l(1,3) written(2) b meet xs last in blast)+
qed

theorem write_quorum_meets_reads_witness:
  "\<exists>r ne fe'. Write demo_request ''/a'' [7, 8, 9] 0 (demo_fe demo_table) = Some (r, ne, fe') \<and> wr_status r = 0 \<and> wr_bytes r = 3 \<and>
     meta_map (fe_meta fe') ''u1'' = Some (written_entry demo_request demo_file 0 [7, 8, 9]) \<and>
     (\<forall>Q. replica_quorum demo_file Q \<longrightarrow> (\<exists>j \<in> Q. j < 3 \<and> replica_wrote demo_tcp_env ([101, 102, 103] ! j) ''u1'' 3 [7, 8, 9] demo_iface))"
proof -
  let ?fe = "demo_fe demo_table" and ?d = "[7, 8, 9] :: byte list"
  obtain a where a: "metadata_lookup_by_path demo_table ''/a'' = Some a" "heap demo_table a = demo_file" using demo_lookup by blast
  have "case write_replicas (\<lambda>_. demo_tcp_env) 0 [101, 102, 103] ''u1'' 3 ?d (0, 0) demo_iface of None \<Rightarrow> False | Some (c, b, i) \<Rightarrow> c = 3" by code_simp
  then obtain b iface where w: "write_replicas (\<lambda>_. demo_tcp_env) 0 [101, 102, 103] ''u1'' 3 ?d (0, 0) demo_iface = Some (3, b, iface)"
    by (auto split: option.splits)
  let ?y = "written_entry demo_request demo_file 0 ?d"
  obtain ne fe' where c: "commit_metadata_with_paxos True demo_pe ?y (?fe\<lparr>fe_store := iface\<rparr>) = Some (True, ne, fe')"
    using demo_commit [of ?y "?fe\<lparr>fe_store := iface\<rparr>"] by auto
  have "?y = demo_file\<lparr>fsize := 6, modified_time := rq_time demo_request, version := version demo_file + 1\<rparr>"
    by (simp add: written_entry_def write_at_def max_def word_le_nat_alt)
  with c have wr: "Write demo_request ''/a'' ?d 0 ?fe = Some (\<lparr>wr_status = 0, wr_message = [], wr_bytes = sint b\<rparr>, ne, fe')"
    by (simp add: Write_def demo_path a w Let_def word_less_nat_alt word_le_nat_alt del: write_replicas.simps)
  have at: "write_at demo_file 0 = 3" by (simp add: write_at_def)
  from write_quorum_meets_reads [OF demo_table_inv(1) demo_commit_ok(1) wr] wr show ?thesis
    by (auto simp: demo_path at numeral_3_eq_3)
qed

text \<open>C4: a read returns exactly the value that more than half of the file's replicas return: if there is
  one it is unique and the read succeeds with it, otherwise the read fails. The table is not
  changed.\<close>

theorem get_returns_majority:
  assumes "metadata_lookup_by_path (fe_meta fe) (c_str (normalize_path p)) = Some a" "x = heap (fe_meta fe) a" "num_storage_nodes x \<noteq> 0"
    "replica_ids x = Some ids" "length vs = length ids"
    "\<forall>j<length ids. replica_value (rq_tcp e j) (ids ! j) (file_id x) (word_of_int off) (get_size x off sz) (fe_store fe) = Some (vs ! j)"
  shows "\<exists>r fe'. Get e nf n_env t_env ask p off sz fe = Some (r, [], fe') \<and> fe_meta fe' = fe_meta fe \<and>
    (\<forall>v. gr_status r = 0 \<and> gr_data r = v \<longleftrightarrow> unat (num_storage_nodes x) < 2 * count_list vs (Some v)) \<and> gr_bytes r = int (length (gr_data r))"
  by (rule get_reads_majority [OF assms])

definition demo_reads :: request_env where
  "demo_reads = demo_request\<lparr>rq_tcp := (\<lambda>k. if k < 2 then demo_tcp_env\<lparr>t_data_recvs := [Recv_bytes [7], Recv_bytes [8, 9]]\<rparr> else demo_tcp_env)\<rparr>"

theorem get_returns_majority_witness:
  "\<exists>r fe'. Get demo_reads True None None (\<lambda>_. None) ''/a'' 0 0 (demo_fe demo_table) = Some (r, [], fe') \<and> gr_status r = 0 \<and> gr_data r = [7, 8, 9]"
proof -
  obtain a where a: "metadata_lookup_by_path (fe_meta (demo_fe demo_table)) (c_str (normalize_path ''/a'')) = Some a" "demo_file = heap (fe_meta (demo_fe demo_table)) a"
    using demo_lookup by (auto simp: demo_path)
  let ?vs = "[Some [7, 8, 9], Some [7, 8, 9], Some []] :: byte list option list"
  have sz: "get_size demo_file 0 0 = 3" by (simp add: get_size_def)
  have "\<forall>j \<in> {0, 1, 2}. replica_value (rq_tcp demo_reads j) ([101, 102, 103] ! j) ''u1'' 0 3 demo_iface = Some (?vs ! j)" by code_simp
  then have v: "\<forall>j<length [101 :: u32, 102, 103]. replica_value (rq_tcp demo_reads j) ([101, 102, 103] ! j) (file_id demo_file) (word_of_int 0)
      (get_size demo_file 0 0) (fe_store (demo_fe demo_table)) = Some (?vs ! j)" unfolding sz by (auto simp: less_Suc_eq numeral_3_eq_3 numeral_2_eq_2)
  have "num_storage_nodes demo_file \<noteq> 0" by simp
  from get_returns_majority [OF a this demo_file_simps(6) _ v, of True None None "\<lambda>_. None"]
  obtain r fe' where g: "Get demo_reads True None None (\<lambda>_. None) ''/a'' 0 0 (demo_fe demo_table) = Some (r, [], fe')"
    and m: "\<forall>v. gr_status r = 0 \<and> gr_data r = v \<longleftrightarrow> unat (num_storage_nodes demo_file) < 2 * count_list ?vs (Some v)" by auto
  from spec [OF m, of "[7, 8, 9]"] g show ?thesis by simp
qed

text \<open>When more than half of a file's replicas end the connection without sending data, as storage
  nodes that have lost the file do, the read reports success with no data.\<close>

theorem lost_file_reads_empty:
  assumes "metadata_lookup_by_path (fe_meta fe) (c_str (normalize_path p)) = Some a" "x = heap (fe_meta fe) a"
    "replica_ids x = Some ids" "length vs = length ids" "0 < get_size x off sz"
    "\<forall>j<length ids. replica_value (rq_tcp e j) (ids ! j) (file_id x) (word_of_int off) (get_size x off sz) (fe_store fe) = Some (vs ! j)"
    "J \<subseteq> {..<length ids}" "unat (num_storage_nodes x) < 2 * card J"
    "\<forall>j \<in> J. storage_interface_get_node (fe_store fe) (ids ! j) \<noteq> None \<and> connect_to_storage_node (rq_tcp e j) \<ge> 0 \<and> t_line_send (rq_tcp e j) \<ge> 0 \<and>
       t_malloc (rq_tcp e j) (get_size x off sz) \<and> t_data_recvs (rq_tcp e j) = [Recv_bytes []]"
  shows "\<exists>r fe'. Get e nf n_env t_env ask p off sz fe = Some (r, [], fe') \<and> gr_status r = 0 \<and> gr_data r = [] \<and> gr_bytes r = 0"
proof -
  have "vs ! j = Some []" if "j \<in> J" for j
  proof -
    note lost = bspec [OF assms(9) that]
    obtain nd where nd: "storage_interface_get_node (fe_store fe) (ids ! j) = Some nd" using lost by auto
    have t: "connect_to_storage_node (rq_tcp e j) \<ge> 0" "t_line_send (rq_tcp e j) \<ge> 0" "t_malloc (rq_tcp e j) (get_size x off sz)"
      "t_data_recvs (rq_tcp e j) = map Recv_bytes [] @ Recv_bytes [] # []" using lost by simp_all
    have "length (concat ([] :: byte list list)) < unat (get_size x off sz)" using assms(5) by (simp add: word_less_nat_alt)
    from read_closed [OF nd t _ this, of "file_id x" "word_of_int off"]
    have "replica_value (rq_tcp e j) (ids ! j) (file_id x) (word_of_int off) (get_size x off sz) (fe_store fe) = Some (Some [])"
      by (auto simp: replica_value_def zero_response_def)
    with assms(6,7) that show ?thesis by auto
  qed
  then have "J \<subseteq> {j. j < length vs \<and> Some [] = vs ! j}" using assms(4,7) by auto
  then have "card J \<le> count_list vs (Some [])"
    unfolding count_list_eq_length_filter length_filter_conv_card by (intro card_mono) auto
  with assms(8) have maj: "unat (num_storage_nodes x) < 2 * count_list vs (Some [])" by simp
  have "card J \<le> length ids" using card_mono [OF _ assms(7)] by simp
  then have "num_storage_nodes x \<noteq> 0" using assms(8) replica_ids_length [OF assms(3)] by auto
  from get_reads_majority [OF assms(1,2) this assms(3,4,6), of nf n_env t_env ask]
  obtain r fe' where g: "Get e nf n_env t_env ask p off sz fe = Some (r, [], fe')" "gr_bytes r = int (length (gr_data r))"
    and m: "\<forall>v. gr_status r = 0 \<and> gr_data r = v \<longleftrightarrow> unat (num_storage_nodes x) < 2 * count_list vs (Some v)" by blast
  have "gr_status r = 0 \<and> gr_data r = []" using spec [OF m, of "[]"] maj by (rule iffD2)
  with g show ?thesis by simp
qed

theorem lost_file_reads_empty_witness:
  "\<exists>r fe'. fsize demo_file = 3 \<and> Get demo_request True None None (\<lambda>_. None) ''/a'' 0 0 (demo_fe demo_table) = Some (r, [], fe') \<and>
     gr_status r = 0 \<and> gr_data r = []"
proof -
  obtain a where a: "metadata_lookup_by_path (fe_meta (demo_fe demo_table)) (c_str (normalize_path ''/a'')) = Some a" "demo_file = heap (fe_meta (demo_fe demo_table)) a"
    using demo_lookup by (auto simp: demo_path)
  let ?vs = "[Some [], Some [], Some []] :: byte list option list"
  have sz: "get_size demo_file 0 0 = 3" by (simp add: get_size_def)
  have "\<forall>j \<in> {0, 1, 2}. replica_value (rq_tcp demo_request j) ([101, 102, 103] ! j) ''u1'' 0 3 demo_iface = Some (?vs ! j)" by code_simp
  then have v: "\<forall>j<length [101 :: u32, 102, 103]. replica_value (rq_tcp demo_request j) ([101, 102, 103] ! j) (file_id demo_file) (word_of_int 0)
      (get_size demo_file 0 0) (fe_store (demo_fe demo_table)) = Some (?vs ! j)" unfolding sz by (auto simp: less_Suc_eq numeral_3_eq_3 numeral_2_eq_2)
  have "\<forall>j \<in> {0, 1, 2}. storage_interface_get_node demo_iface ([101, 102, 103] ! j) \<noteq> None" by code_simp
  moreover have "connect_to_storage_node demo_tcp_env \<ge> 0" "t_line_send demo_tcp_env \<ge> 0" "t_malloc demo_tcp_env 3" "t_data_recvs demo_tcp_env = [Recv_bytes []]"
    by (simp_all add: connect_to_storage_node_def demo_tcp_env_def)
  ultimately have J: "\<forall>j \<in> {0, 1, 2}. storage_interface_get_node (fe_store (demo_fe demo_table)) ([101, 102, 103] ! j) \<noteq> None \<and>
      connect_to_storage_node (rq_tcp demo_request j) \<ge> 0 \<and> t_line_send (rq_tcp demo_request j) \<ge> 0 \<and>
      t_malloc (rq_tcp demo_request j) (get_size demo_file 0 0) \<and> t_data_recvs (rq_tcp demo_request j) = [Recv_bytes []]" by (simp add: sz)
  from lost_file_reads_empty [OF a demo_file_simps(6) _ _ v _ _ J, of True None None "\<lambda>_. None"] show ?thesis
    by (auto simp: sz)
qed

section \<open>Further defects\<close>

text \<open>The checks of a creation run before the lock is taken. Two creations of one path that both check
  before either commits both succeed, and the table then holds two live entries with that path.\<close>

theorem concurrent_create_duplicates:
  assumes "frontend_inv fe" "commit_ok e" "Create e p f md fe0 fe = Some ((0, msg), ne, fe')" "learned_in e = {} \<and> memory_left e"
    "y \<in> ran (meta_map (fe_meta fe))" "fstate y \<noteq> FILE_STATE_DELETED" "file_id y \<noteq> take 63 (c_str (rq_uuid e))"
    "fpath y = take 4095 (c_str (join_path (trim_trailing_slash (normalize_path p)) f))"
  shows "\<exists>x. {x, y} \<subseteq> ran (meta_map (fe_meta fe')) \<and> x \<noteq> y \<and> fpath x = fpath y \<and> fstate x = FILE_STATE_ACTIVE"
  using assms(3,1)
proof (cases rule: Create_cases)
  case refused
  then show ?thesis by simp
next
  case (proposed iface')
  let ?x = "created_file e (join_path (trim_trailing_slash (normalize_path p)) f) md (fe_store fe)"
  obtain xs where xs: "table_steps (fe_meta fe) xs (fe_meta fe')" "set xs \<subseteq> {?x}" "?x \<in> set xs"
    using reply_effect [OF proposed(3,2,4) assms(2)] assms(4) by auto
  then have "xs \<noteq> []" by auto
  with xs(1) puts_single [OF xs(2)] have "meta_map (fe_meta fe') = (meta_map (fe_meta fe))(file_id ?x \<mapsto> ?x)"
    by (simp add: table_steps_def)
  moreover have "meta_map (fe_meta fe) (file_id y) = Some y"
    using assms(1,5) ran_file_id by (auto simp: ran_def frontend_inv_def)
  ultimately have "?x \<in> ran (meta_map (fe_meta fe'))" "y \<in> ran (meta_map (fe_meta fe'))" "?x \<noteq> y"
    using assms(7) by (auto simp: ran_def)
  then show ?thesis using assms(8) by (intro exI [of _ ?x]) simp
qed

end
