(* ===== verification/Frontend_Progress.thy ===== *)
theory Frontend_Progress
  imports Frontend_Props
begin

text \<open>
  Requests of the coordinator return: what is needed so that no proposal waits forever and nothing is
  read or written outside its buffer. Messages must announce no more bytes than they carry and than
  an entry has (\<open>wire_safe\<close>), each wait must see its timeout, and each exchange with a storage node
  must end; the well-typed table does the rest.
\<close>

section \<open>Commits\<close>

lemma commit_completes:
  assumes "frontend_inv fe" "entry_wt x" "proposal_ends pe"
  shows "commit_metadata_with_paxos al pe x fe \<noteq> None"
proof -
  have "length (entry_bytes x) = 5400" using length_entry_bytes [OF entry_wtD [OF assms(2)]] .
  then have "value_fits (Some (entry_bytes x)) (of_nat (length (entry_bytes x)))" by (simp add: value_fits_def)
  then have "paxos_propose pe (Some (entry_bytes x)) (of_nat (length (entry_bytes x))) fe \<noteq> None"
    using propose_completes [OF _ _ assms(3)] assms(1) by (simp add: frontend_inv_def)
  then show ?thesis by (cases al) (auto simp: commit_metadata_with_paxos_def metadata_serialize_def)
qed

section \<open>What a proposal does to the table\<close>

text \<open>A relation of the tables before and after that the two callbacks which change the table keep,
  holds across messages, waits and proposals.\<close>

locale table_preorder =
  fixes R :: "metadata_manager \<Rightarrow> metadata_manager \<Rightarrow> bool"
  assumes refl: "R m m"
    and trans: "R m m1 \<Longrightarrow> R m1 m2 \<Longrightarrow> R m m2"
    and persisted: "persist_wal e sq v len m = Some (rc, m') \<Longrightarrow> R m m'"
    and applied: "apply_state_machine e sq v len m = Some m' \<Longrightarrow> R m m'"
begin

abbreviation Rf :: "frontend \<Rightarrow> frontend \<Rightarrow> bool" where
  "Rf fe fe' \<equiv> R (fe_meta fe) (fe_meta fe')"

lemma callbacks: "run_callbacks e cbs fe = Some (ne, fe') \<Longrightarrow> Rf fe fe'"
proof (induction cbs arbitrary: fe ne)
  case (Cons c cbs)
  obtain ne1 fe1 ne2 where r: "run_callback e c fe = Some (ne1, fe1)" "run_callbacks e cbs fe1 = Some (ne2, fe')"
    using Cons.prems by (auto simp: bind_eq_Some_conv)
  have "Rf fe fe1" using r(1) by (cases c) (auto intro: refl persisted applied)
  with Cons.IH [OF r(2)] show ?case using trans by blast
qed (simp add: refl)

lemma message: "handle_network_message e s ty pl fe = Some (ne, fe') \<Longrightarrow> Rf fe fe'"
  by (auto simp: handle_network_message_def bind_eq_Some_conv Let_def case_prod_beta refl dest!: callbacks
      split: if_splits sum.splits wire_error.splits option.splits)

lemma deliveries: "deliver_all ds fe = Some (ne, fe') \<Longrightarrow> Rf fe fe'"
proof (induction ds arbitrary: fe ne)
  case (Cons d ds)
  obtain e s ty pl where d: "d = (e, s, ty, pl)" by (metis prod_cases4)
  with Cons show ?case by (auto simp: bind_eq_Some_conv dest!: message intro: trans)
qed (simp add: refl)

lemma wait: "wait_while c i evs fe = Some (rc, ne, fe') \<Longrightarrow> Rf fe fe'"
proof (induction evs arbitrary: fe ne)
  case Nil
  then show ?case by (auto simp: wait_while.simps [of c i "[]"] refl split: option.splits)
next
  case (Cons ev evs)
  then show ?case
    by (cases ev) (auto simp: wait_while.simps [of c i "z # evs" for z] bind_eq_Some_conv refl
        dest!: deliveries intro: trans split: option.splits if_splits)
qed

lemma propose:
  assumes "paxos_propose pe v len fe = Some (rc, ne, fe')"
  shows "Rf fe fe'"
proof -
  have cb: "Rf fe0 fe1" if "run_callbacks e cbs (fe0\<lparr>fe_paxos := n\<rparr>) = Some (ne, fe1)" for e cbs fe0 n ne fe1
    using callbacks [OF that] by simp
  have "returns (\<lambda>(rc, ne, fe'). Rf fe fe') (paxos_propose pe v len fe)"
    unfolding paxos_propose_def Let_def
    by (intro returns_rules) (auto dest!: cb deliveries wait split: if_splits; meson trans)+
  with assms show ?thesis by (auto dest: returnsD)
qed

lemma commit: "commit_metadata_with_paxos al pe x fe = Some (ok, ne, fe') \<Longrightarrow> Rf fe fe'"
  by (auto simp: commit_metadata_with_paxos_def refl dest!: propose split: option.splits)

end

definition nodes_kept :: "metadata_manager \<Rightarrow> metadata_manager \<Rightarrow> bool" where
  "nodes_kept m m' \<longleftrightarrow> (\<forall>i. set (buckets m i) \<subseteq> set (buckets m' i))"

lemma wal_append_buckets: "wal_append we ptr opr x m = (lsn, m') \<Longrightarrow> buckets m' = buckets m"
  by (auto simp: wal_append_def Let_def split: if_splits option.splits)

interpretation kept: table_preorder nodes_kept
proof unfold_locales
  show "nodes_kept m m" for m by (simp add: nodes_kept_def)
  show "nodes_kept m m1 \<Longrightarrow> nodes_kept m1 m2 \<Longrightarrow> nodes_kept m m2" for m m1 m2 by (auto simp: nodes_kept_def)
  show "persist_wal e sq v len m = Some (rc, m') \<Longrightarrow> nodes_kept m m'" for e sq v len m rc m'
    by (auto simp: persist_wal_def nodes_kept_def dest: wal_append_buckets split: option.splits if_splits prod.splits)
  show "apply_state_machine e sq v len m = Some m' \<Longrightarrow> nodes_kept m m'" for e sq v len m m'
    by (auto simp: apply_state_machine_def metadata_apply_entry_def insert_node_def upd_entry_def nodes_kept_def Let_def
        split: option.splits if_splits)
qed

lemma nodes_kept_concat: "nodes_kept m m' \<Longrightarrow> set (concat (map (buckets m) is)) \<subseteq> set (concat (map (buckets m') is))"
  by (auto simp: nodes_kept_def)

lemma kept_entry:
  assumes "metadata_lookup_by_path m p = Some a" "nodes_kept m m'" "tab_inv m'"
  shows "heap m' a \<in> ran (meta_map m')"
proof -
  define N where "N = (\<lambda>m :: metadata_manager. concat (map (buckets m) [0..<HASH_MAP_SIZE]))"
  obtain nd where "nd \<in> set (N m)" "a = snd nd"
    using assms(1) unfolding metadata_lookup_by_path_def N_def [THEN fun_cong, symmetric] by (auto dest: find_SomeD)
  moreover have "set (N m) \<subseteq> set (N m')" unfolding N_def by (rule nodes_kept_concat [OF assms(2)])
  ultimately have "heap m' a \<in> set (map (\<lambda>nd. heap m' (snd nd)) (N m'))" by auto
  then have "heap m' a \<in> set (all_nodes m')" by (simp only: all_nodes_def N_def)
  then show ?thesis by (simp add: all_nodes_ran [OF assms(3)])
qed

section \<open>Exchanges\<close>

text \<open>An exchange ends: no \<^verbatim>\<open>send\<close> takes nothing, there are calls enough for the data, and the node fails
  or closes the connection some time.\<close>

definition exchange_ends :: "nat \<Rightarrow> tcp_env \<Rightarrow> bool" where
  "exchange_ends n t \<longleftrightarrow> 0 \<notin> set (t_data_sends t) \<and> n \<le> length (t_data_sends t) \<and>
     (\<exists>r \<in> set (t_data_recvs t). r = Recv_failed \<or> r = Recv_bytes [])"

lemma send_all_completes: "length d \<le> length rs \<Longrightarrow> 0 \<notin> set rs \<Longrightarrow> send_all rs d \<noteq> None"
proof (induction rs d rule: send_all.induct)
  case (3 r rs d ds)
  show ?case
  proof (cases "r < 0")
    case False
    then have "0 < r" using "3.prems" by auto
    with 3 show ?thesis by auto
  qed simp
qed simp_all

lemma recv_all_completes: "\<exists>r \<in> set rs. r = Recv_failed \<or> r = Recv_bytes [] \<Longrightarrow> recv_all rs n \<noteq> None"
  by (induction rs n rule: recv_all.induct) (auto split: tcp_recv.splits)

lemma exchanges_complete:
  "exchange_ends n t \<Longrightarrow> length d \<le> n \<Longrightarrow> storage_interface_write t nid fid off d a \<noteq> None"
  "exchange_ends n t \<Longrightarrow> storage_interface_read t nid fid off len a \<noteq> None"
  "storage_interface_delete t nid fid a \<noteq> None"
  using send_all_completes [of d "t_data_sends t"] recv_all_completes [of "t_data_recvs t" "unat len"]
  by (auto simp: exchange_ends_def storage_interface_write_def storage_interface_read_def storage_interface_delete_def Let_def
      split: option.splits tcp_recv.splits)

lemma delete_replicas_complete: "delete_replicas ts k ids fid c a \<noteq> None"
proof (induction ids arbitrary: k c a)
  case (Cons nid ids)
  then show ?case using exchanges_complete(3) [of "ts k" nid fid a] by auto
qed simp

lemma write_replicas_complete:
  "\<forall>k. exchange_ends n (ts k) \<Longrightarrow> length d \<le> n \<Longrightarrow> write_replicas ts k ids fid off d cb a \<noteq> None"
proof (induction ids arbitrary: k cb a)
  case Nil
  then show ?case by (cases cb) simp
next
  case (Cons nid ids)
  then show ?case using exchanges_complete(1) [of n "ts k" d nid fid off a] by (cases cb) (auto split: if_splits)
qed

lemma read_replicas_complete: "\<forall>k. exchange_ends n (ts k) \<Longrightarrow> read_replicas ts k ids fid off sz q cs a \<noteq> None"
proof (induction ids arbitrary: k cs a)
  case (Cons nid ids)
  then show ?case using exchanges_complete(2) [of n "ts k" nid fid off sz a] by (auto simp: Let_def split: option.splits)
qed simp

section \<open>Requests\<close>

lemma reply_completes: "frontend_inv fe \<Longrightarrow> entry_wt x \<Longrightarrow> proposal_ends (rq_propose e) \<Longrightarrow> propose_reply e x fe \<noteq> None"
  using commit_completes by (auto simp: propose_reply_def)

lemma replica_ids_wt: "entry_wt x \<Longrightarrow> replica_ids x \<noteq> None"
  by (simp add: entry_wt_def replica_ids_def)

lemma Create_completes:
  assumes "frontend_inv fe" "proposal_ends (rq_propose e)"
  shows "Create e p f md fe0 fe \<noteq> None"
proof -
  obtain k sel iface where s: "storage_interface_select_nodes 0 MAX_REPLICAS (fe_store fe) = (k, sel, iface)" by (metis prod_cases3)
  have "entry_wt (created_file e q md (fe_store fe))" for q
    using assms(1) by (intro created_file_wt) (simp_all add: frontend_inv_def)
  with reply_completes [OF select_inv [OF assms(1) s] _ assms(2)] show ?thesis
    by (auto simp: Create_def s created_file_def Let_def split: sum.splits)
qed

lemma Mkdir_completes: "frontend_inv fe \<Longrightarrow> proposal_ends (rq_propose e) \<Longrightarrow> Mkdir e p f md fe0 fe \<noteq> None"
  using reply_completes new_entry_wt by (auto simp: Mkdir_def split: sum.splits)

lemma Rmdir_completes:
  assumes "frontend_inv fe" "proposal_ends (rq_propose e)"
  shows "Rmdir e p fe \<noteq> None"
  using reply_completes [OF assms(1) _ assms(2)] looked_up(2) [OF assms(1)]
  by (auto simp: Rmdir_def Let_def split: option.splits)

lemma Remove_completes:
  assumes "frontend_inv fe" "proposal_ends (rq_propose e)"
  shows "Remove e p fe \<noteq> None"
proof (cases "metadata_lookup_by_path (fe_meta fe) (c_str (trim_trailing_slash (normalize_path p)))")
  case (Some a)
  let ?x = "heap (fe_meta fe) a"
  note wt = looked_up(2) [OF assms(1) Some]
  obtain ids where ids: "replica_ids ?x = Some ids" using replica_ids_wt [OF wt] by blast
  obtain c b where d: "delete_replicas (rq_tcp e) 0 ids (file_id ?x) 0 (fe_store fe) = Some (c, b)"
    using delete_replicas_complete by (metis not_None_eq surj_pair)
  have "propose_reply e (deleted_entry e ?x) fe \<noteq> None" "propose_reply e (deleted_entry e ?x) (fe\<lparr>fe_store := b\<rparr>) \<noteq> None"
    using reply_completes [OF _ _ assms(2)] wt assms(1) inv_store [OF assms(1) delete_replicas_nodes [OF d]] by simp_all
  then show ?thesis by (simp add: Remove_def Let_def Some ids d)
qed (simp add: Remove_def Let_def)

lemma Write_completes:
  assumes "frontend_inv fe" "proposal_ends (rq_propose e)" "commit_ok e" "\<forall>k. exchange_ends (length d) (rq_tcp e k)"
  shows "Write e p d off fe \<noteq> None"
proof (cases "metadata_lookup_by_path (fe_meta fe) (c_str (normalize_path p))")
  case (Some a)
  let ?x = "heap (fe_meta fe) a"
  note wt = looked_up(2) [OF assms(1) Some]
  have m: "(if b > c then b else c) = max c b" for b c :: u64 by (auto simp: max_def)
  obtain ids where ids: "replica_ids ?x = Some ids" using replica_ids_wt [OF wt] by blast
  obtain c n b where w: "write_replicas (rq_tcp e) 0 ids (file_id ?x) (write_at ?x off) d (0, 0) (fe_store fe) = Some (c, n, b)"
    using write_replicas_complete [OF assms(4)] by (metis not_None_eq order_refl prod_cases3)
  note i = inv_store [OF assms(1) write_replicas_nodes [OF w]]
  obtain ok ne fe2 where cm: "commit_metadata_with_paxos (rq_malloc e) (rq_propose e) (written_entry e ?x off d) (fe\<lparr>fe_store := b\<rparr>) = Some (ok, ne, fe2)"
    using commit_completes [OF i _ assms(2)] wt by (metis not_None_eq prod_cases3 written_entry_wt)
  have "frontend_inv fe2" using commit_effect [OF cm i _ assms(3)] wt by simp
  then have "entry_wt (heap (fe_meta fe2) a)"
    using kept_entry [OF Some, of "fe_meta fe2"] kept.commit [OF cm] by (auto simp: frontend_inv_def)
  then obtain ids' where "replica_ids (heap (fe_meta fe2) a) = Some ids'" using replica_ids_wt by blast
  moreover have "delete_replicas (rq_cleanup e) 0 ids' (file_id (heap (fe_meta fe2) a)) 0 (fe_store fe2) \<noteq> None"
    by (rule delete_replicas_complete)
  ultimately show ?thesis
    using Some ids w cm unfolding Write_def Let_def write_at_def [symmetric] m written_entry_def [symmetric] by auto
qed (simp add: Write_def)

lemma Get_completes:
  assumes "frontend_inv fe" "\<forall>k. exchange_ends n (rq_tcp e k)"
  shows "Get e nf n_env t_env ask p off sz fe \<noteq> None"
proof (cases "metadata_lookup_by_path (fe_meta fe) (c_str (normalize_path p))")
  case (Some a)
  obtain ids where "replica_ids (heap (fe_meta fe) a) = Some ids" using replica_ids_wt [OF looked_up(2) [OF assms(1) Some]] by blast
  with Some read_replicas_complete [OF assms(2)] show ?thesis by (simp add: Get_def Let_def)
qed (simp add: Get_def Let_def)

section \<open>Properties\<close>

text \<open>C14: every request of a reachable coordinator returns, whatever it asks for: if both waits of its proposal
  see their timeout, no message handled meanwhile announces more bytes than it carries or an entry
  has, and the exchanges with storage nodes end, no request blocks and none reads out of bounds.\<close>

theorem requests_return:
  assumes "fe_reachable fe" "proposal_ends (rq_propose e)" "commit_ok e" "\<forall>k. exchange_ends (length d) (rq_tcp e k)"
  shows "Create e p f md fe0 fe \<noteq> None \<and> Mkdir e p f md fe0 fe \<noteq> None \<and> Remove e p fe \<noteq> None \<and> Rmdir e p fe \<noteq> None \<and>
    Write e p d off fe \<noteq> None \<and> Get e nf n_env t_env ask p off sz fe \<noteq> None"
proof -
  note inv = reachable_inv [OF assms(1)]
  from Create_completes [OF inv assms(2)] Mkdir_completes [OF inv assms(2)] Remove_completes [OF inv assms(2)]
    Rmdir_completes [OF inv assms(2)] Write_completes [OF inv assms(2-4)] Get_completes [OF inv assms(4)]
  show ?thesis by blast
qed

text \<open>No peer answers and the waits time out.\<close>

definition silent_request :: request_env where
  "silent_request = demo_request\<lparr>rq_propose := demo_pe\<lparr>pe_wait1 := [(Woken, []), (ETIMEDOUT, [])], pe_wait2 := [(ETIMEDOUT, [])]\<rparr>\<rparr>"

theorem requests_return_witness:
  "\<exists>fe. fe_reachable fe \<and> Create silent_request ''/'' ''g'' 0x1A4 fe fe \<noteq> None \<and> Write silent_request ''/f'' [1, 2, 3] 0 fe \<noteq> None"
proof -
  obtain fe where fe: "fe_reachable fe" using demo_reachable_file by blast
  have h: "proposal_ends (rq_propose silent_request)" "commit_ok silent_request"
    by (simp_all add: silent_request_def proposal_ends_def times_out_def propose_deliveries_def wait_deliveries_def commit_ok_def)
  have x: "\<forall>k. exchange_ends (length [1 :: byte, 2, 3]) (rq_tcp silent_request k)"
    by (simp add: silent_request_def exchange_ends_def demo_tcp_env_def)
  from requests_return [OF fe h x, of "''/''" "''g''" "0x1A4" fe] requests_return [OF fe h x, of "''/f''" _ _ _ 0] fe
  show ?thesis by blast
qed

end
