(* ===== verification/Frontend_Cluster.thy ===== *)
theory Frontend_Cluster
  imports Frontend_Progress Network_Props
begin

text \<open>
  Several coordinators together: a LEARN message that a coordinator handles is a whole frame that a
  coordinator of the cluster has sent. From this alone every committed entry that is announced is
  well typed, and so are all tables. Messages may be lost, duplicated, delayed and reordered, and
  messages other than LEARN may be anything.
\<close>

section \<open>Frames\<close>

text \<open>Sender, type and payload of the frames among the effects, each received in one piece. Of a frame
  that \<^verbatim>\<open>send\<close> cut short nothing arrives here.\<close>

definition on_wire :: "net_effect list \<Rightarrow> (u32 \<times> u32 \<times> byte list option) set" where
  "on_wire ne = {(hdr_sender_id (header m), mtype (header m), payload m) | fd bs m.
     Sent fd bs \<in> set ne \<and> network_deserialize_message True bs (length bs) = Inr m}"

lemma on_wire_Nil [simp]: "on_wire [] = {}"
  by (simp add: on_wire_def)

lemma on_wire_append [simp]: "on_wire (a @ b) = on_wire a \<union> on_wire b"
  unfolding on_wire_def by auto

lemma on_wire_closed: "set cs \<subseteq> range Closed \<Longrightarrow> on_wire cs = {}"
  by (auto simp: on_wire_def)

lemma frame_payload:
  assumes "network_serialize_message al \<lparr>header = h, payload = Some pl\<rparr> = Inr buf" "magic h = MAGIC_NUMBER"
    "network_deserialize_message True (take k buf) (length (take k buf)) = Inr m"
  shows "payload m = None \<or> (\<exists>n. payload m = Some (take n pl))"
proof (cases "unat (payload_len h) > 0")
  case True
  let ?n = "unat (payload_len h)"
  have buf: "buf = header_bytes h @ take ?n pl" using assms(1) True by (auto simp: network_serialize_message_def Let_def split: if_splits)
  have k: "24 \<le> length (take k buf)" using assms(3) by (auto simp: network_deserialize_message_def split: if_splits)
  then have b: "take k buf = header_bytes h @ take (k - 24) (take ?n pl)" by (simp add: buf codec_simps)
  then have "header_of_bytes (take k buf) = h" by (simp add: codec_simps)
  then have "payload m = Some (slice 24 ?n (take k buf))"
    using assms(3) True k by (auto simp: network_deserialize_message_def Let_def split: if_splits)
  moreover have "slice 24 ?n (take k buf) = take (min ?n (k - 24)) pl"
    by (simp add: b slice_append2 length_header_bytes) (simp add: slice_def min_def)
  ultimately show ?thesis by auto
next
  case False
  then have buf: "buf = header_bytes h" using assms(1) by (auto simp: network_serialize_message_def Let_def split: if_splits)
  have "24 \<le> length (take k buf)" using assms(3) by (auto simp: network_deserialize_message_def split: if_splits)
  then have "take k buf = header_bytes h" by (simp add: buf codec_simps)
  then have "header_of_bytes (take k buf) = h" using header_of_header_bytes [of h "[]"] by simp
  with False assms(3) show ?thesis by (auto simp: network_deserialize_message_def Let_def split: if_splits)
qed

lemma send_payload:
  assumes "network_engine_send e nid ty pl eng = (rc, effs, eng')" "(s, t, p) \<in> on_wire effs"
  shows "p = None \<or> (\<exists>n. p = Some (take n pl))"
proof -
  obtain cs fd bs where c: "effs = cs @ [Sent fd bs]" "set cs \<subseteq> range Closed"
    using send_cases [OF assms(1)] assms(2) on_wire_closed by blast
  obtain i where i: "find_peer eng nid = Some i" using assms(1) c(1) by (auto simp: network_engine_send_def split: option.splits)
  obtain k h buf where b: "bs = take k buf" "magic h = MAGIC_NUMBER" "network_serialize_message (buffer_ok e) \<lparr>header = h, payload = Some pl\<rparr> = Inr buf"
  proof -
    obtain crc ceffs q where q: "(if \<not> connected (network_engine.peers eng i) \<or> socket_fd (network_engine.peers eng i) < 0
        then network_connect_peer e (network_engine.peers eng i) else (0, [], network_engine.peers eng i)) = (crc, ceffs, q)"
      by (metis prod_cases3)
    have qc: "set ceffs \<subseteq> range Closed" using q by (auto simp: network_connect_peer_def split: if_splits)
    have no: "Sent fd bs \<notin> set ceffs" using qc by auto
    have "Sent fd bs \<in> set effs" by (simp add: c(1))
    with assms(1) no have "\<exists>k buf. bs = take k buf \<and> network_serialize_message (buffer_ok e)
        \<lparr>header = frame_header (self_id eng) ty (send_sequence (upd_peer i (\<lambda>_. q) eng)) pl, payload = Some pl\<rparr> = Inr buf"
      unfolding network_engine_send_def i option.case q Let_def prod.case
      by (auto simp: frame_header_def split: if_splits sum.splits)
    with that frame_header_simps(1) show ?thesis by blast
  qed
  obtain m where "network_deserialize_message True bs (length bs) = Inr m" "p = payload m"
    using assms(2) c on_wire_closed [OF c(2)] by (auto simp: on_wire_def)
  with frame_payload [OF b(3,2)] b(1) show ?thesis by simp
qed

lemma broadcast_payload:
  "broadcast_loop es k nids ty pl eng = (n, effs, eng') \<Longrightarrow> (s, t, p) \<in> on_wire effs \<Longrightarrow> p = None \<or> (\<exists>n. p = Some (take n pl))"
proof (induction nids arbitrary: k n effs eng eng')
  case (Cons nid nids)
  obtain rc ef e1 where s: "network_engine_send (es k) nid ty pl eng = (rc, ef, e1)" by (metis prod_cases3)
  obtain n1 ef1 e2 where r: "broadcast_loop es (Suc k) nids ty pl e1 = (n1, ef1, e2)" by (metis prod_cases3)
  have "effs = ef @ ef1" using Cons.prems(1) by (simp add: s r)
  with send_payload [OF s] Cons.IH [OF r] Cons.prems(2) show ?case by auto
qed simp

section \<open>What a coordinator announces\<close>

text \<open>A payload that announces a committed entry only if it is well typed.\<close>

definition carries_wt :: "byte list option \<Rightarrow> bool" where
  "carries_wt pl \<longleftrightarrow> (\<forall>x. learned_entry pl = Some x \<longrightarrow> entry_wt x)"

lemma carries_wt_delivery: "delivery_ok (h, s, ty, pl) \<longleftrightarrow> carries_wt pl"
  by (auto simp: delivery_ok_def carries_wt_def split: option.splits)

definition sound_effects :: "net_effect list \<Rightarrow> bool" where
  "sound_effects ne \<longleftrightarrow> (\<forall>(s, t, p) \<in> on_wire ne. carries_wt p)"

lemma sound_effects_Nil [simp]: "sound_effects []"
  by (simp add: sound_effects_def)

lemma sound_effects_append [simp]: "sound_effects (a @ b) \<longleftrightarrow> sound_effects a \<and> sound_effects b"
  by (simp add: sound_effects_def ball_Un)

text \<open>A value that, if it decodes, is a well-typed entry.\<close>

definition value_wt :: "byte list option \<Rightarrow> u64 \<Rightarrow> bool" where
  "value_wt v len \<longleftrightarrow> v \<noteq> None \<and> (\<forall>x. value_entry v len = Some x \<longrightarrow> entry_wt x)"

definition announces_wt :: "paxos_message \<Rightarrow> bool" where
  "announces_wt msg \<longleftrightarrow> (m_phase msg = PAXOS_PHASE_LEARN \<longrightarrow> value_wt (m_value msg) (m_value_len msg))"

lemma learned_None [simp]: "learned_entry None = None"
  by (simp add: learned_entry_def paxos_deserialize_message_def)

lemma serialized_wt:
  assumes "paxos_serialize_message al ptr pad jk msg = Inr bs" "announces_wt msg"
  shows "carries_wt (Some (take n bs))"
  unfolding carries_wt_def
proof (intro allI impI)
  fix x assume l: "learned_entry (Some (take n bs)) = Some x"
  then obtain m where m: "paxos_deserialize_message True False (take n bs) = Inr m" "m_phase m = PAXOS_PHASE_LEARN"
      "value_entry (m_value m) (m_value_len m) = Some x"
    by (auto simp: learned_entry_def split: sum.splits if_splits)
  obtain rest where bs: "bs = msg_header ptr pad msg @ rest"
      "\<And>v. m_value msg = Some v \<Longrightarrow> rest = take (unat (m_value_len msg)) v \<and> unat (m_value_len msg) \<le> length v"
    using assms(1) by (auto simp: paxos_serialize_message_def Let_def split: if_splits option.splits)
  have h: "length (msg_header ptr pad msg) = 56" by (simp add: msg_header_def codec_simps)
  have n: "56 \<le> n" using m(1) h by (auto simp: paxos_deserialize_message_def bs split: if_splits)
  have t: "take n bs = msg_header ptr pad msg @ take (n - 56) rest" using n h by (simp add: bs)
  have f: "u32_dec (slice 0 4 (take n bs)) = m_phase msg" "u64_dec (slice 48 8 (take n bs)) = m_value_len msg"
    unfolding t by (simp_all add: msg_header_def codec_simps)
  have ph: "m_phase msg = PAXOS_PHASE_LEARN" "m_value_len m = m_value_len msg"
    using m(1,2) f by (auto simp: paxos_deserialize_message_def Let_def split: if_splits)
  have wt: "value_wt (m_value msg) (m_value_len msg)" using assms(2) ph(1) by (simp add: announces_wt_def)
  then obtain v where v: "m_value msg = Some v" by (auto simp: value_wt_def)
  have "m_value_len msg \<noteq> 0" using m(3) ph(2) by (auto simp: value_entry_def split: option.splits if_splits)
  then have pos: "0 < unat (m_value_len msg)" "0 < m_value_len msg" by (simp_all add: unat_gt_0 word_neq_0_conv)
  have mv: "m_value m = Some (slice 56 (unat (m_value_len msg)) (take n bs))" "unat (m_value_len msg) \<le> length (take n bs) - 56"
    using m(1) f pos by (auto simp: paxos_deserialize_message_def Let_def split: if_splits)
  have "slice 56 (unat (m_value_len msg)) (take n bs) = take (unat (m_value_len msg)) v"
    using mv(2) bs(2) [OF v] h by (simp add: t slice_append2) (simp add: slice_def)
  moreover have "value_entry (Some (take (unat (m_value_len msg)) v)) (m_value_len msg) = value_entry (Some v) (m_value_len msg)"
    using bs(2) [OF v] by (simp add: value_entry_def decode_value_def)
  ultimately have "value_entry (m_value msg) (m_value_len msg) = Some x" using m(3) ph(2) mv(1) v by simp
  with wt show "entry_wt x" by (simp add: value_wt_def)
qed

lemma sent_wt:
  assumes "\<And>s t p. (s, t, p) \<in> on_wire effs \<Longrightarrow> p = None \<or> (\<exists>n. p = Some (take n bs))"
    "paxos_serialize_message al ptr pad jk msg = Inr bs" "announces_wt msg"
  shows "sound_effects effs"
  using assms(1) serialized_wt [OF assms(2,3)] by (fastforce simp: sound_effects_def carries_wt_def)

lemma broadcast_sound:
  assumes "paxos_broadcast_message e msg eng = Some (rc, effs, eng')" "announces_wt msg"
  shows "sound_effects effs"
proof (cases "paxos_serialize_message (he_alloc e 1) (he_ptr e) (he_pad e) (he_junk e) msg")
  case (Inl err)
  with assms(1) show ?thesis by (cases err) (auto simp: paxos_broadcast_message_def)
next
  case (Inr bs)
  obtain n where "broadcast_loop (he_sends e) 0 (tbl_ids peer_id (min (num_peers eng) MAX_PEERS) (network_engine.peers eng)) MSG_TYPE_PAXOS bs eng = (n, effs, eng')"
    using assms(1) Inr by (auto simp: paxos_broadcast_message_def network_engine_broadcast_def split: prod.splits)
  from sent_wt [OF broadcast_payload [OF this] Inr assms(2)] show ?thesis .
qed

lemma callbacks_sound:
  "run_callbacks e cbs fe = Some (ne, fe') \<Longrightarrow> \<forall>msg. E_broadcast msg \<in> set cbs \<longrightarrow> announces_wt msg \<Longrightarrow> sound_effects ne"
proof (induction cbs arbitrary: fe ne)
  case (Cons c cbs)
  obtain ne1 fe1 ne2 where r: "run_callback e c fe = Some (ne1, fe1)" "run_callbacks e cbs fe1 = Some (ne2, fe')" "ne = ne1 @ ne2"
    using Cons.prems(1) by (auto simp: bind_eq_Some_conv)
  have "sound_effects ne1" using r(1) Cons.prems(2) by (cases c) (auto intro: broadcast_sound)
  with Cons.IH [OF r(2)] Cons.prems(2) r(3) show ?case by simp
qed simp

section \<open>Messages and proposals\<close>

definition slots_wt :: "paxos_node \<Rightarrow> bool" where
  "slots_wt n \<longleftrightarrow> (\<forall>j. in_use (active_proposals n j) \<longrightarrow> value_wt (proposed_value (active_proposals n j)) (value_len (active_proposals n j)))"

lemma slots_wt_frame: "slot_frame n n' \<Longrightarrow> slots_wt n' = slots_wt n"
  by (simp add: slot_frame_def slots_wt_def)

lemma slots_wt_proposing: "proposing n i v len \<Longrightarrow> value_wt (Some v) len \<Longrightarrow> slots_wt n"
  by (auto simp: proposing_def slots_wt_def)

lemma handle_announces:
  assumes "paxos_handle_message e n msg = (rc, resp, cbs, n')" "slots_wt n"
  shows "(\<forall>m. E_broadcast m \<in> set cbs \<longrightarrow> announces_wt m) \<and> (\<forall>m. resp = Some m \<longrightarrow> announces_wt m)"
  using assms
  by (auto simp: paxos_handle_message_def handler_defs Let_def slots_wt_def announces_wt_def
      dest: proposal_for_in_use split: if_splits option.splits)

lemma message_sound:
  assumes "handle_network_message e s ty pl fe = Some (ne, fe')" "slots_wt (fe_paxos fe)"
  shows "sound_effects ne"
proof (cases "ty \<noteq> MSG_TYPE_PAXOS \<or> (\<exists>err. paxos_deserialize_message (he_alloc e 5) (he_stale e) (case pl of None \<Rightarrow> [] | Some bs \<Rightarrow> bs) = Inl err)")
  case True
  then have "ne = []" using assms(1) by (auto simp: handle_network_message_def split: if_splits sum.splits wire_error.splits)
  then show ?thesis by simp
next
  case False
  then obtain msg where msg: "ty = MSG_TYPE_PAXOS" "paxos_deserialize_message (he_alloc e 5) (he_stale e) (case pl of None \<Rightarrow> [] | Some bs \<Rightarrow> bs) = Inr msg"
    by (meson sum.exhaust)
  obtain rc resp cbs n where h:
    "paxos_handle_message (paxos_answers e (m_value msg) (m_value_len msg) fe) (fe_paxos fe) msg = (rc, resp, cbs, n)"
    by (metis prod_cases4)
  note a = handle_announces [OF h assms(2)]
  obtain ne1 fe1 where r: "run_callbacks e cbs (fe\<lparr>fe_paxos := n\<rparr>) = Some (ne1, fe1)"
    using assms(1) by (auto simp: handle_network_message_def msg h bind_eq_Some_conv)
  have s1: "sound_effects ne1" using callbacks_sound [OF r] a by blast
  have rest: "(case resp of None \<Rightarrow> Some (ne1, fe1)
      | Some m \<Rightarrow> if rc \<noteq> 0 then Some (ne1, fe1)
          else case paxos_serialize_message (he_alloc e 6) (he_ptr e) (he_pad e) (he_junk e) m of
                 Inl Wire_out_of_bounds \<Rightarrow> None | Inl _ \<Rightarrow> Some (ne1, fe1)
               | Inr bs \<Rightarrow> let (rc', ne', eng) = network_engine_send (he_reply e) s MSG_TYPE_PAXOS bs (fe_net fe1)
                           in Some (ne1 @ ne', fe1\<lparr>fe_net := eng\<rparr>)) = Some (ne, fe')"
    using assms(1) by (simp add: handle_network_message_def msg h r)
  show ?thesis
  proof (cases "ne = ne1")
    case False
    then obtain m bs where m: "resp = Some m" "paxos_serialize_message (he_alloc e 6) (he_ptr e) (he_pad e) (he_junk e) m = Inr bs"
      using rest by (auto split: option.splits if_splits sum.splits wire_error.splits)
    obtain rc' ne' eng where n: "network_engine_send (he_reply e) s MSG_TYPE_PAXOS bs (fe_net fe1) = (rc', ne', eng)" by (metis prod_cases3)
    have "ne = ne1 @ ne'" using rest m n False by (auto split: if_splits)
    moreover have "sound_effects ne'" by (rule sent_wt [OF _ m(2)]) (use send_payload [OF n] a m(1) in blast)+
    ultimately show ?thesis using s1 by simp
  qed (use s1 in simp)
qed

lemma deliveries_sound:
  "deliver_all ds fe = Some (ne, fe') \<Longrightarrow> slots_wt (fe_paxos fe) \<Longrightarrow> sound_effects ne \<and> slot_frame (fe_paxos fe) (fe_paxos fe')"
proof (induction ds arbitrary: fe ne)
  case (Cons d ds)
  obtain e s ty pl where d: "d = (e, s, ty, pl)" by (metis prod_cases4)
  obtain ne1 fe1 ne2 where r: "handle_network_message e s ty pl fe = Some (ne1, fe1)" "deliver_all ds fe1 = Some (ne2, fe')" "ne = ne1 @ ne2"
    using Cons.prems(1) by (auto simp: d bind_eq_Some_conv)
  note f = message_frame [OF r(1)]
  with Cons.IH [OF r(2)] message_sound [OF r(1) Cons.prems(2)] Cons.prems(2) slots_wt_frame [OF f] slot_frame_trans [OF f] r(3)
  show ?case by simp
qed simp

lemma wait_sound:
  "wait_while c i evs fe = Some (rc, ne, fe') \<Longrightarrow> slots_wt (fe_paxos fe) \<Longrightarrow> sound_effects ne \<and> slot_frame (fe_paxos fe) (fe_paxos fe')"
proof (induction evs arbitrary: fe ne)
  case Nil
  then show ?case by (auto simp: wait_while.simps [of c i "[]"] split: option.splits)
next
  case (Cons ev evs)
  obtain st ds where ev: "ev = (st, ds)" by fastforce
  let ?w = "paxos_wait_for_condition (fe_paxos fe) c (active_proposals (fe_paxos fe) i)"
  show ?case
  proof (cases "?w []")
    case (Some rc)
    then show ?thesis using Cons.prems(1) by (simp add: wait_while.simps [of c i "ev # evs"])
  next
    case None
    obtain ne1 fe1 where d: "deliver_all ds fe = Some (ne1, fe1)"
      and rest: "(if st = Woken then map_option (\<lambda>(rc, ne', fe2). (rc, ne1 @ ne', fe2)) (wait_while c i evs fe1)
        else map_option (\<lambda>rc. (rc, ne1, fe1)) (?w [(st, active_proposals (fe_paxos fe1) i)])) = Some (rc, ne, fe')"
      using Cons.prems(1) None by (auto simp: ev wait_while.simps [of c i "(st, ds) # evs"] bind_eq_Some_conv)
    note s = deliveries_sound [OF d Cons.prems(2)]
    show ?thesis
    proof (cases "st = Woken")
      case True
      then obtain ne2 where w: "wait_while c i evs fe1 = Some (rc, ne2, fe')" "ne = ne1 @ ne2" using rest by auto
      from Cons.IH [OF w(1)] s Cons.prems(2) slots_wt_frame slot_frame_trans w(2) show ?thesis by auto
    next
      case False
      then have "ne = ne1" "fe' = fe1" using rest by auto
      with s show ?thesis by simp
    qed
  qed
qed

lemma begin_announces: "paxos_propose_begin e n (Some v) len = (slot, cbs, n1) \<Longrightarrow> E_broadcast msg \<in> set cbs \<Longrightarrow> announces_wt msg"
  by (auto simp: paxos_propose_begin_def Let_def case_prod_beta announces_wt_def split: if_splits option.splits)

lemma accept_announces: "paxos_propose_accept e n i pid sq v len rc = (ok, cbs, n1) \<Longrightarrow> E_broadcast msg \<in> set cbs \<Longrightarrow> announces_wt msg"
  by (auto simp: paxos_propose_accept_def Let_def announces_wt_def split: if_splits)

lemma propose_sound:
  assumes "paxos_propose pe (Some v) len fe = Some (rc, ne, fe')" "idle (fe_paxos fe)" "value_wt (Some v) len"
  shows "sound_effects ne"
proof -
  obtain slot cbs1 n1 where b: "paxos_propose_begin (paxos_answers (pe_begin pe) (Some v) len fe) (fe_paxos fe) (Some v) len = (slot, cbs1, n1)"
    by (metis prod_cases3)
  obtain ne1 fe1 where r1: "run_callbacks (pe_begin pe) cbs1 (fe\<lparr>fe_paxos := n1\<rparr>) = Some (ne1, fe1)"
    using assms(1) by (auto simp: paxos_propose_def b bind_eq_Some_conv)
  have s1: "sound_effects ne1" using callbacks_sound [OF r1] begin_announces [OF b] by blast
  show ?thesis
  proof (cases slot)
    case None
    then have "ne = ne1" using assms(1) by (simp add: paxos_propose_def b r1)
    with s1 show ?thesis by simp
  next
    case (Some sl)
    then obtain i pid sq where sl: "slot = Some (i, pid, sq)" by (metis prod_cases3)
    have p1: "proposing (fe_paxos fe1) i v len" using begin_slots [OF b assms(2)] sl run_callbacks_frame [OF r1] by simp
    obtain rc1 ne2 fe2 where w1: "wait_while False i (pe_wait1 pe) fe1 = Some (rc1, ne2, fe2)"
      using assms(1) sl by (auto simp: paxos_propose_def b r1 bind_eq_Some_conv)
    note s2 = wait_sound [OF w1 slots_wt_proposing [OF p1 assms(3)]]
    note p2 = slot_frame_proposing [OF conjunct2 [OF s2] p1]
    obtain ne3 fe3 where g: "(if rc1 = 0 then deliver_all (pe_gap pe) fe2 else Some ([], fe2)) = Some (ne3, fe3)"
      using assms(1) sl w1 by (auto simp: paxos_propose_def b r1 bind_eq_Some_conv)
    have s3: "sound_effects ne3 \<and> slot_frame (fe_paxos fe2) (fe_paxos fe3)"
      using g deliveries_sound [OF _ slots_wt_proposing [OF p2 assms(3)]] by (cases "rc1 = 0") auto
    note p3 = slot_frame_proposing [OF conjunct2 [OF s3] p2]
    obtain a cbs2 n2 where a: "paxos_propose_accept (paxos_answers (pe_accept pe) (Some v) len fe3) (fe_paxos fe3) i pid sq (Some v) len rc1 = (a, cbs2, n2)"
      by (metis prod_cases3)
    obtain ne4 fe4 where r2: "run_callbacks (pe_accept pe) cbs2 (fe3\<lparr>fe_paxos := n2\<rparr>) = Some (ne4, fe4)"
      using assms(1) sl w1 g by (auto simp: paxos_propose_def b r1 a bind_eq_Some_conv)
    have s4: "sound_effects ne4" using callbacks_sound [OF r2] accept_announces [OF a] by blast
    show ?thesis
    proof (cases a)
      case False
      then have "ne = ne1 @ ne2 @ ne3 @ ne4" using assms(1) sl w1 g by (auto simp: paxos_propose_def b r1 a r2)
      with s1 s2 s3 s4 show ?thesis by simp
    next
      case True
      have p4: "proposing (fe_paxos fe4) i v len" using accept_slots [OF a p3] True run_callbacks_frame [OF r2] by simp
      obtain rc2 ne5 fe5 where w2: "wait_while True i (pe_wait2 pe) fe4 = Some (rc2, ne5, fe5)"
        and ne: "ne = ne1 @ ne2 @ ne3 @ ne4 @ ne5"
        using assms(1) sl w1 g True by (auto simp: paxos_propose_def b r1 a r2 bind_eq_Some_conv case_prod_beta)
      from wait_sound [OF w2 slots_wt_proposing [OF p4 assms(3)]] s1 s2 s3 s4 show ?thesis by (simp add: ne)
    qed
  qed
qed

lemma commit_sound:
  assumes "commit_metadata_with_paxos al pe x fe = Some (ok, ne, fe')" "frontend_inv fe" "entry_wt x"
  shows "sound_effects ne"
proof (cases al)
  case False
  with assms(1) show ?thesis by (simp add: commit_metadata_with_paxos_def metadata_serialize_def)
next
  case True
  then obtain rc where p: "paxos_propose pe (Some (entry_bytes x)) (of_nat (length (entry_bytes x))) fe = Some (rc, ne, fe')"
    using assms(1) by (auto simp: commit_metadata_with_paxos_def metadata_serialize_def)
  have "idle (fe_paxos fe)" using assms(2) by (simp add: frontend_inv_def)
  moreover have "value_wt (Some (entry_bytes x)) (of_nat (length (entry_bytes x)))"
    using entry_value [OF entry_wtD [OF assms(3)]] assms(3) by (simp add: value_wt_def)
  ultimately show ?thesis by (rule propose_sound [OF p])
qed

lemma reply_sound: "propose_reply e x fe = Some (r, ne, fe') \<Longrightarrow> frontend_inv fe \<Longrightarrow> entry_wt x \<Longrightarrow> sound_effects ne"
  by (auto simp: propose_reply_def dest: commit_sound)

section \<open>Steps\<close>

text \<open>A step of a coordinator: a handled message or a request, with the messages handled in it and the
  effects on its sockets.\<close>

inductive fe_step :: "delivery list \<Rightarrow> frontend \<Rightarrow> net_effect list \<Rightarrow> frontend \<Rightarrow> bool" where
  handles: "handle_network_message h s ty pl fe = Some (ne, fe') \<Longrightarrow> fe_step [(h, s, ty, pl)] fe ne fe'"
| creates: "Create e p f md fe0 fe = Some (r, ne, fe') \<Longrightarrow> fe_step (propose_deliveries (rq_propose e)) fe ne fe'"
| makes: "Mkdir e p f md fe0 fe = Some (r, ne, fe') \<Longrightarrow> fe_step (propose_deliveries (rq_propose e)) fe ne fe'"
| removes: "Remove e p fe = Some (r, ne, fe') \<Longrightarrow> fe_step (propose_deliveries (rq_propose e)) fe ne fe'"
| rmdirs: "Rmdir e p fe = Some (r, ne, fe') \<Longrightarrow> fe_step (propose_deliveries (rq_propose e)) fe ne fe'"
| writes: "Write e p d off fe = Some (wr, ne, fe') \<Longrightarrow> fe_step (propose_deliveries (rq_propose e)) fe ne fe'"
| gets: "Get e nf n_env t_env ask p off sz fe = Some (gr, ne, fe') \<Longrightarrow> fe_step [] fe ne fe'"
| connects: "fe_step [] fe [] (fe\<lparr>fe_net := eng\<rparr>)"

lemma Create_sound:
  assumes "Create e p f md fe0 fe = Some (r, ne, fe')" "frontend_inv fe"
  shows "sound_effects ne"
proof (cases "creation_check ''Invalid filename'' ''File already exists'' p f (fe_meta fe0)")
  case (Inl err)
  with assms(1) show ?thesis by (simp add: Create_def)
next
  case (Inr full)
  obtain k sel iface' where s: "storage_interface_select_nodes 0 MAX_REPLICAS (fe_store fe) = (k, sel, iface')" by (metis prod_cases3)
  note i = select_inv [OF assms(2) s]
  have wt: "entry_wt (created_file e full md (fe_store fe))" using assms(2) by (simp add: created_file_wt frontend_inv_def)
  show ?thesis
  proof (cases "k \<le> 0")
    case True
    then show ?thesis using assms(1) by (auto simp: Create_def Inr s)
  next
    case False
    with assms(1) have "propose_reply e (created_file e full md (fe_store fe)) (fe\<lparr>fe_store := iface'\<rparr>) = Some (r, ne, fe')"
      by (simp add: Create_def Inr s created_file_def)
    from reply_sound [OF this i wt] show ?thesis .
  qed
qed

lemma Mkdir_sound: "Mkdir e p f md fe0 fe = Some (r, ne, fe') \<Longrightarrow> frontend_inv fe \<Longrightarrow> sound_effects ne"
  by (auto simp: Mkdir_def new_entry_wt dest: reply_sound split: sum.splits)

lemma deleted_sound:
  assumes "frontend_inv fe" "metadata_lookup_by_path (fe_meta fe) q = Some a"
    "propose_reply e (deleted_entry e (heap (fe_meta fe) a)) fe = Some (r, ne, fe')"
  shows "sound_effects ne"
  using reply_sound [OF assms(3,1)] looked_up(2) [OF assms(1,2)] by simp

lemma Rmdir_sound: "Rmdir e p fe = Some (r, ne, fe') \<Longrightarrow> frontend_inv fe \<Longrightarrow> sound_effects ne"
  by (auto simp: Rmdir_def Let_def intro: deleted_sound split: if_splits option.splits)

lemma Remove_sound:
  assumes "Remove e p fe = Some (r, ne, fe')" "frontend_inv fe"
  shows "sound_effects ne"
proof -
  have c: "sound_effects ne" if "metadata_lookup_by_path (fe_meta fe) q = Some a"
    "propose_reply e (deleted_entry e (heap (fe_meta fe) a)) (fe\<lparr>fe_store := b\<rparr>) = Some (r, ne, fe')" "same_nodes (fe_store fe) b" for q a b
    using reply_sound [OF that(2) inv_store [OF assms(2) that(3)]] looked_up(2) [OF assms(2) that(1)] by simp
  from assms(1) show ?thesis
    by (auto simp: Remove_def Let_def bind_eq_Some_conv split: if_splits option.splits intro: c deleted_sound [OF assms(2)] dest: delete_replicas_nodes)
qed

lemma Write_sound:
  assumes "Write e p d off fe = Some (r, ne, fe')" "frontend_inv fe"
  shows "sound_effects ne"
proof (cases "metadata_lookup_by_path (fe_meta fe) (c_str (normalize_path p))")
  case None
  then show ?thesis using assms(1) by (auto simp: Write_def)
next
  case (Some a)
  let ?x = "heap (fe_meta fe) a"
  have m: "(if b > c then b else c) = max c b" for b c :: u64 by (auto simp: max_def)
  have c: "sound_effects ne'" if "write_replicas (rq_tcp e) 0 ids fid off' d (0, 0) (fe_store fe) = Some (c, bytes, iface)"
    "commit_metadata_with_paxos (rq_malloc e) (rq_propose e) (written_entry e ?x off d) (fe\<lparr>fe_store := iface\<rparr>) = Some (ok, ne', fe2)"
    for ids fid off' c bytes iface ok ne' fe2
    using commit_sound [OF that(2) inv_store [OF assms(2) write_replicas_nodes [OF that(1)]]] looked_up(2) [OF assms(2) Some] by simp
  from assms(1) Some show ?thesis
    unfolding Write_def Let_def write_at_def [symmetric] m written_entry_def [symmetric]
    by (auto simp: bind_eq_Some_conv split: if_splits dest: c)
qed

text \<open>Whatever messages it handles, a coordinator announces well-typed entries only.\<close>

lemma step_sound: "fe_step ds fe ne fe' \<Longrightarrow> frontend_inv fe \<Longrightarrow> sound_effects ne"
proof (induction rule: fe_step.induct)
  case (handles h s ty pl fe ne fe')
  have "slots_wt (fe_paxos fe)" using handles.prems by (simp add: frontend_inv_def idle_def slots_wt_def)
  with message_sound [OF handles.hyps] show ?case .
next
  case (gets e nf n_env t_env ask p off sz fe gr ne fe')
  then have "ne = []" by (auto simp: Get_def Let_def bind_eq_Some_conv split: option.splits if_splits)
  then show ?case by simp
qed (auto dest: Create_sound Mkdir_sound Remove_sound Rmdir_sound Write_sound)

lemma step_inv: "fe_step ds fe ne fe' \<Longrightarrow> frontend_inv fe \<Longrightarrow> \<forall>d \<in> set ds. delivery_ok d \<Longrightarrow> frontend_inv fe'"
proof (induction rule: fe_step.induct)
  case (connects fe eng)
  then show ?case by (simp add: frontend_inv_def)
next
  case (handles h s ty pl fe ne fe')
  then show ?case using message_inv by simp
qed (auto simp: commit_ok_def dest: Create_inv Mkdir_inv Remove_inv Rmdir_inv Write_inv Get_inv)

section \<open>The cluster\<close>

text \<open>The states of the coordinators of a cluster (\<open>member\<close>) and the payloads they have sent (\<open>announced\<close>). What
  a request sends before it ends counts as sent by the same request cut off at that point, with its
  waits timed out; so a message never depends on one that is sent later.\<close>

inductive member :: "frontend \<Rightarrow> bool" and announced :: "byte list option \<Rightarrow> bool" where
  start: "initialize_distributed_system se nid lport total_n addrs = Some (Some fe) \<Longrightarrow>
    \<forall>s. se_nodes se = Some s \<longrightarrow> CHR 0x00 \<notin> set s \<Longrightarrow> member fe"
| step: "member fe \<Longrightarrow> fe_step ds fe ne fe' \<Longrightarrow>
    \<forall>h s ty pl. (h, s, ty, pl) \<in> set ds \<and> learned_entry pl \<noteq> None \<longrightarrow> announced pl \<Longrightarrow> member fe'"
| announce: "member fe \<Longrightarrow> fe_step ds fe ne fe' \<Longrightarrow>
    \<forall>h s ty pl. (h, s, ty, pl) \<in> set ds \<and> learned_entry pl \<noteq> None \<longrightarrow> announced pl \<Longrightarrow>
    (s', ty', pl') \<in> on_wire ne \<Longrightarrow> announced pl'"

lemma member_inv:
  shows "member fe \<Longrightarrow> frontend_inv fe" and "announced pl \<Longrightarrow> carries_wt pl"
proof (induction fe and pl rule: member_announced.inducts)
  case (start se nid lport total_n addrs fe)
  then show ?case using start_inv by blast
next
  case (step fe ds ne fe')
  have "\<forall>d \<in> set ds. delivery_ok d"
  proof (clarify)
    fix h s ty pl assume d: "(h, s, ty, pl) \<in> set ds"
    have "carries_wt pl" if "learned_entry pl \<noteq> None" using step.IH(2) d that by blast
    then show "delivery_ok (h, s, ty, pl)" by (auto simp: carries_wt_delivery carries_wt_def)
  qed
  with step_inv [OF step.hyps(2)] step.IH(1) show ?case by blast
next
  case (announce fe ds ne fe' s' ty' pl')
  then show ?case using step_sound [OF announce.hyps(2)] by (auto simp: sound_effects_def)
qed

lemma demo_member_file: "\<exists>fe x. member fe \<and> x \<in> ran (meta_map (fe_meta fe)) \<and> fpath x = ''/f''"
proof -
  obtain fe ne fe' x where d: "initialize_distributed_system demo_start 1 8001 3 [] = Some (Some fe)"
    "Create demo_request ''/'' ''f'' 0x1A4 fe fe = Some ((0, []), ne, fe')" "x \<in> ran (meta_map (fe_meta fe'))" "fpath x = ''/f''"
    using demo_created_file by blast
  have "member fe" by (rule member_announced.start [OF d(1)]) (simp add: demo_start_def)
  moreover have "learned_entry pl = None" if "(h, s, ty, pl) \<in> set (propose_deliveries demo_pe)" for h s ty pl
    using demo_commit_ok(2) that by (cases "learned_entry pl") (auto simp: learned_def)
  ultimately have "member fe'" using member_announced.step [OF _ fe_step.creates [OF d(2)]] by (metis demo_request_simps(1))
  with d(3,4) show ?thesis by blast
qed

section \<open>Properties\<close>

text \<open>C1: the invariant of a coordinator in a cluster: whatever requests are made, whatever storage nodes and
  the host answer (failing allocations included) and however handled messages interleave with a
  request, the table is well formed, its entries are well typed, the node table is in bounds and no
  proposal slot stays in use after a request has returned. The one condition is on LEARN messages: each
  is a frame that a coordinator of the cluster, itself in such a state, has sent and that arrived whole;
  all other messages may be anything. Nothing is assumed of the entries that LEARN messages carry.\<close>

theorem frontend_reachable_invariant:
  assumes "member fe"
  shows "frontend_inv fe"
  by (rule member_inv(1) [OF assms])

theorem frontend_reachable_invariant_witness:
  "\<exists>fe x. member fe \<and> x \<in> ran (meta_map (fe_meta fe)) \<and> fpath x = ''/f'' \<and> frontend_inv fe"
  using demo_member_file frontend_reachable_invariant by blast

text \<open>C15: the table of a coordinator in a cluster is well typed, also where its entries come from other
  coordinators, whose messages it does not check: every string fits its array with its terminator, the
  entry can be decoded exactly from its bytes, the number of replicas stays within the array of their
  ids, so no loop over the replicas reads beyond it, and the quorum is more than half of the replicas
  without overflow. The one condition is that a LEARN message that is handled is a frame some coordinator of the
  cluster has sent and that arrived whole.\<close>

theorem table_well_typed:
  assumes "member fe" "x \<in> ran (meta_map (fe_meta fe))"
  shows "length (file_id x) < 64 \<and> length (fpath x) < 4096 \<and> metadata_deserialize True (entry_bytes x) = Inr x \<and>
    (\<exists>ids. replica_ids x = Some ids \<and> length ids \<le> unat (num_storage_nodes x) \<and> 0 \<notin> set ids) \<and>
    unat (num_storage_nodes x) \<le> 16 \<and> unat (num_storage_nodes x) < 2 * unat (quorum_required x)"
proof -
  have wt: "entry_wt x" using member_inv(1) [OF assms(1)] assms(2) by (auto simp: frontend_inv_def)
  note ok = entry_wtD [OF wt]
  have n: "unat (num_storage_nodes x) \<le> 16" using wt by (simp add: entry_wt_def entry_ok_def)
  have "unat (num_storage_nodes x) div 2 < 4294967295" using n by linarith
  then have "unat (quorum_required x) = unat (num_storage_nodes x) div 2 + 1"
    using unat_add_lem [of "num_storage_nodes x div 2" "1 :: u32"] by (simp add: quorum_required_def unat_div)
  then have "unat (num_storage_nodes x) < 2 * unat (quorum_required x)" by simp
  moreover obtain ids where ids: "replica_ids x = Some ids" using replica_ids_wt [OF wt] by blast
  then have "ids = filter (\<lambda>n. n \<noteq> 0) (take (unat (num_storage_nodes x)) (storage_nodes x))" by (auto simp: replica_ids_def split: if_splits)
  then have "length ids \<le> unat (num_storage_nodes x)" "0 \<notin> set ids"
    using length_filter_le [of "\<lambda>n. n \<noteq> 0" "take (unat (num_storage_nodes x)) (storage_nodes x)"] by auto
  ultimately show ?thesis
    using ok n ids metadata_deserialize_bytes [OF ok] by (auto simp: entry_ok_def cbuf_ok_def)
qed

theorem table_well_typed_witness:
  "\<exists>fe x. member fe \<and> x \<in> ran (meta_map (fe_meta fe)) \<and> fpath x = ''/f'' \<and> metadata_deserialize True (entry_bytes x) = Inr x"
  using demo_member_file table_well_typed by blast

end
