(* ===== verification/Frontend_Namespace.thy ===== *)
theory Frontend_Namespace
  imports Frontend_Props
begin

text \<open>
  The names the coordinator manages. While requests run one after the other and no peer interferes
  (\<open>quiet_run\<close>), the live entries of the table form a tree: a path names at most one of them, and each
  lies in the root or in a live directory. A listing shows exactly the children of a directory.
\<close>

section \<open>Live entries\<close>

definition live :: "frontend \<Rightarrow> metadata_entry set" where
  "live fe = {x \<in> ran (meta_map (fe_meta fe)). fstate x \<noteq> FILE_STATE_DELETED}"

definition has_parent :: "metadata_entry set \<Rightarrow> metadata_entry \<Rightarrow> bool" where
  "has_parent L x \<longleftrightarrow> (\<exists>dir name. trimmed dir \<and> is_valid_name_component name \<and> fpath x = join_path dir name \<and>
     (dir = ''/'' \<or> (\<exists>y \<in> L. fpath y = dir \<and> S_ISDIR (fmode y))))"

definition name_tree :: "metadata_entry set \<Rightarrow> bool" where
  "name_tree L \<longleftrightarrow> inj_on fpath L \<and> (\<forall>x \<in> L. has_parent L x)"

lemma valid_name: "is_valid_name_component n \<Longrightarrow> n \<noteq> [] \<and> CHR ''/'' \<notin> set n"
  by (auto simp: is_valid_name_component_def split: if_splits)

lemma child_path_trimmed: "has_parent L x \<Longrightarrow> trimmed (fpath x)"
  using valid_name join_trimmed(2) by (auto simp: has_parent_def)

lemma has_parent_mono:
  assumes "has_parent L x" "\<And>y. y \<in> L \<Longrightarrow> S_ISDIR (fmode y) \<Longrightarrow> \<exists>y' \<in> L'. fpath y' = fpath y \<and> S_ISDIR (fmode y')"
  shows "has_parent L' x"
proof -
  obtain dir name where d: "trimmed dir" "is_valid_name_component name" "fpath x = join_path dir name"
      "dir = ''/'' \<or> (\<exists>y \<in> L. fpath y = dir \<and> S_ISDIR (fmode y))"
    using assms(1) unfolding has_parent_def by blast
  have "dir = ''/'' \<or> (\<exists>y \<in> L'. fpath y = dir \<and> S_ISDIR (fmode y))" using d(4) assms(2) by fastforce
  with d(1-3) show ?thesis unfolding has_parent_def by blast
qed

lemma name_tree_insert:
  assumes "name_tree L" "fpath y \<notin> fpath ` L" "has_parent L y"
  shows "name_tree (insert y L)"
proof -
  have "has_parent (insert y L) x" if "x \<in> insert y L" for x
    using assms(1,3) that by (auto simp: name_tree_def intro: has_parent_mono)
  then show ?thesis using assms(1,2) by (auto simp: name_tree_def)
qed

lemma name_tree_remove:
  assumes "name_tree L" "S_ISDIR (fmode x) \<Longrightarrow> \<forall>z \<in> L. \<forall>n. is_valid_name_component n \<longrightarrow> fpath z \<noteq> join_path (fpath x) n" "x \<in> L"
  shows "name_tree (L - {x})"
proof -
  have "has_parent (L - {x}) z" if z: "z \<in> L" for z
  proof -
    obtain dir name where d: "trimmed dir" "is_valid_name_component name" "fpath z = join_path dir name"
        "dir = ''/'' \<or> (\<exists>y \<in> L. fpath y = dir \<and> S_ISDIR (fmode y))"
      using assms(1) z unfolding name_tree_def has_parent_def by blast
    have "dir = ''/'' \<or> (\<exists>y \<in> L - {x}. fpath y = dir \<and> S_ISDIR (fmode y))"
      using d(4) assms(2) z d(2,3) by (metis DiffI empty_iff insert_iff)
    with d(1-3) show ?thesis unfolding has_parent_def by blast
  qed
  then show ?thesis using assms(1) by (auto simp: name_tree_def inj_on_def)
qed

lemma name_tree_update:
  assumes "name_tree L" "x \<in> L" "fpath y = fpath x" "fmode y = fmode x"
  shows "name_tree (insert y (L - {x}))"
proof -
  have "has_parent (insert y (L - {x})) z" if "has_parent L z" for z
    by (rule has_parent_mono [OF that]) (use assms(3,4) in auto)
  moreover have "has_parent L y" using assms(1-3) by (simp add: name_tree_def has_parent_def)
  moreover have "inj_on fpath (insert y (L - {x}))" using assms(1-3) by (auto simp: name_tree_def inj_on_def)
  ultimately show ?thesis using assms(1) by (auto simp: name_tree_def)
qed

lemma live_put:
  assumes "tab_inv (fe_meta fe)" "meta_map (fe_meta fe') = (meta_map (fe_meta fe))(file_id y \<mapsto> y)"
  shows "live fe' = {x \<in> live fe. file_id x \<noteq> file_id y} \<union> (if fstate y = FILE_STATE_DELETED then {} else {y})"
  using ran_file_id [OF assms(1)] unfolding live_def assms(2) by (auto simp: ran_def split: if_splits)

lemma live_others:
  assumes "tab_inv (fe_meta fe)" "x \<in> live fe"
  shows "{z \<in> live fe. file_id z \<noteq> file_id x} = live fe - {x}"
  using assms(2) ran_file_id [OF assms(1)] by (auto simp: live_def ran_def)

lemma live_put_new:
  assumes "tab_inv (fe_meta fe)" "file_id y \<notin> dom (meta_map (fe_meta fe))" "fstate y \<noteq> FILE_STATE_DELETED"
    "meta_map (fe_meta fe') = (meta_map (fe_meta fe))(file_id y \<mapsto> y)"
  shows "live fe' = insert y (live fe)"
proof -
  have "{x \<in> live fe. file_id x \<noteq> file_id y} = live fe"
    using assms(2) ran_file_id [OF assms(1)] by (auto simp: live_def ran_def)
  with live_put [OF assms(1,4)] assms(3) show ?thesis by auto
qed

lemma live_put_old:
  assumes "tab_inv (fe_meta fe)" "x \<in> live fe" "file_id y = file_id x" "meta_map (fe_meta fe') = (meta_map (fe_meta fe))(file_id y \<mapsto> y)"
  shows "live fe' = (if fstate y = FILE_STATE_DELETED then live fe - {x} else insert y (live fe - {x}))"
  using live_put [OF assms(1,4)] live_others [OF assms(1,2)] assms(3) by auto

section \<open>Requests without interference\<close>

lemma commit_one:
  assumes "commit_metadata_with_paxos al (rq_propose e) x fe = Some (ok, ne, fe')" "frontend_inv fe" "entry_wt x" "undisturbed e"
  shows "\<not> ok \<and> meta_map (fe_meta fe') = meta_map (fe_meta fe) \<or> meta_map (fe_meta fe') = (meta_map (fe_meta fe))(file_id x \<mapsto> x)"
proof -
  obtain xs where xs: "table_steps (fe_meta fe) xs (fe_meta fe')" "set xs \<subseteq> {x}" "ok \<longrightarrow> x \<in> set xs"
    using commit_effect [OF assms(1-3)] assms(4) by (auto simp: undisturbed_def)
  then show ?thesis using puts_single [OF xs(2)] by (cases "xs = []") (simp_all add: table_steps_def)
qed

lemma reply_one:
  assumes "propose_reply e x fe = Some (r, ne, fe')" "frontend_inv fe" "entry_wt x" "undisturbed e"
  shows "fst r \<noteq> 0 \<and> meta_map (fe_meta fe') = meta_map (fe_meta fe) \<or> meta_map (fe_meta fe') = (meta_map (fe_meta fe))(file_id x \<mapsto> x)"
  using assms(1) commit_one [OF _ assms(2-4)] by (fastforce simp: propose_reply_def split: if_splits)

lemma live_same: "meta_map (fe_meta fe') = meta_map (fe_meta fe) \<Longrightarrow> live fe' = live fe"
  by (simp add: live_def)

text \<open>What a change of the table at one entry does to the tree.\<close>

lemma tree_put_new:
  assumes "frontend_inv fe" "name_tree (live fe)" "file_id y \<notin> dom (meta_map (fe_meta fe))" "fstate y \<noteq> FILE_STATE_DELETED"
    "fpath y \<notin> fpath ` live fe" "has_parent (live fe) y"
    "meta_map (fe_meta fe') = meta_map (fe_meta fe) \<or> meta_map (fe_meta fe') = (meta_map (fe_meta fe))(file_id y \<mapsto> y)"
  shows "name_tree (live fe')"
proof -
  have t: "tab_inv (fe_meta fe)" using assms(1) by (simp add: frontend_inv_def)
  from assms(7) show ?thesis
  proof
    assume "meta_map (fe_meta fe') = meta_map (fe_meta fe)"
    from live_same [OF this] assms(2) show ?thesis by simp
  next
    assume "meta_map (fe_meta fe') = (meta_map (fe_meta fe))(file_id y \<mapsto> y)"
    from live_put_new [OF t assms(3,4) this] name_tree_insert [OF assms(2,5,6)] show ?thesis by simp
  qed
qed

lemma tree_put_old:
  assumes "frontend_inv fe" "name_tree (live fe)" "x \<in> live fe" "file_id y = file_id x" "fpath y = fpath x" "fmode y = fmode x"
    "meta_map (fe_meta fe') = meta_map (fe_meta fe) \<or> meta_map (fe_meta fe') = (meta_map (fe_meta fe))(file_id y \<mapsto> y)"
    "fstate y = FILE_STATE_DELETED \<Longrightarrow> S_ISDIR (fmode x) \<Longrightarrow> \<forall>z \<in> live fe. \<forall>n. is_valid_name_component n \<longrightarrow> fpath z \<noteq> join_path (fpath x) n"
  shows "name_tree (live fe')"
proof -
  have t: "tab_inv (fe_meta fe)" using assms(1) by (simp add: frontend_inv_def)
  from assms(7) show ?thesis
  proof
    assume "meta_map (fe_meta fe') = meta_map (fe_meta fe)"
    from live_same [OF this] assms(2) show ?thesis by simp
  next
    assume "meta_map (fe_meta fe') = (meta_map (fe_meta fe))(file_id y \<mapsto> y)"
    from live_put_old [OF t assms(3,4) this] name_tree_remove [OF assms(2) assms(8) assms(3)] name_tree_update [OF assms(2,3,5,6)]
    show ?thesis by (auto split: if_splits)
  qed
qed

section \<open>Creating\<close>

text \<open>A name the table can take: a fresh UUID and a path that fits its array.\<close>

definition name_fits :: "request_env \<Rightarrow> string \<Rightarrow> string \<Rightarrow> frontend \<Rightarrow> bool" where
  "name_fits e p f fe \<longleftrightarrow> take 63 (c_str (rq_uuid e)) \<notin> dom (meta_map (fe_meta fe)) \<and> CHR 0x00 \<notin> set p \<and> CHR 0x00 \<notin> set f \<and>
     length (join_path (trim_trailing_slash (normalize_path p)) f) \<le> 4095"

lemma path_nul: "CHR 0x00 \<notin> set p \<Longrightarrow> c_str (trim_trailing_slash (normalize_path p)) = trim_trailing_slash (normalize_path p)"
proof -
  assume "CHR 0x00 \<notin> set p"
  then have "CHR 0x00 \<notin> set (normalize_path p)" by (auto simp: normalize_path_def)
  then have "CHR 0x00 \<notin> set (trim_trailing_slash (normalize_path p))" by (auto simp: trim_trailing_slash_def dest: in_set_takeD)
  then show ?thesis by (rule c_str_id)
qed

lemma lookup_live:
  assumes "tab_inv (fe_meta fe)" "metadata_lookup_by_path (fe_meta fe) q = Some a"
  shows "heap (fe_meta fe) a \<in> live fe" "fpath (heap (fe_meta fe) a) = q"
  using lookup_by_path_nodes [OF assms(2)] all_nodes_ran [OF assms(1)] by (simp_all add: live_def)

lemma creation_checked:
  assumes "creation_check b x p f (fe_meta fe) = Inr full" "tab_inv (fe_meta fe)" "name_fits e p f fe"
  shows "is_valid_name_component f" "full = join_path (trim_trailing_slash (normalize_path p)) f" "c_str full = full" "full \<notin> fpath ` live fe"
    "trim_trailing_slash (normalize_path p) = ''/'' \<or> (\<exists>y \<in> live fe. fpath y = trim_trailing_slash (normalize_path p) \<and> S_ISDIR (fmode y))"
proof -
  let ?dir = "trim_trailing_slash (normalize_path p)"
  have nul: "CHR 0x00 \<notin> set p" "CHR 0x00 \<notin> set f" using assms(3) by (simp_all add: name_fits_def)
  show f: "is_valid_name_component f" and full: "full = join_path ?dir f"
    using assms(1) by (auto simp: creation_check_def Let_def split: if_splits option.splits)
  show c: "c_str full = full" unfolding full using nul f by (intro c_str_id full_path_nul)
  have "path_is_existing_directory (fe_meta fe) ?dir"
    using assms(1) by (auto simp: creation_check_def Let_def split: if_splits)
  then have "?dir = ''/'' \<or> (\<exists>a. metadata_lookup_by_path (fe_meta fe) ?dir = Some a \<and> S_ISDIR (fmode (heap (fe_meta fe) a)))"
    using path_nul [OF nul(1)] trimmed_normalize [OF normalize_trimmed [of p]] trim_id [OF normalize_trimmed [of p]]
    by (auto simp: path_is_existing_directory_def Let_def split: if_splits option.splits)
  then show "?dir = ''/'' \<or> (\<exists>y \<in> live fe. fpath y = ?dir \<and> S_ISDIR (fmode y))"
    using lookup_live [OF assms(2)] by blast
  have "metadata_lookup_by_path (fe_meta fe) full = None"
    using assms(1) f lookup_by_path_nodes(3) c unfolding full
    by (auto simp: creation_check_def Let_def split: if_splits option.splits)
  then show "full \<notin> fpath ` live fe" using all_nodes_ran [OF assms(2)] by (auto simp: lookup_by_path_None live_def)
qed

lemma new_child:
  assumes "creation_check b x p f (fe_meta fe) = Inr full" "frontend_inv fe" "name_fits e p f fe" "name_tree (live fe)"
    "fpath y = take 4095 (c_str full)" "file_id y = take 63 (c_str (rq_uuid e))" "fstate y = FILE_STATE_ACTIVE"
    "meta_map (fe_meta fe') = meta_map (fe_meta fe) \<or> meta_map (fe_meta fe') = (meta_map (fe_meta fe))(file_id y \<mapsto> y)"
  shows "name_tree (live fe')"
proof -
  have "tab_inv (fe_meta fe)" using assms(2) by (simp add: frontend_inv_def)
  note c = creation_checked [OF assms(1) this assms(3)]
  have path: "fpath y = full" using assms(3,5) c(2,3) by (simp add: name_fits_def)
  moreover have "has_parent (live fe) y"
    unfolding has_parent_def path c(2) using c(1,5) normalize_trimmed by blast
  moreover have "file_id y \<notin> dom (meta_map (fe_meta fe))" using assms(3,6) by (simp add: name_fits_def)
  ultimately show ?thesis using c(4) assms(7) by (intro tree_put_new [OF assms(2,4) _ _ _ _ assms(8)]) simp_all
qed

lemma Mkdir_tree:
  assumes "Mkdir e p f md fe fe = Some (r, ne, fe')" "frontend_inv fe" "undisturbed e" "name_fits e p f fe" "name_tree (live fe)"
  shows "name_tree (live fe')"
proof (cases "creation_check ''Invalid directory name'' ''Directory already exists'' p f (fe_meta fe)")
  case (Inl err)
  with assms(1,5) show ?thesis by (simp add: Mkdir_def)
next
  case (Inr full)
  let ?y = "new_entry e full (S_IFDIR OR md)"
  have "propose_reply e ?y fe = Some (r, ne, fe')" using assms(1) Inr by (simp add: Mkdir_def)
  note m = reply_one [OF this assms(2) new_entry_wt assms(3)]
  show ?thesis
    by (rule new_child [OF Inr assms(2,4,5), of ?y]) (use m in \<open>auto simp: new_entry_def strncpy0_def\<close>)
qed

lemma Create_tree:
  assumes "Create e p f md fe fe = Some (r, ne, fe')" "frontend_inv fe" "undisturbed e" "name_fits e p f fe" "name_tree (live fe)"
  shows "name_tree (live fe')"
proof (cases "creation_check ''Invalid filename'' ''File already exists'' p f (fe_meta fe)")
  case (Inl err)
  with assms(1,5) show ?thesis by (simp add: Create_def)
next
  case (Inr full)
  have full: "full = join_path (trim_trailing_slash (normalize_path p)) f"
    using Inr by (auto simp: creation_check_def Let_def split: if_splits option.splits)
  from assms(1,2) show ?thesis
  proof (cases rule: Create_cases)
    case refused
    with assms(5) live_same [of fe' fe] show ?thesis by simp
  next
    case (proposed iface')
    note m = reply_one [OF proposed(3,2,4) assms(3)]
    show ?thesis
      by (rule new_child [OF Inr assms(2,4,5), of "created_file e full md (fe_store fe)"]) (use m in \<open>auto simp: full\<close>)
  qed
qed

section \<open>Removing and writing\<close>

text \<open>The table after a request that changes the entry of a path; it may be unchanged unless the request
  was successful.\<close>

definition put_at :: "bool \<Rightarrow> frontend \<Rightarrow> string \<Rightarrow> (metadata_entry \<Rightarrow> metadata_entry) \<Rightarrow> (metadata_entry \<Rightarrow> bool) \<Rightarrow> frontend \<Rightarrow> bool" where
  "put_at success fe q g ok fe' \<longleftrightarrow> \<not> success \<and> meta_map (fe_meta fe') = meta_map (fe_meta fe) \<or>
     (\<exists>x \<in> live fe. fpath x = q \<and> ok x \<and> meta_map (fe_meta fe') = (meta_map (fe_meta fe))(file_id x \<mapsto> g x))"

lemma put_at_same [simp]: "meta_map (fe_meta fe') = meta_map (fe_meta fe) \<Longrightarrow> \<not> success \<Longrightarrow> put_at success fe q g ok fe'"
  by (simp add: put_at_def)

lemma put_at_commit:
  assumes "commit_metadata_with_paxos al (rq_propose e) (g x) fe1 = Some (b, ne, fe')" "frontend_inv fe1" "undisturbed e"
    "fe_meta fe1 = fe_meta fe" "metadata_lookup_by_path (fe_meta fe) q = Some a" "x = heap (fe_meta fe) a"
    "file_id (g x) = file_id x" "entry_wt (g x) = entry_wt x" "ok x"
  shows "put_at b fe q g ok fe'"
proof -
  have t: "tab_inv (fe_meta fe)" using assms(2,4) by (simp add: frontend_inv_def)
  have "entry_wt x" using looked_up(2) [OF assms(2)] assms(4-6) by simp
  with commit_one [OF assms(1,2) _ assms(3)] assms(4,7,8) lookup_live [OF t assms(5)] assms(6,9) show ?thesis
    by (auto simp: put_at_def)
qed

lemma put_at_reply:
  assumes "propose_reply e (g x) fe1 = Some (r, ne, fe')" "frontend_inv fe1" "undisturbed e" "fe_meta fe1 = fe_meta fe"
    "metadata_lookup_by_path (fe_meta fe) q = Some a" "x = heap (fe_meta fe) a" "file_id (g x) = file_id x" "entry_wt (g x) = entry_wt x" "ok x"
  shows "put_at (fst r = 0) fe q g ok fe'"
proof -
  obtain b where b: "commit_metadata_with_paxos (rq_malloc e) (rq_propose e) (g x) fe1 = Some (b, ne, fe')" "fst r = 0 \<longleftrightarrow> b"
    using assms(1) by (auto simp: propose_reply_def split: if_splits)
  from put_at_commit [where g = g and ok = ok, OF b(1) assms(2-9)] b(2) show ?thesis by simp
qed

lemma deleted_entry_fields [simp]:
  "file_id (deleted_entry e x) = file_id x" "fpath (deleted_entry e x) = fpath x" "fmode (deleted_entry e x) = fmode x"
  "fstate (deleted_entry e x) = FILE_STATE_DELETED"
  by (simp_all add: deleted_entry_def)

lemma Rmdir_put:
  assumes "Rmdir e p fe = Some (r, ne, fe')" "frontend_inv fe" "undisturbed e"
  shows "put_at (fst r = 0) fe (c_str (trim_trailing_slash (normalize_path p))) (deleted_entry e)
    (\<lambda>x. S_ISDIR (fmode x) \<and> \<not> directory_has_children (fe_meta fe) (trim_trailing_slash (normalize_path p))) fe'"
  using assms(1) put_at_reply [OF _ assms(2,3) refl, where g = "deleted_entry e"]
  by (auto simp: Rmdir_def Let_def split: if_splits option.splits)

lemma Remove_put:
  assumes "Remove e p fe = Some (r, ne, fe')" "frontend_inv fe" "undisturbed e"
  shows "put_at (fst r = 0) fe (c_str (trim_trailing_slash (normalize_path p))) (deleted_entry e) (\<lambda>x. \<not> S_ISDIR (fmode x)) fe'"
proof -
  let ?q = "c_str (trim_trailing_slash (normalize_path p))"
  have c: "put_at (fst r = 0) fe ?q (deleted_entry e) (\<lambda>x. \<not> S_ISDIR (fmode x)) fe'"
    if "metadata_lookup_by_path (fe_meta fe) ?q = Some a" "propose_reply e (deleted_entry e (heap (fe_meta fe) a)) (fe\<lparr>fe_store := b\<rparr>) = Some (r, ne, fe')"
      "same_nodes (fe_store fe) b" "\<not> S_ISDIR (fmode (heap (fe_meta fe) a))" for a b
    using put_at_reply [where g = "deleted_entry e", OF that(2) inv_store [OF assms(2) that(3)] assms(3) _ that(1)] that(4) by simp
  have "fe = fe\<lparr>fe_store := fe_store fe\<rparr>" by simp
  with c [of _ "fe_store fe"] have n: "put_at (fst r = 0) fe ?q (deleted_entry e) (\<lambda>x. \<not> S_ISDIR (fmode x)) fe'"
    if "metadata_lookup_by_path (fe_meta fe) ?q = Some a" "propose_reply e (deleted_entry e (heap (fe_meta fe) a)) fe = Some (r, ne, fe')"
      "\<not> S_ISDIR (fmode (heap (fe_meta fe) a))" for a using that by simp
  from assms(1) show ?thesis
    by (auto simp: Remove_def Let_def bind_eq_Some_conv split: if_splits option.splits intro: c n dest: delete_replicas_nodes)
qed

lemma Write_put:
  assumes "Write e p d off fe = Some (r, ne, fe')" "frontend_inv fe" "undisturbed e"
  shows "put_at (wr_status r = 0) fe (c_str (normalize_path p)) (\<lambda>x. written_entry e x off d) (\<lambda>_. True) fe'"
proof -
  let ?P = "\<lambda>b fe'. put_at b fe (c_str (normalize_path p)) (\<lambda>x. written_entry e x off d) (\<lambda>_. True) fe'"
  have m: "(if b > c then b else c) = max c b" for b c :: u64 by (auto simp: max_def)
  have c: "?P ok fe2" if "metadata_lookup_by_path (fe_meta fe) (c_str (normalize_path p)) = Some a"
    "write_replicas ts k ids fid o1 d cb (fe_store fe) = Some (n, bytes, iface)"
    "commit_metadata_with_paxos (rq_malloc e) (rq_propose e) (written_entry e (heap (fe_meta fe) a) off d) (fe\<lparr>fe_store := iface\<rparr>) = Some (ok, ne', fe2)"
    for a ts k ids fid o1 cb n bytes iface ok ne' fe2
    by (rule put_at_commit [where g = "\<lambda>x. written_entry e x off d", OF that(3) inv_store [OF assms(2) write_replicas_nodes [OF that(2)]] assms(3) _ that(1) refl])
      (simp_all add: written_entry_def)
  have frame: "?P ok (fe2\<lparr>fe_store := b\<rparr>) = ?P ok fe2" for ok fe2 b by (simp add: put_at_def)
  have "returns (\<lambda>x. ?P (wr_status (fst x) = 0) (snd (snd x))) (Write e p d off fe)"
    unfolding Write_def Let_def write_at_def [symmetric] m written_entry_def [symmetric]
    by (intro returns_rules) (auto simp: frame dest: c)
  with assms(1) show ?thesis by (auto dest: returnsD)
qed

lemma put_at_tree:
  assumes "put_at success fe q g ok fe'" "frontend_inv fe" "name_tree (live fe)" "\<And>x. file_id (g x) = file_id x \<and> fpath (g x) = fpath x \<and> fmode (g x) = fmode x"
    "\<And>x. x \<in> live fe \<Longrightarrow> fpath x = q \<Longrightarrow> ok x \<Longrightarrow> fstate (g x) = FILE_STATE_DELETED \<Longrightarrow> S_ISDIR (fmode x) \<Longrightarrow>
       \<forall>z \<in> live fe. \<forall>n. is_valid_name_component n \<longrightarrow> fpath z \<noteq> join_path (fpath x) n"
  shows "name_tree (live fe')"
proof (cases "meta_map (fe_meta fe') = meta_map (fe_meta fe)")
  case True
  with assms(3) live_same [of fe' fe] show ?thesis by simp
next
  case False
  then obtain x where x: "x \<in> live fe" "fpath x = q" "ok x" "meta_map (fe_meta fe') = (meta_map (fe_meta fe))(file_id x \<mapsto> g x)"
    using assms(1) by (auto simp: put_at_def)
  show ?thesis
    by (rule tree_put_old [OF assms(2,3) x(1), of "g x"]) (use assms(4) [of x] assms(5) [OF x(1-3)] x(4) in auto)
qed

lemma no_children:
  assumes "\<not> directory_has_children (fe_meta fe) dir" "trimmed dir" "tab_inv (fe_meta fe)" "name_tree (live fe)" "z \<in> live fe" "is_valid_name_component n"
  shows "fpath z \<noteq> join_path dir n"
proof
  assume z: "fpath z = join_path dir n"
  have "trim_trailing_slash (fpath z) = join_path dir n"
    using trim_id [OF child_path_trimmed, of "live fe" z] assms(4,5) z by (simp add: name_tree_def)
  then have "is_direct_child_path dir (trim_trailing_slash (fpath z)) = Some n"
    using direct_child_iff [OF assms(2)] valid_name [OF assms(6)] by simp
  with assms(1,5) all_nodes_ran [OF assms(3)] trimmed_normalize [OF assms(2)] trim_id [OF assms(2)] show False
    by (auto simp: directory_has_children_def live_def list_ex_iff)
qed

lemma Rmdir_tree:
  assumes "Rmdir e p fe = Some (r, ne, fe')" "frontend_inv fe" "undisturbed e" "CHR 0x00 \<notin> set p" "name_tree (live fe)"
  shows "name_tree (live fe')"
proof (rule put_at_tree [OF Rmdir_put [OF assms(1-3)] assms(2,5)])
  fix x
  let ?dir = "trim_trailing_slash (normalize_path p)"
  assume "fpath x = c_str ?dir" "S_ISDIR (fmode x) \<and> \<not> directory_has_children (fe_meta fe) ?dir"
  then have x: "fpath x = ?dir" "\<not> directory_has_children (fe_meta fe) ?dir" using path_nul [OF assms(4)] by simp_all
  have "tab_inv (fe_meta fe)" using assms(2) by (simp add: frontend_inv_def)
  with no_children [OF x(2) normalize_trimmed _ assms(5)] x(1)
  show "\<forall>z \<in> live fe. \<forall>n. is_valid_name_component n \<longrightarrow> fpath z \<noteq> join_path (fpath x) n" by simp
qed simp

lemma Remove_tree: "Remove e p fe = Some (r, ne, fe') \<Longrightarrow> frontend_inv fe \<Longrightarrow> undisturbed e \<Longrightarrow> name_tree (live fe) \<Longrightarrow> name_tree (live fe')"
  by (rule put_at_tree [OF Remove_put]) simp_all

lemma Write_tree:
  assumes "Write e p d off fe = Some (r, ne, fe')" "frontend_inv fe" "undisturbed e" "name_tree (live fe)"
  shows "name_tree (live fe')"
  by (rule put_at_tree [OF Write_put [OF assms(1-3)] assms(2,4)]) (auto simp: written_entry_def live_def)

section \<open>Runs\<close>

text \<open>From an empty table, as after a start, one request after the other: a creation checks the state it
  then changes, the messages handled during and between requests announce no changes of other
  coordinators, UUIDs are fresh, paths of new entries fit and hold no NUL, nor do those for \<^verbatim>\<open>rmdir\<close>.\<close>

inductive quiet_run :: "frontend \<Rightarrow> bool" where
  empty: "frontend_inv fe \<Longrightarrow> meta_map (fe_meta fe) = Map.empty \<Longrightarrow> quiet_run fe"
| create: "quiet_run fe \<Longrightarrow> Create e p f md fe fe = Some (r, ne, fe') \<Longrightarrow> undisturbed e \<Longrightarrow> name_fits e p f fe \<Longrightarrow> quiet_run fe'"
| mkdir: "quiet_run fe \<Longrightarrow> Mkdir e p f md fe fe = Some (r, ne, fe') \<Longrightarrow> undisturbed e \<Longrightarrow> name_fits e p f fe \<Longrightarrow> quiet_run fe'"
| remove: "quiet_run fe \<Longrightarrow> Remove e p fe = Some (r, ne, fe') \<Longrightarrow> undisturbed e \<Longrightarrow> quiet_run fe'"
| rmdir: "quiet_run fe \<Longrightarrow> Rmdir e p fe = Some (r, ne, fe') \<Longrightarrow> undisturbed e \<Longrightarrow> CHR 0x00 \<notin> set p \<Longrightarrow> quiet_run fe'"
| written: "quiet_run fe \<Longrightarrow> Write e p d off fe = Some (wr, ne, fe') \<Longrightarrow> undisturbed e \<Longrightarrow> quiet_run fe'"
| message: "quiet_run fe \<Longrightarrow> handle_network_message h s ty pl fe = Some (ne, fe') \<Longrightarrow> learned_entry pl = None \<Longrightarrow> quiet_run fe'"
| got: "quiet_run fe \<Longrightarrow> Get e nf n_env t_env ask p off sz fe = Some (gr, ne, fe') \<Longrightarrow> quiet_run fe'"

lemma Get_table: "Get e nf n_env t_env ask p off sz fe = Some (gr, ne, fe') \<Longrightarrow> fe_meta fe' = fe_meta fe"
  by (auto simp: Get_def Let_def bind_eq_Some_conv split: option.splits if_splits)

lemma quiet_message:
  assumes "handle_network_message h s ty pl fe = Some (ne, fe')" "frontend_inv fe" "learned_entry pl = None"
  shows "frontend_inv fe' \<and> meta_map (fe_meta fe') = meta_map (fe_meta fe)"
proof -
  have ok: "delivery_ok (h, s, ty, pl)" by (simp add: delivery_ok_def assms(3))
  have "ready fe" using assms(2) by (auto simp: frontend_inv_def ready_def pending_def idle_def config_def)
  then obtain xs where h: "handled (learned [(h, s, ty, pl)]) (memory_ok (h, s, ty, pl)) fe xs fe'" using message_handled [OF assms(1) _ ok] by blast
  moreover have "learned [(h, s, ty, pl)] = {}" "pending (fe_paxos fe) = {}"
    using assms(2,3) by (auto simp: learned_def pending_def frontend_inv_def idle_def)
  ultimately have "xs = []" by (auto simp: handled_def)
  with h message_inv [OF assms(1,2) ok] show ?thesis by (simp add: handled_def table_steps_def)
qed

lemma quiet_run_tree: "quiet_run fe \<Longrightarrow> frontend_inv fe \<and> name_tree (live fe)"
proof (induction rule: quiet_run.induct)
  case (empty fe)
  then show ?case by (simp add: live_def name_tree_def)
next
  case create
  then show ?case using Create_inv Create_tree undisturbed_ok by blast
next
  case mkdir
  then show ?case using Mkdir_inv Mkdir_tree undisturbed_ok by blast
next
  case remove
  then show ?case using Remove_inv Remove_tree undisturbed_ok by blast
next
  case rmdir
  then show ?case using Rmdir_inv Rmdir_tree undisturbed_ok by blast
next
  case written
  then show ?case using Write_inv Write_tree undisturbed_ok by blast
next
  case message
  then show ?case using quiet_message by (simp add: live_def)
next
  case (got fe e nf n_env t_env ask p off sz gr ne fe')
  then show ?case using Get_inv Get_table [OF got.hyps(2)] by (auto simp: live_def)
qed

section \<open>Listings\<close>

definition listed :: "string \<Rightarrow> metadata_entry \<Rightarrow> file_entry" where
  "listed n x = \<lparr>e_name = n, e_is_directory = S_ISDIR (fmode x), e_size = sint (fsize x), e_mtime = sint (modified_time x)\<rparr>"

lemma list_children_from: "en \<in> set (list_children dir seen xs) \<Longrightarrow> \<exists>x \<in> set xs. child_of dir x = Some (e_name en) \<and> en = listed (e_name en) x"
  by (induction dir seen xs rule: list_children.induct) (auto simp: child_of_def listed_def split: option.splits if_splits)

lemma child_of_live:
  assumes "name_tree (live fe)" "trimmed dir" "x \<in> ran (meta_map (fe_meta fe))"
  shows "child_of dir x = Some n \<longleftrightarrow> x \<in> live fe \<and> n \<noteq> [] \<and> CHR ''/'' \<notin> set n \<and> fpath x = join_path dir n"
proof -
  have "trim_trailing_slash (fpath x) = fpath x" if "x \<in> live fe"
    using trim_id [OF child_path_trimmed, of "live fe" x] assms(1) that by (simp add: name_tree_def)
  with direct_child_iff [OF assms(2)] assms(3) show ?thesis by (auto simp: child_of_def live_def)
qed

lemma listing_exact:
  assumes "name_tree (live fe)" "trimmed dir" "tab_inv (fe_meta fe)"
  shows "set (list_children dir {} (all_nodes (fe_meta fe))) =
    {listed n x | n x. x \<in> live fe \<and> n \<noteq> [] \<and> CHR ''/'' \<notin> set n \<and> fpath x = join_path dir n}" (is "set ?es = ?L")
proof (intro equalityI subsetI)
  fix en assume "en \<in> set ?es"
  with list_children_from obtain x where "x \<in> set (all_nodes (fe_meta fe))" "child_of dir x = Some (e_name en)" "en = listed (e_name en) x" by blast
  with child_of_live [OF assms(1,2)] all_nodes_ran [OF assms(3)] show "en \<in> ?L" by blast
next
  fix en assume "en \<in> ?L"
  then obtain n x where x: "en = listed n x" "x \<in> live fe" "n \<noteq> []" "CHR ''/'' \<notin> set n" "fpath x = join_path dir n" by blast
  have ran: "x \<in> ran (meta_map (fe_meta fe))" using x(2) by (simp add: live_def)
  with x child_of_live [OF assms(1,2) ran] all_nodes_ran [OF assms(3)]
  have "n \<in> {n. \<exists>x \<in> set (all_nodes (fe_meta fe)). child_of dir x = Some n} - {}" by auto
  then have "n \<in> e_name ` set ?es" using list_children_names [of dir "{}" "all_nodes (fe_meta fe)"] by blast
  then obtain en' where en': "en' \<in> set ?es" "e_name en' = n" by blast
  with list_children_from obtain y where y: "y \<in> set (all_nodes (fe_meta fe))" "child_of dir y = Some n" "en' = listed n y" by blast
  then have "y \<in> live fe" "fpath y = fpath x" using child_of_live [OF assms(1,2)] all_nodes_ran [OF assms(3)] x(5) by auto
  with assms(1) x(2) have "y = x" by (auto simp: name_tree_def inj_on_def)
  with en' y(3) x(1) show "en \<in> set ?es" by simp
qed

section \<open>Properties\<close>

text \<open>C11: under sequential requests with names that fit, the names a coordinator manages form a tree: no
  path names two live entries and every live entry lies in the root or in a live directory, whether
  the requests succeeded or failed. The states are those of \<open>quiet_run\<close>: one coordinator starts with an
  empty table and serves one request after the other (a creation checks the state it then changes), in
  any order and interleaved with any messages except those that announce changes of other
  coordinators; it has memory to apply what it commits; new entries get fresh UUIDs and paths of less
  than 4096 bytes without NUL, and the paths given to \<^verbatim>\<open>rmdir\<close> have no NUL. (Longer paths are cut off, and
  concurrent creations can duplicate a path: \<open>concurrent_create_duplicates\<close>.)\<close>

theorem namespace_is_tree:
  assumes "quiet_run fe"
  shows "frontend_inv fe \<and> inj_on fpath (live fe) \<and>
    (\<forall>x \<in> live fe. \<exists>dir name. is_valid_name_component name \<and> fpath x = join_path dir name \<and>
       (dir = ''/'' \<or> (\<exists>y \<in> live fe. fpath y = dir \<and> S_ISDIR (fmode y))))"
  using quiet_run_tree [OF assms] unfolding name_tree_def has_parent_def by blast

lemma demo_quiet: "\<exists>fe x. quiet_run fe \<and> x \<in> live fe \<and> fpath x = ''/f''"
proof -
  let ?fe = "demo_fe (empty_manager [])"
  have inv: "frontend_inv ?fe" by (rule demo_inv) simp_all
  obtain ne fe' where c: "Create demo_request ''/'' ''f'' 0x1A4 ?fe ?fe = Some ((0, []), ne, fe')" using demo_create by blast
  have q: "undisturbed demo_request" by simp
  have "name_fits demo_request ''/'' ''f'' ?fe" by (simp add: name_fits_def demo_names)
  then have run: "quiet_run fe'" using quiet_run.create [OF quiet_run.empty c q] inv by simp
  let ?x = "created_file demo_request ''/f'' 0x1A4 demo_iface"
  have "meta_map (fe_meta fe') = (meta_map (empty_manager []))(file_id ?x \<mapsto> ?x)"
    using Create_puts [OF c _ inv] by (simp add: demo_names)
  then have "?x \<in> live fe'" by (auto simp: live_def ran_def)
  moreover have "fpath ?x = ''/f''" by (simp add: c_str_def)
  ultimately show ?thesis using run by blast
qed

theorem namespace_is_tree_witness:
  "\<exists>fe x. quiet_run fe \<and> x \<in> live fe \<and> fpath x = ''/f'' \<and> inj_on fpath (live fe)"
proof -
  obtain fe x where "quiet_run fe" "x \<in> live fe" "fpath x = ''/f''" using demo_quiet by blast
  with namespace_is_tree [of fe] show ?thesis by blast
qed

text \<open>C12: in the states of \<open>quiet_run\<close> a listing is exact (sequential requests on one coordinator from an
  empty table, no changes of other coordinators learned, memory to apply committed entries, fresh
  UUIDs, new paths of less than 4096 bytes, no NUL in paths): for a path without NUL that is the root or a
  live directory it succeeds and shows each live child once, with its name, kind, size and time, and
  nothing else; for any other path without NUL it fails with no entries.\<close>

theorem listing_is_exact:
  assumes "quiet_run fe" "CHR 0x00 \<notin> set p" "dir = trim_trailing_slash (normalize_path p)"
  shows "if dir = ''/'' \<or> (\<exists>y \<in> live fe. fpath y = dir \<and> S_ISDIR (fmode y))
    then \<exists>es. ReadDirectory p fe = (0, [], es) \<and> distinct (map e_name es) \<and>
      set es = {listed n x | n x. x \<in> live fe \<and> n \<noteq> [] \<and> CHR ''/'' \<notin> set n \<and> fpath x = join_path dir n}
    else \<exists>msg. ReadDirectory p fe = (- errno_code ENOENT, msg, []) \<or> ReadDirectory p fe = (- errno_code ENOTDIR, msg, [])"
proof -
  have t: "name_tree (live fe)" "tab_inv (fe_meta fe)" using quiet_run_tree [OF assms(1)] by (simp_all add: frontend_inv_def)
  have dir: "trimmed dir" "c_str dir = dir" "trim_trailing_slash dir = dir" using path_nul [OF assms(2)] by (simp_all add: assms(3) trim_id)
  let ?es = "list_children dir {} (all_nodes (fe_meta fe))"
  have R: "ReadDirectory p fe = (if dir = ''/'' then (0, [], ?es) else case metadata_lookup_by_path (fe_meta fe) dir of
      None \<Rightarrow> (- errno_code ENOENT, ''Directory not found'', [])
    | Some a \<Rightarrow> if \<not> S_ISDIR (fmode (heap (fe_meta fe) a)) then (- errno_code ENOTDIR, ''Not a directory'', []) else (0, [], ?es))"
    using dir by (auto simp: ReadDirectory_def Let_def assms(3) split: option.splits)
  have good: "distinct (map e_name ?es)" using list_children_names by blast
  note es = listing_exact [OF t(1) dir(1) t(2)]
  show ?thesis
  proof (cases "metadata_lookup_by_path (fe_meta fe) dir")
    case None
    then have "\<not> (\<exists>y \<in> live fe. fpath y = dir)" using all_nodes_ran [OF t(2)] by (auto simp: lookup_by_path_None live_def)
    with None R good es show ?thesis by auto
  next
    case (Some a)
    note l = lookup_live [OF t(2) Some]
    then have "(\<exists>y \<in> live fe. fpath y = dir \<and> S_ISDIR (fmode y)) \<longleftrightarrow> S_ISDIR (fmode (heap (fe_meta fe) a))"
      using t(1) by (auto simp: name_tree_def inj_on_def)
    with Some R good es show ?thesis by auto
  qed
qed

theorem listing_is_exact_witness:
  "\<exists>fe es en. quiet_run fe \<and> ReadDirectory ''/'' fe = (0, [], es) \<and> en \<in> set es \<and> e_name en = ''f''"
proof -
  obtain fe x where q: "quiet_run fe" "x \<in> live fe" "fpath x = ''/f''" using demo_quiet by blast
  obtain es where es: "ReadDirectory ''/'' fe = (0, [], es)"
    "set es = {listed n x | n x. x \<in> live fe \<and> n \<noteq> [] \<and> CHR ''/'' \<notin> set n \<and> fpath x = join_path ''/'' n}"
    using listing_is_exact [OF q(1) _ demo_names(1) [symmetric]] by auto
  have "listed ''f'' x \<in> set es" unfolding es(2) using q(2,3) demo_names(2) by (intro CollectI exI [of _ "''f''"] exI [of _ x]) simp
  moreover have "e_name (listed ''f'' x) = ''f''" by (simp add: listed_def)
  ultimately show ?thesis using q(1) es(1) by blast
qed

end
