(* ===== verification/Frontend_Refinement.thy ===== *)
theory Frontend_Refinement
  imports Frontend_Namespace
begin

text \<open>
  The abstract name service the coordinator implements: a map from paths to directories and files
  with their sizes, and what each request may do to it (\<open>ns_step\<close>). Under sequential requests every
  request refines its step.
\<close>

section \<open>The abstract name service\<close>

datatype ns_node = NDir | NFile u64

type_synonym name_space = "string \<rightharpoonup> ns_node"

datatype ns_request =
    NCreate string string
  | NMkdir string string
  | NRemove string
  | NRmdir string
  | NWrite string int nat

definition ns_directory :: "name_space \<Rightarrow> string \<Rightarrow> bool" where
  "ns_directory A p \<longleftrightarrow> p = ''/'' \<or> A p = Some NDir"

definition ns_enter :: "string \<Rightarrow> string \<Rightarrow> ns_node \<Rightarrow> name_space \<Rightarrow> name_space option" where
  "ns_enter dir name v A =
     (if is_valid_name_component name \<and> ns_directory A dir \<and> A (join_path dir name) = None
      then Some (A(join_path dir name \<mapsto> v)) else None)"

definition size_after :: "int \<Rightarrow> nat \<Rightarrow> u64 \<Rightarrow> u64" where
  "size_after off len n = max n ((if off = 0 \<and> n > 0 then n else word_of_int off) + of_nat len)"

text \<open>\<^term>\<open>None\<close>: the request must be refused.\<close>

fun ns_step :: "ns_request \<Rightarrow> name_space \<Rightarrow> name_space option" where
  "ns_step (NCreate dir name) A = ns_enter dir name (NFile 0) A"
| "ns_step (NMkdir dir name) A = ns_enter dir name NDir A"
| "ns_step (NRemove p) A = (case A p of Some (NFile n) \<Rightarrow> Some (A(p := None)) | _ \<Rightarrow> None)"
| "ns_step (NRmdir p) A =
     (if A p = Some NDir \<and> (\<forall>q \<in> dom A. \<forall>n. is_valid_name_component n \<longrightarrow> q \<noteq> join_path p n) then Some (A(p := None)) else None)"
| "ns_step (NWrite p off len) A =
     (case A p of None \<Rightarrow> None | Some NDir \<Rightarrow> Some A | Some (NFile n) \<Rightarrow> Some (A(p \<mapsto> NFile (size_after off len n))))"

section \<open>The abstraction\<close>

definition node_of :: "metadata_entry \<Rightarrow> ns_node" where
  "node_of x = (if S_ISDIR (fmode x) then NDir else NFile (fsize x))"

definition names :: "frontend \<Rightarrow> name_space" where
  "names fe p = map_option (\<lambda>a. node_of (heap (fe_meta fe) a)) (metadata_lookup_by_path (fe_meta fe) p)"

abbreviation tidy :: "frontend \<Rightarrow> bool" where
  "tidy fe \<equiv> tab_inv (fe_meta fe) \<and> name_tree (live fe)"

lemma names_iff:
  assumes "tidy fe"
  shows "names fe p = Some v \<longleftrightarrow> (\<exists>x \<in> live fe. fpath x = p \<and> node_of x = v)"
proof (cases "metadata_lookup_by_path (fe_meta fe) p")
  case None
  then have "\<not> (\<exists>x \<in> live fe. fpath x = p)" using assms all_nodes_ran [of "fe_meta fe"] by (auto simp: lookup_by_path_None live_def)
  with None show ?thesis by (auto simp: names_def)
next
  case (Some a)
  with lookup_live [of fe p a] assms show ?thesis by (auto simp: names_def name_tree_def inj_on_def)
qed

lemma names_None: "tidy fe \<Longrightarrow> names fe p = None \<longleftrightarrow> p \<notin> fpath ` live fe"
  using names_iff [of fe p] by (cases "names fe p") auto

lemma option_eqI: "(\<And>v. a = Some v \<longleftrightarrow> b = Some v) \<Longrightarrow> a = b"
  by (cases a; cases b) auto

lemma names_insert:
  assumes "tidy fe" "tidy fe'" "live fe' = insert y (live fe)" "fpath y \<notin> fpath ` live fe"
  shows "names fe' = (names fe)(fpath y \<mapsto> node_of y)"
proof -
  have ne: "fpath x \<noteq> fpath y" if "x \<in> live fe" for x using assms(4) that by (metis imageI)
  show ?thesis
    by (intro ext option_eqI) (auto simp: names_iff [OF assms(1)] names_iff [OF assms(2)] assms(3) dest: ne)
qed

lemma names_delete:
  assumes "tidy fe" "tidy fe'" "live fe' = live fe - {x}" "x \<in> live fe"
  shows "names fe' = (names fe)(fpath x := None)"
  by (intro ext option_eqI)
    (use assms in \<open>auto simp: names_iff [OF assms(1)] names_iff [OF assms(2)] name_tree_def inj_on_def\<close>)

lemma names_update:
  assumes "tidy fe" "tidy fe'" "live fe' = insert y (live fe - {x})" "x \<in> live fe" "fpath y = fpath x"
  shows "names fe' = (names fe)(fpath x \<mapsto> node_of y)"
  by (intro ext option_eqI)
    (use assms in \<open>auto simp: names_iff [OF assms(1)] names_iff [OF assms(2)] name_tree_def inj_on_def\<close>)

lemma names_same: "tidy fe \<Longrightarrow> tidy fe' \<Longrightarrow> meta_map (fe_meta fe') = meta_map (fe_meta fe) \<Longrightarrow> names fe' = names fe"
  using live_same [of fe' fe] by (intro ext option_eqI) (simp add: names_iff)

section \<open>Requests\<close>

datatype fe_request =
    CreateRq string string u32
  | MkdirRq string string u32
  | RemoveRq string
  | RmdirRq string
  | WriteRq string "byte list" int

text \<open>A request with the status of its response.\<close>

fun perform :: "request_env \<Rightarrow> fe_request \<Rightarrow> frontend \<Rightarrow> (int \<times> frontend) option" where
  "perform e (CreateRq p f md) fe = map_option (\<lambda>(r, ne, fe'). (fst r, fe')) (Create e p f md fe fe)"
| "perform e (MkdirRq p f md) fe = map_option (\<lambda>(r, ne, fe'). (fst r, fe')) (Mkdir e p f md fe fe)"
| "perform e (RemoveRq p) fe = map_option (\<lambda>(r, ne, fe'). (fst r, fe')) (Remove e p fe)"
| "perform e (RmdirRq p) fe = map_option (\<lambda>(r, ne, fe'). (fst r, fe')) (Rmdir e p fe)"
| "perform e (WriteRq p d off) fe = map_option (\<lambda>(r, ne, fe'). (wr_status r, fe')) (Write e p d off fe)"

fun abs_request :: "fe_request \<Rightarrow> ns_request" where
  "abs_request (CreateRq p f md) = NCreate (trim_trailing_slash (normalize_path p)) f"
| "abs_request (MkdirRq p f md) = NMkdir (trim_trailing_slash (normalize_path p)) f"
| "abs_request (RemoveRq p) = NRemove (trim_trailing_slash (normalize_path p))"
| "abs_request (RmdirRq p) = NRmdir (trim_trailing_slash (normalize_path p))"
| "abs_request (WriteRq p d off) = NWrite (normalize_path p) off (length d)"

text \<open>UUIDs are fresh, paths fit and hold no NUL, and a mode for \<^verbatim>\<open>mkdir\<close> has permission bits only.\<close>

fun request_fits :: "request_env \<Rightarrow> fe_request \<Rightarrow> frontend \<Rightarrow> bool" where
  "request_fits e (CreateRq p f md) fe = name_fits e p f fe"
| "request_fits e (MkdirRq p f md) fe = (name_fits e p f fe \<and> md AND 0xF000 = 0)"
| "request_fits e (RemoveRq p) fe = (CHR 0x00 \<notin> set p)"
| "request_fits e (RmdirRq p) fe = (CHR 0x00 \<notin> set p)"
| "request_fits e (WriteRq p d off) fe = (CHR 0x00 \<notin> set p)"

definition refines :: "ns_request \<Rightarrow> bool \<Rightarrow> frontend \<Rightarrow> frontend \<Rightarrow> bool" where
  "refines q ok fe fe' \<longleftrightarrow> ns_step q (names fe) = Some (names fe') \<or> \<not> ok \<and> names fe' = names fe"

lemma new_child_refines:
  assumes "creation_check b x p f (fe_meta fe) = Inr full" "frontend_inv fe" "name_fits e p f fe" "tidy fe" "tidy fe'"
    "fpath y = take 4095 (c_str full)" "file_id y = take 63 (c_str (rq_uuid e))" "fstate y = FILE_STATE_ACTIVE"
    "\<not> ok \<and> meta_map (fe_meta fe') = meta_map (fe_meta fe) \<or> meta_map (fe_meta fe') = (meta_map (fe_meta fe))(file_id y \<mapsto> y)"
  shows "\<not> ok \<and> names fe' = names fe \<or> ns_enter (trim_trailing_slash (normalize_path p)) f (node_of y) (names fe) = Some (names fe')"
  using assms(9)
proof
  assume "\<not> ok \<and> meta_map (fe_meta fe') = meta_map (fe_meta fe)"
  with names_same [OF assms(4,5)] show ?thesis by blast
next
  assume put: "meta_map (fe_meta fe') = (meta_map (fe_meta fe))(file_id y \<mapsto> y)"
  let ?dir = "trim_trailing_slash (normalize_path p)"
  note c = creation_checked [OF assms(1) conjunct1 [OF assms(4)] assms(3)]
  have path: "fpath y = join_path ?dir f" using assms(3,6) c(2,3) by (simp add: name_fits_def)
  have new: "file_id y \<notin> dom (meta_map (fe_meta fe))" using assms(3,7) by (simp add: name_fits_def)
  have "live fe' = insert y (live fe)" using live_put_new [OF conjunct1 [OF assms(4)] new _ put] assms(8) by simp
  then have "names fe' = (names fe)(join_path ?dir f \<mapsto> node_of y)"
    using names_insert [OF assms(4,5)] c(2,4) path by simp
  moreover have "ns_directory (names fe) ?dir"
    using c(5) by (auto simp: ns_directory_def names_iff [OF assms(4)] node_of_def)
  moreover have "names fe (join_path ?dir f) = None" using c(2,4) by (simp add: names_None [OF assms(4)])
  ultimately show ?thesis using c(1) by (simp add: ns_enter_def)
qed

lemma file_mode [simp]: "\<not> S_ISDIR (S_IFREG OR md)"
proof
  assume "S_ISDIR (S_IFREG OR md)"
  then have "((S_IFREG OR md) AND 0xF000) AND 0x8000 = (0 :: u32)" by (simp add: S_ISDIR_def)
  then have "0x8000 OR (md AND 0x8000) = (0 :: u32)" by (simp add: bit.conj_disj_distrib2 and.assoc)
  then show False by (simp add: or_eq_0_iff)
qed

lemma directory_mode: "md AND 0xF000 = 0 \<Longrightarrow> S_ISDIR (S_IFDIR OR md)"
  by (simp add: S_ISDIR_def bit.conj_disj_distrib2)

lemma Create_refines:
  assumes "Create e p f md fe fe = Some (r, ne, fe')" "frontend_inv fe" "undisturbed e" "name_fits e p f fe" "name_tree (live fe)"
  shows "refines (NCreate (trim_trailing_slash (normalize_path p)) f) (fst r = 0) fe fe'"
proof -
  have t: "tidy fe" "tidy fe'"
    using assms Create_tree [OF assms] Create_inv [OF assms(1,2) undisturbed_ok [OF assms(3)]] by (simp_all add: frontend_inv_def)
  show ?thesis
  proof (cases "creation_check ''Invalid filename'' ''File already exists'' p f (fe_meta fe)")
    case (Inl err)
    with assms(1) creation_check_status [OF Inl] show ?thesis by (simp add: Create_def refines_def)
  next
    case (Inr full)
    have full: "full = join_path (trim_trailing_slash (normalize_path p)) f"
      using Inr by (auto simp: creation_check_def Let_def split: if_splits option.splits)
    from assms(1,2) show ?thesis
    proof (cases rule: Create_cases)
      case refused
      with names_same [OF t] show ?thesis by (simp add: refines_def)
    next
      case (proposed iface')
      let ?y = "created_file e full md (fe_store fe)"
      from reply_one [OF proposed(3,2,4) assms(3)] new_child_refines [OF Inr assms(2,4) t, of ?y "fst r = 0"] show ?thesis
        by (auto simp: full refines_def node_of_def)
    qed
  qed
qed

lemma Mkdir_refines:
  assumes "Mkdir e p f md fe fe = Some (r, ne, fe')" "frontend_inv fe" "undisturbed e" "name_fits e p f fe" "name_tree (live fe)" "md AND 0xF000 = 0"
  shows "refines (NMkdir (trim_trailing_slash (normalize_path p)) f) (fst r = 0) fe fe'"
proof -
  have t: "tidy fe" "tidy fe'"
    using assms Mkdir_tree [OF assms(1-5)] Mkdir_inv [OF assms(1,2) undisturbed_ok [OF assms(3)]] by (simp_all add: frontend_inv_def)
  show ?thesis
  proof (cases "creation_check ''Invalid directory name'' ''Directory already exists'' p f (fe_meta fe)")
    case (Inl err)
    with assms(1) creation_check_status [OF Inl] show ?thesis by (simp add: Mkdir_def refines_def)
  next
    case (Inr full)
    let ?y = "new_entry e full (S_IFDIR OR md)"
    have p: "propose_reply e ?y fe = Some (r, ne, fe')" using assms(1) Inr by (simp add: Mkdir_def)
    have y: "fpath ?y = take 4095 (c_str full)" "file_id ?y = take 63 (c_str (rq_uuid e))" "fstate ?y = FILE_STATE_ACTIVE" "node_of ?y = NDir"
      using directory_mode [OF assms(6)] by (simp_all add: new_entry_def strncpy0_def node_of_def)
    from new_child_refines [OF Inr assms(2,4) t y(1-3) reply_one [OF p assms(2) new_entry_wt assms(3)]] y(4) show ?thesis
      by (auto simp: refines_def)
  qed
qed

lemma deleted_refines:
  assumes "put_at ok fe q (deleted_entry e) P fe'" "tidy fe" "tidy fe'"
  shows "\<not> ok \<and> names fe' = names fe \<or> (\<exists>x \<in> live fe. fpath x = q \<and> P x \<and> names fe' = (names fe)(q := None))"
proof -
  have "names fe' = (names fe)(q := None)" if "x \<in> live fe" "fpath x = q" "meta_map (fe_meta fe') = (meta_map (fe_meta fe))(file_id x \<mapsto> deleted_entry e x)" for x
    using names_delete [OF assms(2,3) _ that(1)] live_put_old [OF conjunct1 [OF assms(2)] that(1), of "deleted_entry e x" fe'] that(2,3) by simp
  with assms(1) names_same [OF assms(2,3)] show ?thesis by (auto simp: put_at_def)
qed

lemma Remove_refines:
  assumes "Remove e p fe = Some (r, ne, fe')" "frontend_inv fe" "undisturbed e" "CHR 0x00 \<notin> set p" "name_tree (live fe)"
  shows "refines (NRemove (trim_trailing_slash (normalize_path p))) (fst r = 0) fe fe'"
proof -
  have t: "tidy fe" "tidy fe'"
    using assms Remove_tree [OF assms(1-3,5)] Remove_inv [OF assms(1,2) undisturbed_ok [OF assms(3)]] by (simp_all add: frontend_inv_def)
  have "names fe q = Some (NFile (fsize x))" if "x \<in> live fe" "fpath x = q" "\<not> S_ISDIR (fmode x)" for x q
    using that by (auto simp: names_iff [OF t(1)] node_of_def)
  with deleted_refines [OF Remove_put [OF assms(1-3)] t] show ?thesis by (auto simp: refines_def path_nul [OF assms(4)])
qed

lemma Rmdir_refines:
  assumes "Rmdir e p fe = Some (r, ne, fe')" "frontend_inv fe" "undisturbed e" "CHR 0x00 \<notin> set p" "name_tree (live fe)"
  shows "refines (NRmdir (trim_trailing_slash (normalize_path p))) (fst r = 0) fe fe'"
proof -
  let ?q = "trim_trailing_slash (normalize_path p)"
  have t: "tidy fe" "tidy fe'"
    using assms Rmdir_tree [OF assms] Rmdir_inv [OF assms(1,2) undisturbed_ok [OF assms(3)]] by (simp_all add: frontend_inv_def)
  have "names fe ?q = Some NDir \<and> (\<forall>q \<in> dom (names fe). \<forall>n. is_valid_name_component n \<longrightarrow> q \<noteq> join_path ?q n)"
    if "x \<in> live fe" "fpath x = ?q" "S_ISDIR (fmode x)" "\<not> directory_has_children (fe_meta fe) ?q" for x
    using that no_children [OF that(4) normalize_trimmed conjunct1 [OF t(1)] assms(5)]
    by (auto simp: names_iff [OF t(1)] node_of_def)
  with deleted_refines [OF Rmdir_put [OF assms(1-3)] t] show ?thesis by (auto simp: refines_def path_nul [OF assms(4)])
qed

lemma Write_refines:
  assumes "Write e p d off fe = Some (r, ne, fe')" "frontend_inv fe" "undisturbed e" "CHR 0x00 \<notin> set p" "name_tree (live fe)"
  shows "refines (NWrite (normalize_path p) off (length d)) (wr_status r = 0) fe fe'"
proof -
  have t: "tidy fe" "tidy fe'"
    using assms Write_tree [OF assms(1-3,5)] Write_inv [OF assms(1,2) undisturbed_ok [OF assms(3)]] by (simp_all add: frontend_inv_def)
  have q: "c_str (normalize_path p) = normalize_path p" using assms(4) by (intro c_str_id) (auto simp: normalize_path_def)
  have "ns_step (NWrite (normalize_path p) off (length d)) (names fe) = Some (names fe')"
    if x: "x \<in> live fe" "fpath x = normalize_path p" "meta_map (fe_meta fe') = (meta_map (fe_meta fe))(file_id x \<mapsto> written_entry e x off d)" for x
  proof -
    let ?y = "written_entry e x off d"
    have y: "file_id ?y = file_id x" "fpath ?y = fpath x" "fmode ?y = fmode x" "fstate ?y = fstate x" "fsize ?y = size_after off (length d) (fsize x)"
      by (simp_all add: written_entry_def size_after_def write_at_def)
    have "names fe' = (names fe)(fpath x \<mapsto> node_of ?y)"
      using names_update [OF t _ x(1)] live_put_old [OF conjunct1 [OF t(1)] x(1), of ?y fe'] x(1,3) y by (simp add: live_def)
    moreover have "names fe (normalize_path p) = Some (node_of x)" using x by (auto simp: names_iff [OF t(1)])
    ultimately show ?thesis using x(2) y by (auto simp: node_of_def split: if_splits)
  qed
  with Write_put [OF assms(1-3)] names_same [OF t] show ?thesis by (auto simp: refines_def put_at_def q)
qed

section \<open>Property\<close>

text \<open>C13: in the states of \<open>quiet_run\<close> the coordinator implements the abstract name service (sequential
  requests on one coordinator from an empty table, no changes of other coordinators learned, memory
  to apply committed entries, fresh UUIDs, new paths of less than 4096 bytes). A request whose path
  has no NUL, and whose mode has no file-type bits if it is a \<^verbatim>\<open>mkdir\<close>, that reports success has made exactly
  its abstract step (a file or directory entered under an existing directory where nothing was, a
  file removed, an empty directory removed, the size of a file extended by a write), and one that
  reports an error has either changed no name or made that step all the same.\<close>

theorem requests_refine_names:
  assumes "quiet_run fe" "undisturbed e" "request_fits e rq fe" "perform e rq fe = Some (st, fe')"
  shows "(st = 0 \<longrightarrow> ns_step (abs_request rq) (names fe) = Some (names fe')) \<and>
    (names fe' = names fe \<or> ns_step (abs_request rq) (names fe) = Some (names fe'))"
proof -
  note t = quiet_run_tree [OF assms(1), THEN conjunct1] quiet_run_tree [OF assms(1), THEN conjunct2]
  have "refines (abs_request rq) (st = 0) fe fe'"
    using assms(3,4) Create_refines [OF _ t(1) assms(2) _ t(2)] Mkdir_refines [OF _ t(1) assms(2) _ t(2)]
      Remove_refines [OF _ t(1) assms(2) _ t(2)] Rmdir_refines [OF _ t(1) assms(2) _ t(2)] Write_refines [OF _ t(1) assms(2) _ t(2)]
    by (cases rq) auto
  then show ?thesis by (auto simp: refines_def)
qed

theorem requests_refine_names_witness:
  "\<exists>fe'. perform demo_request (CreateRq ''/'' ''f'' 0x1A4) (demo_fe (empty_manager [])) = Some (0, fe') \<and> names fe' = [''/f'' \<mapsto> NFile 0]"
proof -
  let ?fe = "demo_fe (empty_manager [])" and ?rq = "CreateRq ''/'' ''f'' 0x1A4"
  have run: "quiet_run ?fe" by (rule quiet_run.empty) (simp_all add: demo_inv)
  have q: "undisturbed demo_request" by simp
  have fits: "request_fits demo_request ?rq ?fe" by (simp add: name_fits_def demo_names)
  obtain ne fe' where "Create demo_request ''/'' ''f'' 0x1A4 ?fe ?fe = Some ((0, []), ne, fe')" using demo_create by blast
  then have p: "perform demo_request ?rq ?fe = Some (0, fe')" by simp
  have "names ?fe = Map.empty" using names_None [of ?fe] quiet_run_tree [OF run] by (intro ext) (simp add: live_def frontend_inv_def)
  with requests_refine_names [OF run q fits p] p show ?thesis
    by (auto simp: ns_enter_def demo_names split: if_splits)
qed

end
