(* ===== verification/Processes.thy ===== *)
theory Processes
  imports Frontend Network
begin

text \<open>
  Start and end of the processes: the destructors of the four components, \<^verbatim>\<open>cleanup_distributed_system\<close> and
  \<^verbatim>\<open>main\<close> of the coordinator, and \<^verbatim>\<open>main\<close> of the adapter, the RPC server and the FUSE program. A destructor is
  the list of what it releases, in order; locks and condition variables are left out. What gRPC does between
  start and shutdown, and what \<^verbatim>\<open>fuse_main\<close> does, are arguments.
\<close>

section \<open>Destructors\<close>

text \<open>\<open>R_value i\<close> is the value in proposal slot \<open>i\<close>, \<open>R_entry a\<close> the entry at address \<open>a\<close> and \<open>R_node k a\<close> the node that
  points to it.\<close>

datatype release =
    R_value nat
  | R_slots | R_paxos
  | R_wal_synced | R_wal_closed
  | R_entry nat
  | R_node string nat
  | R_map | R_metadata
  | R_node_table | R_storage
  | R_socket net_effect
  | R_network

definition paxos_destroy :: "paxos_node \<Rightarrow> release list" where
  "paxos_destroy n =
     map R_value (filter (\<lambda>i. proposed_value (active_proposals n i) \<noteq> None) [0..<max_proposals n]) @ [R_slots, R_paxos]"

definition paxos_free_message :: "paxos_message \<Rightarrow> paxos_message" where
  "paxos_free_message msg = msg\<lparr>m_value := None\<rparr>"

text \<open>The log is open as long as the manager exists: \<^verbatim>\<open>metadata_manager_init\<close> fails if it cannot open it.\<close>

definition bucket_releases :: "(string \<times> nat) list \<Rightarrow> release list" where
  "bucket_releases nds = concat (map (\<lambda>(k, a). [R_entry a, R_node k a]) nds)"

definition metadata_manager_destroy :: "metadata_manager \<Rightarrow> release list" where
  "metadata_manager_destroy mgr =
     [R_wal_synced, R_wal_closed] @ concat (map (\<lambda>i. bucket_releases (buckets mgr i)) [0..<HASH_MAP_SIZE]) @ [R_map, R_metadata]"

definition storage_interface_destroy :: "storage_interface \<Rightarrow> release list" where
  "storage_interface_destroy iface = [R_node_table, R_storage]"

definition storage_response_free :: "storage_response \<Rightarrow> storage_response" where
  "storage_response_free resp = (if rdata resp \<noteq> None then resp\<lparr>rdata := None, data_len := 0\<rparr> else resp)"

section \<open>The coordinator\<close>

definition cleanup_distributed_system :: "frontend \<Rightarrow> release list" where
  "cleanup_distributed_system fe =
     storage_interface_destroy (fe_store fe) @
     map R_socket (network_engine_destroy (network_engine_stop (fe_net fe))) @ [R_network] @
     metadata_manager_destroy (fe_meta fe) @ paxos_destroy (fe_paxos fe)"

text \<open>\<^verbatim>\<open>atoi\<close>: the value of \<^verbatim>\<open>strtol\<close>, which saturates at 64 bits, as an \<^verbatim>\<open>int\<close>.\<close>

definition strtol :: "string \<Rightarrow> int" where
  "strtol s =
     (let s1 = dropWhile isspace s;
          signed = (s1 \<noteq> [] \<and> (hd s1 = CHR ''-'' \<or> hd s1 = CHR ''+''));
          v = int (dec_val (takeWhile isdigit (if signed then tl s1 else s1)))
      in if signed \<and> hd s1 = CHR ''-'' then max (- (2 ^ 63)) (- v) else min (2 ^ 63 - 1) v)"

definition atoi :: "string \<Rightarrow> int" where
  "atoi s = to_s32 (strtol s)"

text \<open>What happens while the server runs: a request or message changes the state, or a signal clears
  \<^verbatim>\<open>running\<close>. \<^term>\<open>None\<close>: no signal has come yet.\<close>

datatype server_event = Handled "frontend \<Rightarrow> frontend" | Signalled

fun RunServer :: "server_event list \<Rightarrow> frontend \<Rightarrow> frontend option" where
  "RunServer [] fe = None"
| "RunServer (Handled g # evs) fe = RunServer evs (g fe)"
| "RunServer (Signalled # evs) fe = Some fe"

datatype process_end = Exit int "release list" | Crash | Running

text \<open>\<open>built\<close> says that the gRPC server could be built; otherwise its shutdown goes through a null pointer.\<close>

definition frontend_main :: "start_env \<Rightarrow> bool \<Rightarrow> server_event list \<Rightarrow> string list \<Rightarrow> process_end" where
  "frontend_main e built evs argv =
     (if length argv < 4 then Exit 1 []
      else case initialize_distributed_system e (word_of_int (atoi (argv ! 1))) (word_of_int (atoi (argv ! 2)))
                  (word_of_int (atoi (argv ! 3))) (drop 4 argv) of
             None \<Rightarrow> Crash
           | Some None \<Rightarrow> Exit 1 []
           | Some (Some fe) \<Rightarrow>
               (case RunServer evs fe of
                  None \<Rightarrow> Running
                | Some fe1 \<Rightarrow> if built then Exit 0 (cleanup_distributed_system fe1) else Crash))"

section \<open>The storage node\<close>

text \<open>One pass of the accept loop of the adapter: the result of \<^verbatim>\<open>malloc\<close>, of \<^verbatim>\<open>accept\<close> and of \<^verbatim>\<open>pthread_create\<close>.\<close>

record accept_event =
  ac_malloc :: bool
  ac_fd :: int
  ac_thread :: bool

text \<open>The connections given to a handler and those that no thread handles; \<^term>\<open>None\<close> is a write through \<^verbatim>\<open>NULL\<close>.\<close>

fun accept_loop :: "accept_event list \<Rightarrow> (int list \<times> int list) option" where
  "accept_loop [] = Some ([], [])"
| "accept_loop (ev # evs) =
     (if \<not> ac_malloc ev then None
      else if ac_fd ev < 0 then accept_loop evs
      else map_option (\<lambda>(handled, lost). if ac_thread ev then (ac_fd ev # handled, lost) else (handled, ac_fd ev # lost))
             (accept_loop evs))"

text \<open>How the adapter ends up: with an exit code and the sockets it has closed, or serving connections on a port.\<close>

datatype adapter_end =
    Adapter_exit int "int list"
  | Adapter_serves int "int list \<times> int list"
  | Adapter_crash

definition adapter_main :: "string option \<Rightarrow> int \<Rightarrow> bool \<Rightarrow> bool \<Rightarrow> accept_event list \<Rightarrow> adapter_end" where
  "adapter_main port_env server_fd bind_ok listen_ok evs =
     (let port = (case port_env of None \<Rightarrow> 9000 | Some s \<Rightarrow> atoi s) in
      if server_fd < 0 then Adapter_exit 1 []
      else if \<not> bind_ok then Adapter_exit 1 [server_fd]
      else if \<not> listen_ok then Adapter_exit 1 [server_fd]
      else case accept_loop evs of None \<Rightarrow> Adapter_crash | Some c \<Rightarrow> Adapter_serves port c)"

text \<open>The RPC server's process ends with 0 also when it could not start.\<close>

definition rpc_run_server :: "fs_env \<Rightarrow> bool \<Rightarrow> bool \<Rightarrow> bool \<Rightarrow> host_files \<Rightarrow> fused_world option" where
  "rpc_run_server e calloc_ok mkdir_ok built fs =
     (case rpc_start e calloc_ok mkdir_ok fs of None \<Rightarrow> None | Some w \<Rightarrow> if built then Some w else None)"

definition rpc_main :: "fs_env \<Rightarrow> bool \<Rightarrow> bool \<Rightarrow> bool \<Rightarrow> host_files \<Rightarrow> string option \<Rightarrow> int \<times> string \<times> fused_world option" where
  "rpc_main e calloc_ok mkdir_ok built fs port_env =
     (0, ''0.0.0.0:'' @ (case port_env of None \<Rightarrow> ''50051'' | Some p \<Rightarrow> p), rpc_run_server e calloc_ok mkdir_ok built fs)"

text \<open>\<^verbatim>\<open>main\<close> of the mounted file system hands its arguments and the dispatch table to \<^verbatim>\<open>fuse_main\<close>.\<close>

definition fused_main ::
  "(string list \<Rightarrow> (fs_env \<Rightarrow> fs_op \<Rightarrow> fused_world \<Rightarrow> fs_reply \<times> fused_world) \<Rightarrow> int) \<Rightarrow> string list \<Rightarrow> int" where
  "fused_main fuse_main argv = fuse_main argv fused_oper"

end
