(* ===== verification/Process_Props.thy ===== *)
theory Process_Props
  imports Processes Frontend_Props
begin

text \<open>
  The coordinator's shutdown frees every entry of the table and nothing twice, and the adapter gives
  every connection to a handler unless a thread cannot be started.
\<close>

section \<open>Releases\<close>

lemma distinct_concat_map:
  "distinct xs \<Longrightarrow> (\<And>x. x \<in> set xs \<Longrightarrow> distinct (f x)) \<Longrightarrow>
     (\<And>x y. x \<in> set xs \<Longrightarrow> y \<in> set xs \<Longrightarrow> x \<noteq> y \<Longrightarrow> set (f x) \<inter> set (f y) = {}) \<Longrightarrow> distinct (concat (map f xs))"
proof (induction xs)
  case (Cons x xs)
  have "set (f x) \<inter> set (concat (map f xs)) = {}" using Cons.prems(1,3) by fastforce
  with Cons show ?case by simp
qed simp

lemma set_bucket_releases: "set (bucket_releases nds) = R_entry ` snd ` set nds \<union> (\<lambda>(k, a). R_node k a) ` set nds"
  by (force simp: bucket_releases_def)

lemma distinct_bucket_releases: "distinct (map snd nds) \<Longrightarrow> distinct (bucket_releases nds)"
proof (induction nds)
  case (Cons nd nds)
  obtain k a where nd: "nd = (k, a)" by fastforce
  have "a \<notin> snd ` set nds" using Cons.prems by (simp add: nd)
  then have "R_entry a \<notin> set (bucket_releases nds)" "R_node k a \<notin> set (bucket_releases nds)"
    by (force simp: set_bucket_releases)+
  with Cons show ?case by (simp add: nd bucket_releases_def)
qed (simp add: bucket_releases_def)

lemma bucket_addrs:
  assumes "tab_inv m" "i < HASH_MAP_SIZE"
  shows "distinct (map snd (buckets m i))" "(k, a) \<in> set (buckets m i) \<Longrightarrow> hash_string (file_id (heap m a)) = i"
proof -
  have inv: "hash_string k = i" "file_id (heap m a) = k" if "(k, a) \<in> set (buckets m i)" for k a
    using assms that unfolding tab_inv_def mgr_inv_def by blast+
  then show "(k, a) \<in> set (buckets m i) \<Longrightarrow> hash_string (file_id (heap m a)) = i" by metis
  have "map fst (buckets m i) = map (\<lambda>a. file_id (heap m a)) (map snd (buckets m i))" using inv(2) by auto
  moreover have "distinct (map fst (buckets m i))" using assms by (simp add: tab_inv_def keys_distinct_def)
  ultimately show "distinct (map snd (buckets m i))" by (metis distinct_map)
qed

definition table_releases :: "metadata_manager \<Rightarrow> nat list \<Rightarrow> release list" where
  "table_releases m is = concat (map (\<lambda>i. bucket_releases (buckets m i)) is)"

lemma table_releases_distinct:
  assumes "tab_inv m" "distinct is" "set is \<subseteq> {..<HASH_MAP_SIZE}"
  shows "distinct (table_releases m is)"
  unfolding table_releases_def
proof (rule distinct_concat_map [OF assms(2)])
  fix i assume "i \<in> set is"
  with assms(3) have "i < HASH_MAP_SIZE" by blast
  then show "distinct (bucket_releases (buckets m i))"
    by (rule distinct_bucket_releases [OF bucket_addrs(1) [OF assms(1)]])
next
  fix i j assume ij: "i \<in> set is" "j \<in> set is" "i \<noteq> j"
  then have lt: "i < HASH_MAP_SIZE" "j < HASH_MAP_SIZE" using assms(3) by blast+
  have "snd ` set (buckets m i) \<inter> snd ` set (buckets m j) = {}"
    using bucket_addrs(2) [OF assms(1) lt(1)] bucket_addrs(2) [OF assms(1) lt(2)] ij(3) by fastforce
  then show "set (bucket_releases (buckets m i)) \<inter> set (bucket_releases (buckets m j)) = {}"
    by (fastforce simp: set_bucket_releases)
qed

lemma table_releases_entries: "R_entry a \<in> set (table_releases m is) \<longleftrightarrow> (\<exists>i \<in> set is. a \<in> snd ` set (buckets m i))"
  by (auto simp: table_releases_def set_bucket_releases)

lemma manager_releases: "metadata_manager_destroy m = [R_wal_synced, R_wal_closed] @ table_releases m [0..<HASH_MAP_SIZE] @ [R_map, R_metadata]"
  by (simp only: metadata_manager_destroy_def table_releases_def)

lemma table_releases_kinds: "r \<in> set (table_releases m is) \<Longrightarrow> (\<exists>a. r = R_entry a) \<or> (\<exists>k a. r = R_node k a)"
  by (auto simp: table_releases_def set_bucket_releases)

lemma paxos_releases: "distinct (paxos_destroy n)" "r \<in> set (paxos_destroy n) \<Longrightarrow> (\<exists>i. r = R_value i) \<or> r = R_slots \<or> r = R_paxos"
  by (auto simp: paxos_destroy_def distinct_map inj_on_def)

fun is_memory :: "release \<Rightarrow> bool" where
  "is_memory (R_socket x) = False"
| "is_memory _ = True"

lemma cleanup_memory:
  "filter is_memory (cleanup_distributed_system fe) =
     [R_node_table, R_storage, R_network] @ metadata_manager_destroy (fe_meta fe) @ paxos_destroy (fe_paxos fe)"
proof -
  have "filter is_memory (map R_socket es) = []" for es by (induction es) simp_all
  moreover have "filter is_memory (table_releases m is) = table_releases m is" for m "is"
    by (rule filter_True) (use table_releases_kinds [of _ m "is"] in fastforce)
  moreover have "filter is_memory (paxos_destroy n) = paxos_destroy n" for n
    by (rule filter_True) (use paxos_releases(2) [of _ n] in fastforce)
  ultimately show ?thesis by (simp only: cleanup_distributed_system_def storage_interface_destroy_def manager_releases filter_append) simp
qed

section \<open>Properties\<close>

lemma served_reachable:
  "RunServer evs fe = Some fe' \<Longrightarrow> fe_reachable fe \<Longrightarrow> \<forall>g fe. Handled g \<in> set evs \<and> fe_reachable fe \<longrightarrow> fe_reachable (g fe) \<Longrightarrow>
     fe_reachable fe'"
proof (induction evs fe rule: RunServer.induct)
  case (2 g evs fe)
  then have "fe_reachable (g fe)" by simp
  with 2 show ?case by simp
qed simp_all

text \<open>When the coordinator's process ends normally it frees every entry of the table, and no memory
  twice.\<close>

theorem shutdown_frees_once:
  assumes "frontend_main e built evs argv = Exit 0 rel" "\<forall>g fe. Handled g \<in> set evs \<and> fe_reachable fe \<longrightarrow> fe_reachable (g fe)"
    "\<forall>s. se_nodes e = Some s \<longrightarrow> CHR 0x00 \<notin> set s"
  shows "\<exists>fe. fe_reachable fe \<and> rel = cleanup_distributed_system fe \<and> distinct (filter is_memory rel) \<and>
    {a. R_entry a \<in> set rel} = node_addrs (fe_meta fe)"
proof -
  obtain nid lport total_n addrs fe0 fe where fe: "rel = cleanup_distributed_system fe"
    "initialize_distributed_system e nid lport total_n addrs = Some (Some fe0)" "RunServer evs fe0 = Some fe"
    using assms(1) by (auto simp: frontend_main_def split: if_splits option.splits)
  note r = served_reachable [OF fe(3) fe_reachable.started [OF fe(2) assms(3)] assms(2)]
  have t: "tab_inv (fe_meta fe)" using reachable_inv [OF r] by (simp add: frontend_inv_def)
  let ?T = "table_releases (fe_meta fe) [0..<HASH_MAP_SIZE]"
  have T: "distinct ?T" by (rule table_releases_distinct [OF t]) (simp_all only: distinct_upt set_upt lessThan_atLeast0)
  have mem: "filter is_memory rel = [R_node_table, R_storage, R_network, R_wal_synced, R_wal_closed] @ ?T @ [R_map, R_metadata] @ paxos_destroy (fe_paxos fe)"
    by (simp only: fe(1) cleanup_memory manager_releases append.simps append_assoc)
  have "distinct (filter is_memory rel)"
    unfolding mem using T paxos_releases table_releases_kinds by (auto, fastforce+)
  moreover have "R_entry a \<in> set rel \<longleftrightarrow> R_entry a \<in> set (filter is_memory rel)" for a by simp
  then have "{a. R_entry a \<in> set rel} = {a. R_entry a \<in> set ?T}"
    unfolding mem using paxos_releases(2) by fastforce
  moreover have "\<dots> = node_addrs (fe_meta fe)"
    by (simp only: table_releases_entries node_addrs_def set_upt) auto
  ultimately show ?thesis using r fe(1) by blast
qed

theorem shutdown_frees_once_witness:
  "\<exists>rel. frontend_main demo_start True [Signalled] [''frontend'', ''1'', ''8001'', ''3''] = Exit 0 rel \<and> distinct (filter is_memory rel)"
proof -
  obtain fe where fe: "initialize_distributed_system demo_start 1 8001 3 [] = Some (Some fe)" using demo_started by blast
  have "atoi ''1'' = 1" "atoi ''8001'' = 8001" "atoi ''3'' = 3" by code_simp+
  with fe have m: "frontend_main demo_start True [Signalled] [''frontend'', ''1'', ''8001'', ''3''] = Exit 0 (cleanup_distributed_system fe)"
    by (simp add: frontend_main_def)
  have n: "\<forall>s. se_nodes demo_start = Some s \<longrightarrow> CHR 0x00 \<notin> set s" by (simp add: demo_start_def)
  have "distinct (filter is_memory (cleanup_distributed_system fe))"
    using shutdown_frees_once [OF m _ n] by auto
  with m show ?thesis by blast
qed

text \<open>Every connection the adapter accepts gets its handler, in order, as long as threads can be started.\<close>

theorem connections_handled:
  assumes "\<forall>ev \<in> set evs. ac_malloc ev \<and> ac_thread ev"
  shows "accept_loop evs = Some (filter (\<lambda>fd. 0 \<le> fd) (map ac_fd evs), [])"
  using assms by (induction evs) auto

text \<open>A connection for which no thread can be started is neither handled nor closed.\<close>

theorem connection_leaked: "0 \<le> fd \<Longrightarrow> accept_loop [\<lparr>ac_malloc = True, ac_fd = fd, ac_thread = False\<rparr>] = Some ([], [fd])"
  by simp

end
