(* ===== verification/Client.thy ===== *)
theory Client
  imports Frontend
begin

text \<open>
  The command line client, \<^verbatim>\<open>src/distributed_client.cpp\<close>. The generated stub is an argument: each of
  its calls takes the fields of a request and the state of the service and returns either the
  error of a call that failed or the fields of the response. The client itself keeps no state; what
  it prints is returned. At the end the calls as a coordinator serves them.
\<close>

section \<open>Output and numbers\<close>

datatype out_line = Out string | Err string

text \<open>\<^verbatim>\<open>strtoull(s, nullptr, 10)\<close>\<close>

definition strtoull :: "string \<Rightarrow> u64" where
  "strtoull s = (case scan_ulong s of None \<Rightarrow> 0 | Some (v, rest) \<Rightarrow> v)"

definition tick :: string where
  "tick = [CHR 0xE2, CHR 0x9C, CHR 0x93, CHR '' '']"

section \<open>Calls\<close>

type_synonym ('r, 's) rpc = "'s \<Rightarrow> (string + 'r) \<times> 's"

record 's stub =
  stub_Mkdir :: "string \<Rightarrow> string \<Rightarrow> u32 \<Rightarrow> (int \<times> string, 's) rpc"
  stub_Create :: "string \<Rightarrow> string \<Rightarrow> u32 \<Rightarrow> (int \<times> string, 's) rpc"
  stub_Remove :: "string \<Rightarrow> (int \<times> string, 's) rpc"
  stub_Rmdir :: "string \<Rightarrow> (int \<times> string, 's) rpc"
  stub_Write :: "string \<Rightarrow> byte list \<Rightarrow> int \<Rightarrow> (write_response, 's) rpc"
  stub_Get :: "string \<Rightarrow> int \<Rightarrow> int \<Rightarrow> (get_response, 's) rpc"
  stub_ReadDirectory :: "string \<Rightarrow> (int \<times> string \<times> file_entry list, 's) rpc"

type_synonym 's command = "'s \<Rightarrow> int \<times> out_line list \<times> 's"

text \<open>What every method does with the answer of its call: a failed call is -1, a status other than 0
  is returned as it is, and otherwise the method prints what it got.\<close>

definition reply_result :: "string \<Rightarrow> ('r \<Rightarrow> int) \<Rightarrow> ('r \<Rightarrow> string) \<Rightarrow> ('r \<Rightarrow> out_line list) \<Rightarrow> string + 'r \<Rightarrow> int \<times> out_line list" where
  "reply_result what status_of message_of printed answer =
     (case answer of
        Inl err \<Rightarrow> (- 1, [Err (''RPC failed: '' @ err)])
      | Inr r \<Rightarrow> if status_of r \<noteq> 0 then (status_of r, [Err (what @ '' failed: '' @ message_of r)])
                 else (0, printed r))"

definition dfs_Mkdir :: "'s stub \<Rightarrow> string \<Rightarrow> string \<Rightarrow> u32 \<Rightarrow> 's command" where
  "dfs_Mkdir st parent_path dirname md s =
     (let (a, s1) = stub_Mkdir st parent_path dirname md s;
          (rc, out) = reply_result ''Mkdir'' fst snd (\<lambda>_. [Out (tick @ ''Directory created: '' @ parent_path @ ''/'' @ dirname)]) a
      in (rc, out, s1))"

definition dfs_Create :: "'s stub \<Rightarrow> string \<Rightarrow> string \<Rightarrow> u32 \<Rightarrow> 's command" where
  "dfs_Create st parent_path filename md s =
     (let (a, s1) = stub_Create st parent_path filename md s;
          (rc, out) = reply_result ''Create'' fst snd (\<lambda>_. [Out (tick @ ''File created: '' @ parent_path @ ''/'' @ filename)]) a
      in (rc, out, s1))"

definition dfs_RemoveFile :: "'s stub \<Rightarrow> string \<Rightarrow> 's command" where
  "dfs_RemoveFile st path s =
     (let (a, s1) = stub_Remove st path s;
          (rc, out) = reply_result ''Remove'' fst snd (\<lambda>_. [Out (tick @ ''File removed: '' @ path)]) a
      in (rc, out, s1))"

definition dfs_RemoveDirectory :: "'s stub \<Rightarrow> string \<Rightarrow> 's command" where
  "dfs_RemoveDirectory st path s =
     (let (a, s1) = stub_Rmdir st path s;
          (rc, out) = reply_result ''Rmdir'' fst snd (\<lambda>_. [Out (tick @ ''Directory removed: '' @ path)]) a
      in (rc, out, s1))"

text \<open>Offset and size are \<^verbatim>\<open>uint64_t\<close> here and \<^verbatim>\<open>int64\<close> in the request.\<close>

definition dfs_Write :: "'s stub \<Rightarrow> string \<Rightarrow> byte list \<Rightarrow> u64 \<Rightarrow> 's command" where
  "dfs_Write st path data offset s =
     (let (a, s1) = stub_Write st path data (to_s64 (uint offset)) s;
          (rc, out) = reply_result ''Write'' wr_status wr_message
            (\<lambda>r. [Out (tick @ ''Wrote '' @ int_str (wr_bytes r) @ '' bytes to '' @ path)]) a
      in (rc, out, s1))"

text \<open>\<open>data\<close> is what \<^verbatim>\<open>data_out\<close> holds afterwards: it starts empty and is only set by a successful call.\<close>

definition dfs_Read :: "'s stub \<Rightarrow> string \<Rightarrow> u64 \<Rightarrow> u64 \<Rightarrow> 's \<Rightarrow> int \<times> byte list \<times> out_line list \<times> 's" where
  "dfs_Read st path offset sz s =
     (let (a, s1) = stub_Get st path (to_s64 (uint offset)) (to_s64 (uint sz)) s;
          (rc, out) = reply_result ''Read'' gr_status gr_message
            (\<lambda>r. [Out (tick @ ''Read '' @ int_str (gr_bytes r) @ '' bytes from '' @ path)]) a;
          data = (case a of Inl err \<Rightarrow> [] | Inr r \<Rightarrow> if gr_status r \<noteq> 0 then [] else gr_data r)
      in (rc, data, out, s1))"

definition dfs_ListDirectory :: "'s stub \<Rightarrow> string \<Rightarrow> 's command" where
  "dfs_ListDirectory st path s =
     (let (a, s1) = stub_ReadDirectory st path s;
          (rc, out) = reply_result ''ReadDirectory'' fst (\<lambda>r. fst (snd r))
            (\<lambda>r. Out (''Directory listing for '' @ path @ '':'')
               # map (\<lambda>x. Out (''  '' @ (if e_is_directory x then ''[DIR] '' else ''[FILE]'') @ e_name x @ '' ('' @ int_str (e_size x) @ '' bytes)''))
                   (snd (snd r))) a
      in (rc, out, s1))"

section \<open>The command line\<close>

definition print_usage :: "string \<Rightarrow> out_line list" where
  "print_usage prog = map Out
     ([''Usage: '' @ prog @ '' <server_address> <command> [args...]'', [], ''Commands:'',
       ''  mkdir <parent_path> <dirname>              - Create directory'',
       ''  create <parent_path> <filename>            - Create file'',
       ''  rm <file_path>                             - Delete file'',
       ''  rmdir <directory_path>                     - Delete empty directory'',
       ''  write <file_path> <text> [offset]          - Write text to file'',
       ''  read <file_path> [offset] [size]           - Read file contents'',
       ''  ls <directory_path>                        - List directory'', [], ''Examples:'']
      @ map (\<lambda>x. ''  '' @ prog @ x)
          ['' localhost:60051 mkdir / videos'', '' localhost:60051 create /videos test.txt'',
           '' localhost:60051 rm /videos/test.txt'', '' localhost:60051 rmdir /videos'',
           '' localhost:60051 write /videos/test.txt \"Hello World\"'', '' localhost:60051 read /videos/test.txt'',
           '' localhost:60051 ls /videos''])"

text \<open>The commands; \<open>args\<close> are the arguments after the command.\<close>

definition run_mkdir :: "'s stub \<Rightarrow> string list \<Rightarrow> 's command" where
  "run_mkdir st args s =
     (case args of a # b # _ \<Rightarrow> dfs_Mkdir st a b 0x1ED s | _ \<Rightarrow> (1, [Err ''Usage: mkdir <parent_path> <dirname>''], s))"

definition run_create :: "'s stub \<Rightarrow> string list \<Rightarrow> 's command" where
  "run_create st args s =
     (case args of a # b # _ \<Rightarrow> dfs_Create st a b 0x1A4 s | _ \<Rightarrow> (1, [Err ''Usage: create <parent_path> <filename>''], s))"

definition run_rm :: "'s stub \<Rightarrow> string list \<Rightarrow> 's command" where
  "run_rm st args s = (case args of a # _ \<Rightarrow> dfs_RemoveFile st a s | _ \<Rightarrow> (1, [Err ''Usage: rm <file_path>''], s))"

definition run_rmdir :: "'s stub \<Rightarrow> string list \<Rightarrow> 's command" where
  "run_rmdir st args s = (case args of a # _ \<Rightarrow> dfs_RemoveDirectory st a s | _ \<Rightarrow> (1, [Err ''Usage: rmdir <directory_path>''], s))"

definition run_write :: "'s stub \<Rightarrow> string list \<Rightarrow> 's command" where
  "run_write st args s =
     (case args of
        path # txt # rest \<Rightarrow> dfs_Write st path (str_bytes txt) (case rest of [] \<Rightarrow> 0 | o1 # _ \<Rightarrow> strtoull o1) s
      | _ \<Rightarrow> (1, [Err ''Usage: write <file_path> <text>''], s))"

definition run_read :: "'s stub \<Rightarrow> string list \<Rightarrow> 's command" where
  "run_read st args s =
     (case args of
        path # rest \<Rightarrow>
          let offset = (case rest of [] \<Rightarrow> 0 | o1 # _ \<Rightarrow> strtoull o1);
              sz = (case rest of o1 # s1 # _ \<Rightarrow> strtoull s1 | _ \<Rightarrow> 0);
              (result, data, out, s1) = dfs_Read st path offset sz s
          in (result, if result \<ge> 0 then out @ [Out ''Content:'', Out (map char_of_byte data)] else out, s1)
      | [] \<Rightarrow> (1, [Err ''Usage: read <file_path>''], s))"

definition run_ls :: "'s stub \<Rightarrow> string list \<Rightarrow> 's command" where
  "run_ls st args s = (case args of a # _ \<Rightarrow> dfs_ListDirectory st a s | _ \<Rightarrow> (1, [Err ''Usage: ls <directory_path>''], s))"

definition client_main :: "'s stub \<Rightarrow> string list \<Rightarrow> 's command" where
  "client_main st argv s =
     (case argv of
        prog # server_address # cmd # args \<Rightarrow>
          if cmd = ''mkdir'' then run_mkdir st args s
          else if cmd = ''create'' then run_create st args s
          else if cmd = ''rm'' then run_rm st args s
          else if cmd = ''rmdir'' then run_rmdir st args s
          else if cmd = ''write'' then run_write st args s
          else if cmd = ''read'' then run_read st args s
          else if cmd = ''ls'' then run_ls st args s
          else (1, Err (''Unknown command: '' @ cmd) # print_usage prog, s)
      | _ \<Rightarrow> (1, print_usage (case argv of [] \<Rightarrow> [] | prog # _ \<Rightarrow> prog), s))"

text \<open>The exit code the shell sees: the low eight bits of the result of \<^verbatim>\<open>main\<close>.\<close>

definition exit_code :: "int \<Rightarrow> int" where
  "exit_code rc = rc mod 256"

section \<open>On a coordinator\<close>

text \<open>A call may not reach the coordinator, or its answer may be lost after the coordinator has served it
  (the deadline of 20 seconds). \<^term>\<open>None\<close> is a coordinator in which a request has not returned.\<close>

datatype link = Unreachable string | Answer_lost string | Delivered

definition served :: "link \<Rightarrow> (frontend \<Rightarrow> ('r \<times> frontend) option) \<Rightarrow> ('r, frontend option) rpc" where
  "served lk call s =
     (case lk of
        Unreachable err \<Rightarrow> (Inl err, s)
      | _ \<Rightarrow>
         (case Option.bind s call of
            None \<Rightarrow> (Inl ''Deadline Exceeded'', None)
          | Some (r, fe) \<Rightarrow> (case lk of Answer_lost err \<Rightarrow> Inl err | _ \<Rightarrow> Inr r, Some fe)))"

definition drop_effects :: "'r request \<Rightarrow> ('r \<times> frontend) option" where
  "drop_effects = map_option (\<lambda>(r, ne, fe). (r, fe))"

definition coordinator_stub ::
  "link \<Rightarrow> request_env \<Rightarrow> int option \<Rightarrow> int option \<Rightarrow> (int \<Rightarrow> get_response option) \<Rightarrow> frontend option stub" where
  "coordinator_stub lk e node_env total_env ask =
     \<lparr>stub_Mkdir = (\<lambda>p n md. served lk (\<lambda>fe. drop_effects (Mkdir e p n md fe fe))),
      stub_Create = (\<lambda>p n md. served lk (\<lambda>fe. drop_effects (Create e p n md fe fe))),
      stub_Remove = (\<lambda>p. served lk (\<lambda>fe. drop_effects (Remove e p fe))),
      stub_Rmdir = (\<lambda>p. served lk (\<lambda>fe. drop_effects (Rmdir e p fe))),
      stub_Write = (\<lambda>p d off. served lk (\<lambda>fe. drop_effects (Write e p d off fe))),
      stub_Get = (\<lambda>p off sz. served lk (\<lambda>fe. drop_effects (Get e False node_env total_env ask p off sz fe))),
      stub_ReadDirectory = (\<lambda>p. served lk (\<lambda>fe. Some (ReadDirectory p fe, fe)))\<rparr>"

end
