(* ===== verification/Storage_Node_Props.thy ===== *)
theory Storage_Node_Props
  imports Tcp_Adapter Storage_Props Rpc_Props
begin

text \<open>
  The two ends of the line protocol together: what the storage interface prints the adapter
  parses, a write that the client reports as successful is in the storage node's file system, and
  reading it back gives the same bytes; and what becomes of failures on the way.
\<close>

section \<open>Numbers\<close>

lemma digit_char:
  assumes "d < 10"
  shows "isdigit (char_of (48 + d))" "of_char (char_of (48 + d) :: char) - 48 = (d :: nat)"
proof -
  have "of_char (char_of (48 + d) :: char) = (48 + d :: nat)" using assms by (simp add: take_bit_nat_eq_self)
  with assms show "isdigit (char_of (48 + d))" "of_char (char_of (48 + d) :: char) - 48 = (d :: nat)"
    by (simp_all add: isdigit_def)
qed

lemma dec_str_digits: "c \<in> set (dec_str n) \<Longrightarrow> isdigit c"
proof (induction n rule: dec_str.induct)
  case (1 n)
  then show ?case by (subst (asm) (2) dec_str_snoc) (auto simp: digit_char split: if_splits)
qed

lemma dec_val_dec_str: "dec_val (dec_str n) = n"
proof (induction n rule: dec_str.induct)
  case (1 n)
  show ?case
  proof (cases "n < 10")
    case True
    then show ?thesis using digit_char(2) [of n] by (subst dec_str.simps) (simp add: dec_val_def)
  next
    case False
    with 1 have "dec_val (dec_str (n div 10)) = n div 10" by simp
    then show ?thesis
      using False digit_char(2) [of "n mod 10"] by (subst dec_str.simps) (simp add: dec_val_def)
  qed
qed

lemma digit_not_special: "isdigit c \<Longrightarrow> \<not> isspace c \<and> c \<noteq> CHR ''-'' \<and> c \<noteq> CHR ''+'' \<and> c \<noteq> CHR ''|'' \<and> c \<noteq> CHR 0x0A \<and> c \<noteq> CHR 0x00"
  by (auto simp: isdigit_def isspace_def)

lemma scan_ulong_dec_str:
  assumes "\<not> isdigit c"
  shows "scan_ulong (dec_str (unat w) @ c # rest) = Some (w, c # rest)"
proof -
  obtain d ds where d: "dec_str (unat w) = d # ds" using dec_str_ne [of "unat w"] by (cases "dec_str (unat w)") auto
  have dig: "isdigit d" using dec_str_digits [of d "unat w"] d by simp
  have tw: "takeWhile isdigit (dec_str (unat w) @ c # rest) = dec_str (unat w)"
    using dec_str_digits assms by (simp add: takeWhile_append2)
  have dw: "dropWhile isspace (dec_str (unat w) @ c # rest) = dec_str (unat w) @ c # rest"
    using digit_not_special [OF dig] by (simp add: d)
  have lt: "unat w < 2 ^ 64" using unsigned_less [of w] by simp
  show ?thesis
    unfolding scan_ulong_def dw using digit_not_special [OF dig] lt tw
    by (simp add: Let_def d dec_val_dec_str [of "unat w", unfolded d])
qed

section \<open>Request lines\<close>

definition fid_ok :: "string \<Rightarrow> bool" where
  "fid_ok fid \<longleftrightarrow> fid \<noteq> [] \<and> length fid \<le> 63 \<and> CHR ''|'' \<notin> set fid \<and> CHR 0x0A \<notin> set fid \<and> CHR 0x00 \<notin> set fid \<and>
     CHR ''/'' \<notin> set fid"

lemma scan_lit_append [simp]: "scan_lit pat (pat @ s) = Some s"
  by (simp add: scan_lit_def)

lemma scan_until_append: "t \<noteq> [] \<Longrightarrow> length t \<le> 63 \<Longrightarrow> c \<notin> set t \<Longrightarrow> scan_until c (t @ c # s) = Some (t, c # s)"
proof -
  assume t: "t \<noteq> []" "length t \<le> 63" "c \<notin> set t"
  have "takeWhile (\<lambda>x. x \<noteq> c) (take 63 (t @ c # s)) = t"
    using t(2,3) by (cases "63 - length t") (auto simp: while_until)
  with t show ?thesis by (simp add: scan_until_def)
qed

lemma scan_request_line:
  assumes "fid_ok fid"
  shows "scan_request cmd (request_line cmd fid offset len @ rest) = Some (fid, offset, len)"
proof -
  have b: "\<not> isdigit CHR ''|''" "\<not> isdigit CHR 0x0A" by (simp_all add: isdigit_def)
  have eq: "request_line cmd fid offset len @ rest =
      cmd @ CHR ''|'' # fid @ CHR ''|'' # dec_str (unat offset) @ CHR ''|'' # dec_str (unat len) @ CHR 0x0A # rest"
    by (simp add: request_line_def)
  have "scan_lit ''|'' (CHR ''|'' # s) = Some s" "scan_lit (cmd @ ''|'') (cmd @ CHR ''|'' # s) = Some s" for s
    by (simp_all add: scan_lit_def)
  then show ?thesis
    using assms unfolding scan_request_def eq by (simp add: scan_until_append fid_ok_def scan_ulong_dec_str b)
qed

lemma request_line_split:
  assumes "fid_ok fid" "CHR 0x0A \<notin> set cmd" "CHR 0x00 \<notin> set cmd"
  obtains u where "request_line cmd fid offset len = u @ [CHR 0x0A]" "CHR 0x0A \<notin> set u" "CHR 0x00 \<notin> set (request_line cmd fid offset len)"
proof -
  let ?u = "cmd @ ''|'' @ fid @ ''|'' @ dec_str (unat offset) @ ''|'' @ dec_str (unat len)"
  have "CHR 0x0A \<notin> set (dec_str n)" "CHR 0x00 \<notin> set (dec_str n)" for n
    using dec_str_digits digit_not_special by blast+
  with assms have "request_line cmd fid offset len = ?u @ [CHR 0x0A]" "CHR 0x0A \<notin> set ?u" "CHR 0x00 \<notin> set (?u @ [CHR 0x0A])"
    by (auto simp: request_line_def fid_ok_def)
  then show ?thesis using that by metis
qed

lemma cbuf_dec_str_bytes: "CHR 0x00 \<notin> set s \<Longrightarrow> cbuf_dec (str_bytes s @ bs) = s @ cbuf_dec bs"
  by (induction s) (auto simp: cbuf_dec_def str_bytes_def)

lemma newline_index: "CHR 0x0A \<notin> set u \<Longrightarrow>
  find_idx (length ((u @ [CHR 0x0A]) @ v)) (\<lambda>i. ((u @ [CHR 0x0A]) @ v) ! i = CHR 0x0A) = Some (length u)"
  by (auto simp: find_idx_Some_iff nth_append in_set_conv_nth)

lemma prefix_of_line: "prefix_of pat (str_bytes (pat @ s) @ bs)"
  by (simp add: prefix_of_def str_bytes_def)

lemma prefix_of_other:
  assumes "length pat \<le> length s" "take (length pat) s \<noteq> pat"
  shows "\<not> prefix_of pat (str_bytes s @ bs)"
proof
  assume "prefix_of pat (str_bytes s @ bs)"
  then have "map byte_of_char (take (length pat) s) = map byte_of_char pat"
    using assms(1) by (simp add: prefix_of_def str_bytes_def take_map)
  then have "map char_of_byte (map byte_of_char (take (length pat) s)) = map char_of_byte (map byte_of_char pat)" by simp
  then have "take (length pat) s = pat" by (simp add: o_def)
  with assms(2) show False by simp
qed

section \<open>What the adapter makes of a request\<close>

definition write_answer :: "int \<Rightarrow> byte list" where
  "write_answer n = (if n > 0 then str_bytes (''OK|'' @ dec_str (nat n) @ [CHR 0x0A])
     else str_bytes (''ERROR|Write failed'' @ [CHR 0x0A]))"

lemma byte_of_char_inject: "byte_of_char a = byte_of_char b \<longleftrightarrow> a = b"
  by (metis char_of_byte_of_char)

lemma append_split:
  assumes "xs @ ys = zs @ ts" "length zs \<le> length xs"
  obtains us where "xs = zs @ us" "ts = us @ ys"
  using assms by (auto simp: append_eq_append_conv2)

lemma write_answer_ok: "take 3 (write_answer n) = str_bytes ''OK|'' \<longleftrightarrow> n > 0"
proof (cases "n > 0")
  case False
  then show ?thesis by (simp add: write_answer_def str_bytes_def byte_of_char_inject)
qed (simp add: write_answer_def str_bytes_def)

lemma adapter_write_request:
  assumes "fid_ok fid" "concat (b # bss) = str_bytes (request_line ''WRITE'' fid offset (of_nat (length d))) @ d"
    "length (request_line ''WRITE'' fid offset (of_nat (length d))) \<le> length b" "length b \<le> 8191" "[] \<notin> set bss"
    "length d < 2 ^ 64" "malloc_ok (of_nat (length d))"
  shows "handle_client malloc_ok rpcW rpcG rpcD (map Recv_bytes (b # bss)) s =
    (case client_Write rpcW fid offset d s of (n, s1) \<Rightarrow> Replied (write_answer n) s1)"
proof -
  let ?len = "of_nat (length d) :: u64"
  let ?l = "request_line ''WRITE'' fid offset ?len"
  obtain u where u: "?l = u @ [CHR 0x0A]" "CHR 0x0A \<notin> set u" "CHR 0x00 \<notin> set ?l"
    by (rule request_line_split [OF assms(1), of "''WRITE''" offset ?len]) simp_all
  obtain d1 where b: "b = str_bytes ?l @ d1" and d: "d = d1 @ concat bss"
    by (rule append_split [of b "concat bss" "str_bytes ?l" d]) (use assms(2,3) in auto)
  have len: "unat ?len = length d" using assms(6) by (simp add: unat_of_nat)
  have c: "cbuf_dec b = ?l @ cbuf_dec d1" using u(3) by (simp add: b cbuf_dec_str_bytes)
  have nl: "find_idx (length (cbuf_dec b)) (\<lambda>i. cbuf_dec b ! i = CHR 0x0A) = Some (length u)"
    unfolding c u(1) by (rule newline_index [OF u(2)])
  have sc: "scan_request ''WRITE'' (cbuf_dec b) = Some (fid, offset, ?len)"
    unfolding c by (rule scan_request_line [OF assms(1)])
  have t: "take (length d) d1 = d1" by (simp add: d)
  have body: "drop (length u + 1) b = d1" using u(1) by (simp add: b)
  have rest: "recv_all (map Recv_bytes bss) (length d - length d1) = Some (True, concat bss)"
    using recv_all_pieces [OF assms(5), of "length (concat bss)" "[]"] by (simp add: d)
  have "adapter_write malloc_ok rpcW b (map Recv_bytes bss) s =
      (case client_Write rpcW fid offset d s of (n, s1) \<Rightarrow> Replied (write_answer n) s1)"
    unfolding adapter_write_def nl sc option.case prod.case Let_def body len t
    using assms(7) rest by (simp add: write_answer_def flip: d)
  moreover have "prefix_of ''WRITE|'' b"
    using prefix_of_line [of "''WRITE|''" "fid @ ''|'' @ dec_str (unat offset) @ ''|'' @ dec_str (unat ?len) @ [CHR 0x0A]" d1]
    by (simp add: b request_line_def)
  moreover have "b \<noteq> []" using u(1) by (simp add: b str_bytes_def)
  ultimately show ?thesis using assms(4) by (simp add: handle_client_def)
qed

lemma adapter_read_request:
  assumes "fid_ok fid"
  shows "handle_client malloc_ok rpcW rpcG rpcD (Recv_bytes (str_bytes (request_line ''READ'' fid offset len)) # rs) s =
    (case client_Read rpcG fid offset len s of (n, data, s1) \<Rightarrow> Replied (if n > 0 then take (nat n) data else []) s1)"
proof -
  let ?l = "request_line ''READ'' fid offset len"
  let ?t = "fid @ ''|'' @ dec_str (unat offset) @ ''|'' @ dec_str (unat len) @ [CHR 0x0A]"
  have l: "?l = ''READ|'' @ ?t" by (simp add: request_line_def)
  have "length ?l \<le> 255" using assms by (intro length_request_line) (simp_all add: fid_ok_def)
  then have short: "take 8191 (str_bytes ?l) = str_bytes ?l" "str_bytes ?l \<noteq> []" by (simp_all add: str_bytes_def l)
  obtain u where "CHR 0x00 \<notin> set ?l" by (rule request_line_split [OF assms, of "''READ''" offset len]) simp_all
  then have c: "cbuf_dec (str_bytes ?l) = ?l" using cbuf_dec_str_bytes [of ?l "[]"] by (simp add: cbuf_dec_def)
  have "\<not> prefix_of ''WRITE|'' (str_bytes ?l)" using prefix_of_other [of "''WRITE|''" ?l "[]"] by (simp add: l)
  moreover have "prefix_of ''READ|'' (str_bytes ?l)" using prefix_of_line [of "''READ|''" ?t "[]"] by (simp add: l)
  ultimately show ?thesis
    using scan_request_line [OF assms, of "''READ''" offset len "[]"]
    by (simp add: handle_client_def short Let_def adapter_read_def c)
qed

section \<open>The storage node behind the adapter\<close>

definition node_adapter ::
  "bool \<Rightarrow> (nat \<Rightarrow> fs_env) \<Rightarrow> (nat \<Rightarrow> bool) \<Rightarrow> (u64 \<Rightarrow> bool) \<Rightarrow> tcp_recv list \<Rightarrow> fused_world \<Rightarrow> fused_world adapter_result" where
  "node_adapter up e al mk rs w = handle_client mk (serve_write up e) (serve_get up e al) (serve_remove up e) rs w"

lemma fid_path:
  assumes "fid_ok fid"
  shows "c_str (rpc_normalize_path fid) = CHR ''/'' # fid" "abs_path (CHR ''/'' # fid)" "path_tokens (CHR ''/'' # fid) = [fid]"
proof -
  have ne: "fid \<noteq> []" "hd fid \<noteq> CHR ''/''" "CHR ''/'' \<notin> set fid" "CHR 0x00 \<notin> set fid" "length fid \<le> 63"
    using assms by (cases fid; auto simp: fid_ok_def)+
  then have "take 10 fid \<noteq> ''/mnt/fused''" by (cases fid) auto
  with ne have "rpc_normalize_path fid = CHR ''/'' # fid" by (simp add: rpc_normalize_path_def)
  with ne(4) show "c_str (rpc_normalize_path fid) = CHR ''/'' # fid" by (simp add: c_str_def while_until)
  show "abs_path (CHR ''/'' # fid)" by (simp add: abs_path_def)
  show "path_tokens (CHR ''/'' # fid) = [fid]" using ne by (simp add: path_tokens_def tokens_single)
qed

lemma s64_small: "unat w < 2 ^ 31 \<Longrightarrow> to_s64 (uint w) = int (unat w)" for w :: u64
proof -
  assume "unat w < 2 ^ 31"
  then have "to_s64 (int (unat w)) = int (unat w)" by (intro to_s64_id) (simp_all del: of_nat_unat)
  then show ?thesis by simp
qed

lemma write_reported:
  assumes "storage_interface_write t nid fid offset d iface = Some (0, resp, sent, iface')" "length fid \<le> 63"
    "t_line_send t = int (length (request_line ''WRITE'' fid offset (of_nat (length d))))"
  shows "sent = str_bytes (request_line ''WRITE'' fid offset (of_nat (length d))) @ d \<and>
    (\<exists>bs. t_reply t = Recv_bytes bs \<and> take 3 bs = str_bytes ''OK|'') \<and> bytes_transferred resp = of_nat (length d)"
proof -
  have l: "send_line (stack1 t) (request_line ''WRITE'' fid offset (of_nat (length d))) (t_line_send t) =
      str_bytes (request_line ''WRITE'' fid offset (of_nat (length d)))"
    unfolding assms(3) by (rule send_line_whole) (simp add: length_request_line assms(2))
  show ?thesis
    using assms(1)
    by (auto simp: storage_interface_write_def l Let_def reply_ok zero_response_def dest: send_all_sent
        split: option.splits if_splits tcp_recv.splits)
qed

lemma write_durable:
  assumes "sound_run w" "\<And>k. host_sound (e k)" "fid_ok fid" "fs_abs w [fid] \<noteq> Some ADir"
    "unat offset + length d < 2 ^ 31" "t_line_send t = int (length (request_line ''WRITE'' fid offset (of_nat (length d))))"
    "storage_interface_write t nid fid offset d iface = Some (0, resp, concat (b # bss), iface')"
    "length (request_line ''WRITE'' fid offset (of_nat (length d))) \<le> length b" "length b \<le> 8191" "[] \<notin> set bss"
    "mk (of_nat (length d))" "node_adapter up e al mk (map Recv_bytes (b # bss)) w = Replied reply v" "t_reply t = Recv_bytes reply"
  shows "up \<and> d \<noteq> [] \<and> fs_abs v = afs_write [fid] d (unat offset) (fs_abs w) \<and> sound_run v \<and> length (afs_bytes [fid] (fs_abs w)) \<le> unat offset"
proof -
  have rep: "concat (b # bss) = str_bytes (request_line ''WRITE'' fid offset (of_nat (length d))) @ d" "take 3 reply = str_bytes ''OK|''"
    using write_reported [OF assms(7) _ assms(6)] assms(3,13) by (auto simp: fid_ok_def)
  have off: "to_s64 (uint offset) = int (unat offset)" using assms(5) by (intro s64_small) simp
  have "length d < 2 ^ 64" using assms(5) by simp
  note ad = adapter_write_request [OF assms(3) rep(1) assms(8-10) this, of mk "serve_write up e" "serve_get up e al"
      "serve_remove up e" w, OF assms(11)]
  obtain n s1 where c: "client_Write (serve_write up e) fid offset d w = (n, s1)" by fastforce
  have r: "reply = write_answer n" "v = s1" using assms(12) unfolding node_adapter_def ad c by simp_all
  have pos: "n > 0" using rep(2) write_answer_ok by (simp add: r)
  then have up: up using c by (auto simp: client_Write_def serve_write_def split: if_splits)
  obtain wr w1 where rw: "rpc_Write e fid d (int (unat offset)) w = (wr, w1)" by fastforce
  then have wr: "w_status wr = 0" "to_s32 (w_bytes wr) = n" "w1 = v"
    using c pos up unfolding r client_Write_def serve_write_def off by (auto split: if_splits)
  have b: "int (unat offset) + int (length d) < 2 ^ 63" "length d < 2 ^ 31" using assms(5) by (simp_all del: of_nat_unat)
  have dir: "fs_abs w (path_tokens (CHR ''/'' # fid)) \<noteq> Some ADir" using assms(4) fid_path(3) [OF assms(3)] by simp
  note ab = rpc_Write_abs [OF assms(1,2) fid_path(1) [OF assms(3), symmetric] fid_path(2) [OF assms(3)] dir b rw wr(1)]
  have "w_bytes wr \<noteq> 0" using wr(2) pos by (auto simp: to_s32_def)
  with ab have "d \<noteq> []" by auto
  with ab rpc_Write_sound [OF assms(1,2) b(1) rw] up wr(3) show ?thesis
    by (simp add: fid_path(3) [OF assms(3)] del: of_nat_unat)
qed

lemma read_delivers:
  assumes "sound_run v" "\<And>k. host_sound (e k)" "fid_ok fid" "fs_abs v [fid] = Some (AFile c)" "length c < 2 ^ 31"
    "0 < unat len" "unat offset + unat len \<le> length c" "al (unat len)" "t_malloc t len"
    "storage_interface_get_node iface nid = Some nd" "connect_to_storage_node t \<ge> 0"
    "t_line_send t = int (length (request_line ''READ'' fid offset len))"
    "node_adapter True e al mk [Recv_bytes (str_bytes (request_line ''READ'' fid offset len))] v = Replied reply u"
    "t_data_recvs t = map Recv_bytes bss" "concat bss = reply" "[] \<notin> set bss"
  shows "\<exists>resp iface'. storage_interface_read t nid fid offset len iface =
      Some (0, resp, str_bytes (request_line ''READ'' fid offset len), iface') \<and> status resp = 0 \<and>
      rdata resp = Some (take (unat len) (drop (unat offset) c))"
proof -
  let ?g = "take (unat len) (drop (unat offset) c)"
  have g: "length ?g = unat len" using assms(7) by simp
  have s: "to_s64 (uint offset) = int (unat offset)" "to_s64 (uint len) = int (unat len)" using assms(5,7) by (intro s64_small; simp)+
  have fs: "fs_abs v (path_tokens (CHR ''/'' # fid)) = Some (AFile c)" using assms(4) fid_path(3) [OF assms(3)] by simp
  have "0 < int (unat len)" "int (unat offset) + int (unat len) < 2 ^ 63" using assms(5-7) by (simp_all del: of_nat_unat)
  then obtain v' where get: "rpc_Get e al fid (int (unat offset)) (int (unat len)) v = Some (\<lparr>g_status = 0, g_data = ?g, g_bytes = int (length ?g)\<rparr>, v')"
    using rpc_Get_abs [OF assms(1), of e, OF assms(2) fid_path(1) [OF assms(3), symmetric] fs, of al "int (unat len)" "int (unat offset)"] assms(5,8) by auto
  have n: "to_s32 (int (unat len)) = int (unat len)" using assms(5,7) by (intro to_s32_id) (simp_all del: of_nat_unat)
  have cr: "client_Read (serve_get True e al) fid offset len v = (int (unat len), ?g, v')"
    unfolding client_Read_def serve_get_def s using get g n by (simp del: length_take)
  have "reply = ?g"
    using assms(6,13) unfolding node_adapter_def adapter_read_request [OF assms(3)] cr prod.case
    by (simp del: of_nat_unat)
  then have "recv_all (t_data_recvs t) (unat len) = Some (True, ?g)"
    using recv_all_pieces [OF assms(16), of "unat len" "[]"] assms(14,15) g by simp
  moreover have "send_line (stack1 t) (request_line ''READ'' fid offset len) (t_line_send t) = str_bytes (request_line ''READ'' fid offset len)"
    unfolding assms(12) by (rule send_line_whole) (use assms(3) in \<open>simp add: length_request_line fid_ok_def\<close>)
  moreover have "\<not> t_line_send t < 0" "\<not> connect_to_storage_node t < 0" using assms(11,12) by simp_all
  ultimately show ?thesis
    using assms(9,10) by (simp add: storage_interface_read_def Let_def zero_response_def)
qed

section \<open>Properties\<close>

text \<open>C16: on a storage node whose host does not fail and has not failed before (and where no write ended
  beyond \<open>2 ^ 63\<close>), a write that the storage
  interface reports as successful is in the node's file system: the file holds the data from the
  offset on and nothing else changed. Reading the same range back through the interface, the adapter
  and the server returns the data. The file id is a plain name that no directory has, the file stays
  below \<open>2 ^ 31\<close> bytes and there is memory for the data. Each request line is taken by one \<^verbatim>\<open>send\<close>. The
  adapter's first \<^verbatim>\<open>recv\<close> of the write gets at least the whole line and at most 8191 bytes, that of the
  read gets the whole line (the code does not wait for its end); the data of the write and the
  answer of the read travel in any pieces.\<close>

theorem storage_node_roundtrip:
  assumes "sound_run w" "\<forall>k. host_sound (e k) \<and> host_sound (e' k)" "fid_ok fid" "fs_abs w [fid] \<noteq> Some ADir"
    "unat offset + length d < 2 ^ 31" "t_line_send t = int (length (request_line ''WRITE'' fid offset (of_nat (length d))))"
    "storage_interface_write t nid fid offset d iface = Some (0, resp, concat (b # bss), iface')"
    "length (request_line ''WRITE'' fid offset (of_nat (length d))) \<le> length b" "length b \<le> 8191" "[] \<notin> set bss"
    "mk (of_nat (length d))" "node_adapter up e al mk (map Recv_bytes (b # bss)) w = Replied reply v" "t_reply t = Recv_bytes reply"
    "al' (length d)" "t_malloc t' (of_nat (length d))"
    "storage_interface_get_node iface2 nid = Some nd" "connect_to_storage_node t' \<ge> 0"
    "t_line_send t' = int (length (request_line ''READ'' fid offset (of_nat (length d))))"
    "node_adapter True e' al' mk' [Recv_bytes (str_bytes (request_line ''READ'' fid offset (of_nat (length d))))] v = Replied answer u"
    "t_data_recvs t' = map Recv_bytes bss'" "concat bss' = answer" "[] \<notin> set bss'"
  shows "fs_abs v = afs_write [fid] d (unat offset) (fs_abs w) \<and>
    (\<exists>resp' sent iface3. storage_interface_read t' nid fid offset (of_nat (length d)) iface2 = Some (0, resp', sent, iface3) \<and>
       status resp' = 0 \<and> rdata resp' = Some d)"
proof -
  have hs: "\<And>k. host_sound (e k)" "\<And>k. host_sound (e' k)" using assms(2) by auto
  note wr = write_durable [OF assms(1) hs(1) assms(3-13)]
  let ?old = "afs_bytes [fid] (fs_abs w)" and ?len = "of_nat (length d) :: u64"
  let ?c = "?old @ replicate (unat offset - length ?old) 0 @ d"
  have fl: "fs_abs v [fid] = Some (AFile ?c)" using wr by (simp add: afs_write_def)
  have len: "unat ?len = length d" using assms(5) by (simp add: unat_of_nat)
  have c: "length ?c < 2 ^ 31" "0 < unat ?len" "unat offset + unat ?len \<le> length ?c" "al' (unat ?len)"
    using wr assms(5,14) len by auto
  have "take (unat ?len) (drop (unat offset) ?c) = d" using wr len by simp
  with read_delivers [OF _ hs(2) assms(3) fl c assms(15-22)] wr show ?thesis by auto
qed

definition demo_put :: tcp_env where
  "demo_put = demo_tcp_env\<lparr>t_reply := Recv_bytes (str_bytes (''OK|3'' @ [CHR 0x0A]))\<rparr>"

definition demo_fetch :: tcp_env where
  "demo_fetch = demo_tcp_env\<lparr>t_line_send := 12, t_data_recvs := [Recv_bytes [7], Recv_bytes [8, 9]]\<rparr>"

lemma demo_lines: "length (request_line ''WRITE'' ''ab'' 0 3) = 13" "length (request_line ''READ'' ''ab'' 0 3) = 12"
  by (simp_all add: request_line_def dec_str.simps)

theorem storage_node_roundtrip_witness:
  "\<exists>reply v answer u resp' sent iface3.
     node_adapter True (\<lambda>_. demo_host) (\<lambda>_. True) (\<lambda>_. True) [Recv_bytes (str_bytes (request_line ''WRITE'' ''ab'' 0 3)), Recv_bytes [7, 8, 9]] demo_server = Replied reply v \<and>
     node_adapter True (\<lambda>_. demo_host) (\<lambda>_. True) (\<lambda>_. True) [Recv_bytes (str_bytes (request_line ''READ'' ''ab'' 0 3))] v = Replied answer u \<and>
     fs_abs v [''ab''] = Some (AFile [7, 8, 9]) \<and>
     storage_interface_read demo_fetch 103 ''ab'' 0 3 demo_iface = Some (0, resp', sent, iface3) \<and> rdata resp' = Some [7, 8, 9]"
proof -
  let ?h = "\<lambda>_ :: nat. demo_host" and ?al = "\<lambda>_ :: nat. True" and ?mk = "\<lambda>_ :: u64. True" and ?d = "[7, 8, 9] :: byte list"
  let ?b = "str_bytes (request_line ''WRITE'' ''ab'' 0 3)"
  have fid: "fid_ok ''ab''" by (simp add: fid_ok_def)
  have dec_3: "dec_str 3 = ''3''" by code_simp
  have "case client_Write (serve_write True ?h) ''ab'' 0 ?d demo_server of (n, v) \<Rightarrow> n = 3 \<and>
      (case client_Read (serve_get True ?h ?al) ''ab'' 0 3 v of (m, a, u) \<Rightarrow> m = 3 \<and> a = ?d)"
    by code_simp
  then obtain v u where cw: "client_Write (serve_write True ?h) ''ab'' 0 ?d demo_server = (3, v)"
    and cr: "client_Read (serve_get True ?h ?al) ''ab'' 0 3 v = (3, ?d, u)"
    by (auto split: prod.splits)
  have ad: "node_adapter True ?h ?al ?mk [Recv_bytes ?b, Recv_bytes ?d] demo_server = Replied (str_bytes (''OK|3'' @ [CHR 0x0A])) v"
    using adapter_write_request [OF fid, of ?b "[?d]" 0 ?d ?mk "serve_write True ?h" "serve_get True ?h ?al" "serve_remove True ?h" demo_server] demo_lines
    by (simp add: node_adapter_def cw write_answer_def dec_3)
  have rd: "node_adapter True ?h ?al ?mk [Recv_bytes (str_bytes (request_line ''READ'' ''ab'' 0 3))] v = Replied ?d u"
    unfolding node_adapter_def adapter_read_request [OF fid] cr by simp
  have "case storage_interface_write demo_put 103 ''ab'' 0 ?d demo_iface of Some (rc, _, sent, _) \<Rightarrow> rc = 0 \<and> sent = ?b @ ?d | _ \<Rightarrow> False"
    by code_simp
  then obtain resp iface' where wr: "storage_interface_write demo_put 103 ''ab'' 0 ?d demo_iface = Some (0, resp, concat [?b, ?d], iface')"
    by (auto split: option.splits)
  have old: "fs_abs demo_server [''ab''] = None" using demo_server_empty by (simp add: path_tokens_def)
  have "fs_abs v = afs_write [''ab''] ?d (unat (0 :: u64)) (fs_abs demo_server) \<and>
    (\<exists>resp' sent iface3. storage_interface_read demo_fetch 103 ''ab'' 0 (of_nat (length ?d)) demo_iface = Some (0, resp', sent, iface3) \<and>
       status resp' = 0 \<and> rdata resp' = Some ?d)"
    by (rule storage_node_roundtrip [where e = ?h and e' = ?h and al = ?al and al' = ?al and mk = ?mk and mk' = ?mk and up = True
          and t = demo_put and b = ?b and bss = "[?d]" and bss' = "[[7], [8, 9]]" and answer = ?d and u = u
          and reply = "str_bytes (''OK|3'' @ [CHR 0x0A])", OF _ _ _ _ _ _ wr])
      (use old ad rd demo_lines in \<open>simp_all add: fid connect_to_storage_node_def demo_put_def demo_fetch_def demo_tcp_env_def\<close>)
  then show ?thesis using ad rd old by (auto simp: afs_write_def afs_bytes_def)
qed

text \<open>A read of a file that the storage node does not have is reported as a success that read
  nothing: the adapter sends no answer, and the interface takes the closed connection for the end
  of the data.\<close>

theorem failed_read_is_empty_success:
  assumes "sound_run v" "fid_ok fid" "fs_abs v [fid] = None" "0 < len"
    "storage_interface_get_node iface nid = Some nd" "connect_to_storage_node t \<ge> 0" "t_line_send t \<ge> 0" "t_malloc t len"
    "node_adapter True e al mk [Recv_bytes (str_bytes (request_line ''READ'' fid offset len))] v = Replied answer u"
    "t_data_recvs t = map Recv_bytes bss @ [Recv_bytes []]" "concat bss = answer" "[] \<notin> set bss"
  shows "\<exists>resp sent iface'. storage_interface_read t nid fid offset len iface = Some (0, resp, sent, iface') \<and>
    status resp = 0 \<and> rdata resp = Some []"
proof -
  have "path_to_inode v (CHR ''/'' # fid) = None"
    using assms(3) fid_path [OF assms(2)] by (simp add: path_resolve [OF assms(1)] fs_abs_def node_at_def split: option.splits)
  then have "rpc_Get e al fid off n v = Some (\<lparr>g_status = - errno_code ENOENT, g_data = [], g_bytes = 0\<rparr>, v)" for off n
    by (simp add: rpc_Get_def fid_path(1) [OF assms(2)])
  then have "client_Read (serve_get True e al) fid offset len v = (- 1, [], v)"
    by (simp add: client_Read_def serve_get_def)
  then have "answer = []"
    using assms(9) by (simp add: node_adapter_def adapter_read_request [OF assms(2)])
  moreover have "0 < unat len" using assms(4) by (simp add: word_less_nat_alt)
  ultimately show ?thesis
    using read_closed [OF assms(5-8,10,12), of fid offset] assms(11) by (auto simp: zero_response_def)
qed

theorem failed_read_is_empty_success_witness:
  "\<exists>answer u resp sent iface'.
     node_adapter True (\<lambda>_. demo_host) (\<lambda>_. True) (\<lambda>_. True) [Recv_bytes (str_bytes (request_line ''READ'' ''ab'' 0 3))] demo_server = Replied answer u \<and>
     storage_interface_read (demo_fetch\<lparr>t_data_recvs := [Recv_bytes []]\<rparr>) 103 ''ab'' 0 3 demo_iface = Some (0, resp, sent, iface') \<and>
     rdata resp = Some []"
proof -
  let ?h = "\<lambda>_ :: nat. demo_host" and ?al = "\<lambda>_ :: nat. True" and ?mk = "\<lambda>_ :: u64. True"
  have fid: "fid_ok ''ab''" by (simp add: fid_ok_def)
  have "fst (client_Read (serve_get True ?h ?al) ''ab'' 0 3 demo_server) = - 1" by code_simp
  then obtain u where ad: "node_adapter True ?h ?al ?mk [Recv_bytes (str_bytes (request_line ''READ'' ''ab'' 0 3))] demo_server = Replied [] u"
    unfolding node_adapter_def adapter_read_request [OF fid]
    by (cases "client_Read (serve_get True ?h ?al) ''ab'' 0 3 demo_server") auto
  have old: "fs_abs demo_server [''ab''] = None" using demo_server_empty by (simp add: path_tokens_def)
  have "\<exists>resp sent iface'. storage_interface_read (demo_fetch\<lparr>t_data_recvs := [Recv_bytes []]\<rparr>) 103 ''ab'' 0 3 demo_iface = Some (0, resp, sent, iface') \<and>
    status resp = 0 \<and> rdata resp = Some []"
    by (rule failed_read_is_empty_success [OF demo_server_sound(2) _ old _ demo_iface_node _ _ _ ad, where bss = "[]"])
      (simp_all add: fid_ok_def demo_fetch_def demo_tcp_env_def connect_to_storage_node_def)
  with ad show ?thesis by blast
qed

end
