(* ===== verification/System_Props.thy ===== *)
theory System_Props
  imports Frontend_Props Storage_Node_Props
begin

text \<open>
  The system end to end: a coordinator with the storage nodes behind its storage interface, each
  node an adapter, an RPC server and a file system. What an acknowledged exchange leaves on a
  node, and what a later exchange fetches from it, is the contract \<open>durable_replicas\<close>; from it a
  write that the coordinator reports as successful is what a later read returns.
\<close>

section \<open>Exchanges with a storage node\<close>

text \<open>The exchange \<open>t\<close> of the storage interface is served by a node: the request reaches the adapter in
  some pieces (the first at least the request line), the adapter runs on the node's file system,
  and its reply is what the interface receives.\<close>

definition write_served :: "tcp_env \<Rightarrow> string \<Rightarrow> u64 \<Rightarrow> byte list \<Rightarrow> fused_world \<Rightarrow> fused_world \<Rightarrow> bool" where
  "write_served t fid off d w v \<longleftrightarrow>
     (let line = request_line ''WRITE'' fid off (of_nat (length d)) in
      t_line_send t = int (length line) \<and>
      (\<exists>b bss up e al mk reply. concat (b # bss) = str_bytes line @ d \<and> length line \<le> length b \<and> length b \<le> 8191 \<and>
         [] \<notin> set bss \<and> (\<forall>k. host_sound (e k)) \<and> mk (of_nat (length d)) \<and>
         node_adapter up e al mk (map Recv_bytes (b # bss)) w = Replied reply v \<and> t_reply t = Recv_bytes reply))"

definition read_served :: "tcp_env \<Rightarrow> string \<Rightarrow> u64 \<Rightarrow> u64 \<Rightarrow> fused_world \<Rightarrow> bool" where
  "read_served t fid off len v \<longleftrightarrow>
     (let line = request_line ''READ'' fid off len in
      connect_to_storage_node t \<ge> 0 \<and> t_line_send t = int (length line) \<and> t_malloc t len \<and>
      (\<exists>e al mk answer u bss. (\<forall>k. host_sound (e k)) \<and> al (unat len) \<and>
         node_adapter True e al mk [Recv_bytes (str_bytes line)] v = Replied answer u \<and>
         t_data_recvs t = map Recv_bytes bss \<and> concat bss = answer \<and> [] \<notin> set bss))"

definition file_fits :: "string \<Rightarrow> u64 \<Rightarrow> byte list \<Rightarrow> fused_world \<Rightarrow> bool" where
  "file_fits fid off d w \<longleftrightarrow> sound_run w \<and> fid_ok fid \<and> fs_abs w [fid] \<noteq> Some ADir \<and> unat off + length d < 2 ^ 31"

section \<open>The contract of a replica\<close>

locale durable_replicas =
  fixes acked :: "'t \<Rightarrow> 'q \<Rightarrow> 'w \<Rightarrow> 'w \<Rightarrow> bool"
    and fetched :: "'t \<Rightarrow> 'q \<Rightarrow> 'w \<Rightarrow> 'v option \<Rightarrow> bool"
    and content :: "'q \<Rightarrow> 'v"
  assumes durable: "acked t q w v \<Longrightarrow> fetched t' q v x \<Longrightarrow> x = Some (content q)"
begin

lemma majority_fetched:
  assumes "J \<subseteq> {..<length vs}" "n < 2 * card J" "\<And>j. j \<in> J \<Longrightarrow> acked (t j) q (w j) (v j)"
    "\<And>j. j \<in> J \<Longrightarrow> fetched (t' j) q (v j) (vs ! j)"
  shows "n < 2 * count_list vs (Some (content q))"
proof -
  have "J \<subseteq> {j. j < length vs \<and> Some (content q) = vs ! j}"
    using assms(1) durable [OF assms(3,4)] by auto
  then have "card J \<le> count_list vs (Some (content q))"
    unfolding count_list_eq_length_filter length_filter_conv_card by (intro card_mono) auto
  with assms(2) show ?thesis by simp
qed

end

text \<open>An exchange of the coordinator with one replica: the answers, the replica's id and the node table.\<close>

type_synonym exchange = "tcp_env \<times> u32 \<times> storage_interface"

fun node_acked :: "exchange \<Rightarrow> string \<times> u64 \<times> byte list \<Rightarrow> fused_world \<Rightarrow> fused_world \<Rightarrow> bool" where
  "node_acked (t, nid, iface) (fid, off, d) w v \<longleftrightarrow>
     replica_wrote t nid fid off d iface \<and> write_served t fid off d w v \<and> file_fits fid off d w"

fun node_fetched :: "exchange \<Rightarrow> string \<times> u64 \<times> byte list \<Rightarrow> fused_world \<Rightarrow> byte list option \<Rightarrow> bool" where
  "node_fetched (t, nid, iface) (fid, off, d) v x \<longleftrightarrow>
     replica_value t nid fid off (of_nat (length d)) iface = Some x \<and> read_served t fid off (of_nat (length d)) v \<and>
     storage_interface_get_node iface nid \<noteq> None"

lemma write_served_durable:
  assumes "replica_wrote t nid fid off d iface" "write_served t fid off d w v" "file_fits fid off d w"
  shows "d \<noteq> [] \<and> sound_run v \<and> fs_abs v = afs_write [fid] d (unat off) (fs_abs w) \<and> length (afs_bytes [fid] (fs_abs w)) \<le> unat off"
proof -
  let ?line = "request_line ''WRITE'' fid off (of_nat (length d))"
  obtain resp sent iface' where r: "storage_interface_write t nid fid off d iface = Some (0, resp, sent, iface')"
    using assms(1) by (auto simp: replica_wrote_def split: option.splits)
  have fid: "sound_run w" "fid_ok fid" "fs_abs w [fid] \<noteq> Some ADir" "unat off + length d < 2 ^ 31" "length fid \<le> 63"
    using assms(3) by (auto simp: file_fits_def fid_ok_def)
  have line: "t_line_send t = int (length ?line)" using assms(2) by (simp add: write_served_def Let_def)
  obtain b bss up e al mk reply where s: "concat (b # bss) = str_bytes ?line @ d" "length ?line \<le> length b" "length b \<le> 8191" "[] \<notin> set bss"
      "\<And>k. host_sound (e k)" "mk (of_nat (length d))" "node_adapter up e al mk (map Recv_bytes (b # bss)) w = Replied reply v" "t_reply t = Recv_bytes reply"
    using assms(2) unfolding write_served_def Let_def by blast
  have "sent = concat (b # bss)" using write_reported [OF r fid(5) line] s(1) by metis
  with write_durable [OF fid(1) s(5) fid(2,3,4) line _ s(2-4,6-8)] r show ?thesis by blast
qed

interpretation node_replicas: durable_replicas node_acked node_fetched "\<lambda>(fid, off, d). d"
proof
  fix t t' :: exchange and q :: "string \<times> u64 \<times> byte list" and w v x
  assume ack: "node_acked t q w v" and get: "node_fetched t' q v x"
  obtain ta n1 i1 tb n2 i2 fid off d where eq: "t = (ta, n1, i1)" "t' = (tb, n2, i2)" "q = (fid, off, d)"
    by (cases t; cases t'; cases q) auto
  have a: "replica_wrote ta n1 fid off d i1" "write_served ta fid off d w v" "file_fits fid off d w" using ack by (simp_all add: eq)
  note wr = write_served_durable [OF a]
  let ?old = "afs_bytes [fid] (fs_abs w)" and ?len = "of_nat (length d) :: u64"
  let ?c = "?old @ replicate (unat off - length ?old) 0 @ d"
  let ?line = "request_line ''READ'' fid off ?len"
  have fl: "fs_abs v [fid] = Some (AFile ?c)" using wr by (simp add: afs_write_def)
  have b: "fid_ok fid" "unat off + length d < 2 ^ 31" using a(3) by (simp_all add: file_fits_def)
  have len: "unat ?len = length d" using b(2) by (simp add: unat_of_nat)
  have c: "length ?c < 2 ^ 31" "0 < unat ?len" "unat off + unat ?len \<le> length ?c" "take (unat ?len) (drop (unat off) ?c) = d"
    using wr b(2) len by auto
  have g: "replica_value tb n2 fid off ?len i2 = Some x" "read_served tb fid off ?len v" using get by (simp_all add: eq)
  obtain nd where nd: "storage_interface_get_node i2 n2 = Some nd" using get by (auto simp: eq)
  have t: "t_malloc tb ?len" "connect_to_storage_node tb \<ge> 0" "t_line_send tb = int (length ?line)" using g(2) by (simp_all add: read_served_def Let_def)
  obtain e al mk answer u bss where s: "\<And>k. host_sound (e k)" "al (unat ?len)"
      "node_adapter True e al mk [Recv_bytes (str_bytes ?line)] v = Replied answer u" "t_data_recvs tb = map Recv_bytes bss" "concat bss = answer" "[] \<notin> set bss"
    using g(2) unfolding read_served_def Let_def by blast
  have "sound_run v" using wr by simp
  from read_delivers [OF this s(1) b(1) fl c(1-3) s(2) t(1) nd t(2,3) s(3-6)] c(4) g(1) show "x = Some (case q of (fid, off, d) \<Rightarrow> d)"
    by (auto simp: replica_value_def eq)
qed


section \<open>Reading a written file\<close>

text \<open>The entry of a path after a write that nothing interleaves with.\<close>

lemma written_lookup:
  assumes "frontend_inv fe" "metadata_lookup_by_path (fe_meta fe) (c_str (normalize_path p)) = Some a" "x = heap (fe_meta fe) a"
    "\<forall>y \<in> ran (meta_map (fe_meta fe)). fpath y = fpath x \<and> fstate y \<noteq> FILE_STATE_DELETED \<longrightarrow> y = x"
    "tab_inv (fe_meta fe')" "meta_map (fe_meta fe') = (meta_map (fe_meta fe))(file_id x \<mapsto> y)"
    "fpath y = fpath x" "fstate y = fstate x"
  obtains a' where "metadata_lookup_by_path (fe_meta fe') (c_str (normalize_path p)) = Some a'" "heap (fe_meta fe') a' = y"
proof -
  note l = looked_up [OF assms(1,2), folded assms(3)]
  have y: "y \<in> ran (meta_map (fe_meta fe'))" "fstate y \<noteq> FILE_STATE_DELETED" "fpath y = c_str (normalize_path p)"
    using assms(6-8) l(3,4) by (auto simp: ran_def)
  then have "metadata_lookup_by_path (fe_meta fe') (c_str (normalize_path p)) \<noteq> None"
    using assms(5) by (auto simp: lookup_by_path_None all_nodes_ran)
  then obtain a' where a': "metadata_lookup_by_path (fe_meta fe') (c_str (normalize_path p)) = Some a'" by blast
  let ?z = "heap (fe_meta fe') a'"
  have z: "?z \<in> ran (meta_map (fe_meta fe'))" "fpath ?z = fpath x" "fstate ?z \<noteq> FILE_STATE_DELETED"
    using lookup_by_path_nodes [OF a'] all_nodes_ran [OF assms(5)] l(3) by auto
  have "?z = y"
  proof (rule ccontr)
    assume ne: "?z \<noteq> y"
    obtain k where k: "meta_map (fe_meta fe') k = Some ?z" using z(1) by (auto simp: ran_def)
    with ne have old: "meta_map (fe_meta fe) k = Some ?z" "k \<noteq> file_id x" using assms(6) by (auto split: if_splits)
    then have "?z = x" using assms(4) z(2,3) by (auto simp: ran_def)
    moreover have "file_id ?z = k" using ran_file_id old(1) assms(1) by (auto simp: frontend_inv_def)
    ultimately show False using old(2) by simp
  qed
  with a' that show ?thesis by blast
qed

lemma written_entry_fields [simp]:
  "fpath (written_entry e x off d) = fpath x" "fstate (written_entry e x off d) = fstate x" "file_id (written_entry e x off d) = file_id x"
  "replica_ids (written_entry e x off d) = replica_ids x" "num_storage_nodes (written_entry e x off d) = num_storage_nodes x"
  by (simp_all add: written_entry_def replica_ids_def)

lemma write_effect:
  assumes "frontend_inv fe" "undisturbed e"
    "metadata_lookup_by_path (fe_meta fe) (c_str (normalize_path p)) = Some a" "x = heap (fe_meta fe) a" "replica_ids x = Some ids"
    "Write e p d off fe = Some (r, ne, fe')" "wr_status r = 0"
  shows "replica_quorum x {j. j < length ids \<and> replica_wrote (rq_tcp e j) (ids ! j) (file_id x) (write_at x off) d (fe_store fe)} \<and>
    frontend_inv fe' \<and> same_nodes (fe_store fe) (fe_store fe') \<and>
    meta_map (fe_meta fe') = (meta_map (fe_meta fe))(file_id x \<mapsto> written_entry e x off d)"
  using assms(6,1) undisturbed_ok [OF assms(2)]
proof (cases rule: Write_cases)
  case failed
  with assms(7) show ?thesis by simp
next
  case (written a1 ids1 c bytes iface)
  have eq: "heap (fe_meta fe) a1 = x" "ids1 = ids" using written(1,2) assms(3-5) by simp_all
  note w = written [unfolded eq]
  have "replica_quorum x {j. j < length ids \<and> replica_wrote (rq_tcp e j) (ids ! j) (file_id x) (write_at x off) d (fe_store fe)}"
    using write_replicas_quorum [OF w(3) assms(5) w(4)] by simp
  moreover have ok: "entry_wt (written_entry e x off d)" using looked_up(2) [OF assms(1,3)] by (simp add: assms(4))
  obtain xs where xs: "table_steps (fe_meta fe) xs (fe_meta fe')" "set xs \<subseteq> {written_entry e x off d}" "written_entry e x off d \<in> set xs"
      "frontend_inv fe'" "fe_store fe' = iface"
    using commit_effect [OF w(8,7) ok undisturbed_ok [OF assms(2)]] assms(2) by (auto simp: undisturbed_def)
  then have "xs \<noteq> []" by auto
  with puts_single [OF xs(2)] xs(1) have "meta_map (fe_meta fe') = (meta_map (fe_meta fe))(file_id x \<mapsto> written_entry e x off d)"
    by (simp add: table_steps_def)
  ultimately show ?thesis using xs(4,5) write_replicas_nodes [OF w(3)] by simp
qed

text \<open>When the coordinator reports a write as successful, the storage nodes that acknowledged it have
  the data in their file systems, and reading the range back through the coordinator, with the
  acknowledging nodes answering, succeeds with exactly the data, whatever the other replicas answer.\<close>

lemma write_then_get:
  assumes "frontend_inv fe" "undisturbed e"
    "metadata_lookup_by_path (fe_meta fe) (c_str (normalize_path p)) = Some a" "x = heap (fe_meta fe) a" "replica_ids x = Some ids"
    "\<forall>y \<in> ran (meta_map (fe_meta fe)). fpath y = fpath x \<and> fstate y \<noteq> FILE_STATE_DELETED \<longrightarrow> y = x"
    "Write e p d off fe = Some (r, ne, fe')" "wr_status r = 0"
    "\<forall>j<length ids. file_fits (file_id x) (write_at x off) d (w j)"
    "\<forall>j<length ids. replica_wrote (rq_tcp e j) (ids ! j) (file_id x) (write_at x off) d (fe_store fe) \<longrightarrow>
       write_served (rq_tcp e j) (file_id x) (write_at x off) d (w j) (v j) \<and>
       read_served (rq_tcp e' j) (file_id x) (write_at x off) (of_nat (length d)) (v j)"
    "\<forall>j<length ids. replica_value (rq_tcp e' j) (ids ! j) (file_id x) (write_at x off) (of_nat (length d)) (fe_store fe') \<noteq> None"
  shows "2 * card {j. j < length ids \<and> fs_abs (v j) = afs_write [file_id x] d (unat (write_at x off)) (fs_abs (w j))} > unat (num_storage_nodes x) \<and>
    (\<exists>r' fe''. Get e' nf n_env t_env ask p (int (unat (write_at x off))) (int (length d)) fe' = Some (r', [], fe'') \<and>
       gr_status r' = 0 \<and> gr_data r' = d)"
proof -
  let ?at = "write_at x off" and ?fid = "file_id x" and ?n = "unat (num_storage_nodes x)" and ?y = "written_entry e x off d"
  let ?J = "{j. j < length ids \<and> replica_wrote (rq_tcp e j) (ids ! j) ?fid ?at d (fe_store fe)}"
  note eff = write_effect [OF assms(1-5,7,8)]
  have maj: "?n < 2 * card ?J" using eff by (auto simp: replica_quorum_def quorum_unat)
  then have "?J \<noteq> {}" by (metis card.empty mult_0_right not_less_zero)
  have n0: "num_storage_nodes x \<noteq> 0" using \<open>?J \<noteq> {}\<close> replica_ids_length [OF assms(5)] by auto
  have ack: "replica_wrote (rq_tcp e j) (ids ! j) ?fid ?at d (fe_store fe)" "write_served (rq_tcp e j) ?fid ?at d (w j) (v j)"
      "file_fits ?fid ?at d (w j)" "read_served (rq_tcp e' j) ?fid ?at (of_nat (length d)) (v j)" if "j \<in> ?J" for j
    using that assms(9,10) by auto
  note dur = write_served_durable [OF ack(1-3)]
  have "?J \<subseteq> {j. j < length ids \<and> fs_abs (v j) = afs_write [?fid] d (unat ?at) (fs_abs (w j))}" using dur by auto
  from card_mono [OF _ this] maj have one: "?n < 2 * card {j. j < length ids \<and> fs_abs (v j) = afs_write [?fid] d (unat ?at) (fs_abs (w j))}" by simp
  obtain j0 where "j0 \<in> ?J" using \<open>?J \<noteq> {}\<close> by blast
  then have d: "d \<noteq> []" "length d < 2 ^ 31" using dur [of j0] ack(3) [of j0] by (auto simp: file_fits_def)
  have tab: "tab_inv (fe_meta fe')" using eff by (simp add: frontend_inv_def)
  obtain a' where a': "metadata_lookup_by_path (fe_meta fe') (c_str (normalize_path p)) = Some a'" "?y = heap (fe_meta fe') a'"
    using eff by (auto intro: written_lookup [OF assms(1,3,4,6) tab])
  have sz: "get_size ?y (int (unat ?at)) (int (length d)) = of_nat (length d)" using d by (simp add: get_size_def)
  define vs where "vs = map (\<lambda>j. the (replica_value (rq_tcp e' j) (ids ! j) ?fid ?at (of_nat (length d)) (fe_store fe'))) [0..<length ids]"
  have vs: "length vs = length ids" "\<forall>j<length ids. replica_value (rq_tcp e' j) (ids ! j) ?fid ?at (of_nat (length d)) (fe_store fe') = Some (vs ! j)"
    using assms(11) by (auto simp: vs_def)
  have fet: "node_fetched (rq_tcp e' j, ids ! j, fe_store fe') (?fid, ?at, d) (v j) (vs ! j)" if "j \<in> ?J" for j
  proof -
    have "storage_interface_get_node (fe_store fe) (ids ! j) \<noteq> None"
      using ack(1) [OF that] by (auto simp: replica_wrote_def storage_interface_write_def split: option.splits)
    moreover have "same_nodes (fe_store fe) (fe_store fe')" using eff by blast
    ultimately show ?thesis using ack(4) [OF that] that vs(2) by (simp add: get_node_same)
  qed
  have ackd: "node_acked (rq_tcp e j, ids ! j, fe_store fe) (?fid, ?at, d) (w j) (v j)" if "j \<in> ?J" for j
    using ack(1-3) [OF that] by simp
  have "?J \<subseteq> {..<length vs}" by (auto simp: vs(1))
  from node_replicas.majority_fetched [OF this maj ackd fet] have "?n < 2 * count_list vs (Some d)" by simp
  moreover obtain r' fe'' where "Get e' nf n_env t_env ask p (int (unat ?at)) (int (length d)) fe' = Some (r', [], fe'')"
      "\<forall>z. gr_status r' = 0 \<and> gr_data r' = z \<longleftrightarrow> ?n < 2 * count_list vs (Some z)"
    using get_reads_majority [OF a', of ids vs e' "int (unat ?at)" "int (length d)" nf n_env t_env ask] n0 assms(5) vs sz by auto
  ultimately show ?thesis using one by blast
qed


section \<open>A concrete write and read\<close>

definition demo_writes :: request_env where
  "demo_writes = demo_request\<lparr>rq_tcp := (\<lambda>_. demo_put)\<rparr>"

definition demo_fetches :: request_env where
  "demo_fetches = demo_request\<lparr>rq_tcp := (\<lambda>_. demo_fetch)\<rparr>"

lemma demo_writes_simps [simp]: "rq_tcp demo_writes = (\<lambda>_. demo_put)" "rq_tcp demo_fetches = (\<lambda>_. demo_fetch)" "rq_propose demo_writes = demo_pe"
  "rq_malloc demo_writes" "rq_time demo_writes = rq_time demo_request" "undisturbed demo_writes"
  using demo_undisturbed by (simp_all add: demo_writes_def demo_fetches_def undisturbed_def commit_ok_def memory_left_def)

lemma demo_write: "\<exists>r ne fe'. Write demo_writes ''/a'' [7, 8, 9] 0 (demo_fe demo_table) = Some (r, ne, fe') \<and> wr_status r = 0"
proof -
  let ?fe = "demo_fe demo_table" and ?d = "[7, 8, 9] :: byte list"
  obtain a where a: "metadata_lookup_by_path demo_table ''/a'' = Some a" "heap demo_table a = demo_file" using demo_lookup by blast
  have "case write_replicas (\<lambda>_. demo_put) 0 [101, 102, 103] ''u1'' 3 ?d (0, 0) demo_iface of None \<Rightarrow> False | Some (c, b, i) \<Rightarrow> c = 3" by code_simp
  then obtain b iface where w: "write_replicas (\<lambda>_. demo_put) 0 [101, 102, 103] ''u1'' 3 ?d (0, 0) demo_iface = Some (3, b, iface)"
    by (auto split: option.splits)
  let ?y = "written_entry demo_request demo_file 0 ?d"
  obtain ne fe' where c: "commit_metadata_with_paxos True demo_pe ?y (?fe\<lparr>fe_store := iface\<rparr>) = Some (True, ne, fe')"
    using demo_commit [of ?y "?fe\<lparr>fe_store := iface\<rparr>"] by auto
  have "?y = demo_file\<lparr>fsize := 6, modified_time := rq_time demo_request, version := version demo_file + 1\<rparr>"
    by (simp add: written_entry_def write_at_def max_def word_le_nat_alt)
  with c have "Write demo_writes ''/a'' ?d 0 ?fe = Some (\<lparr>wr_status = 0, wr_message = [], wr_bytes = sint b\<rparr>, ne, fe')"
    by (simp add: Write_def demo_path a w Let_def word_less_nat_alt word_le_nat_alt del: write_replicas.simps)
  then show ?thesis by auto
qed

text \<open>The exchanges of that write and of the read that follows, served by a storage node.\<close>

lemma demo_served:
  obtains v where "write_served demo_put ''u1'' 3 [7, 8, 9] demo_server v" "read_served demo_fetch ''u1'' 3 3 v"
proof -
  let ?h = "\<lambda>_ :: nat. demo_host" and ?al = "\<lambda>_ :: nat. True" and ?mk = "\<lambda>_ :: u64. True" and ?d = "[7, 8, 9] :: byte list"
  let ?b = "str_bytes (request_line ''WRITE'' ''u1'' 3 3)"
  have fid: "fid_ok ''u1''" by (simp add: fid_ok_def)
  have lines: "length (request_line ''WRITE'' ''u1'' 3 3) = 13" "length (request_line ''READ'' ''u1'' 3 3) = 12"
    by (simp_all add: request_line_def dec_str.simps)
  have dec_3: "dec_str 3 = ''3''" by code_simp
  have "case client_Write (serve_write True ?h) ''u1'' 3 ?d demo_server of (n, v) \<Rightarrow> n = 3 \<and>
      (case client_Read (serve_get True ?h ?al) ''u1'' 3 3 v of (m, a, u) \<Rightarrow> m = 3 \<and> a = ?d)"
    by code_simp
  then obtain v u where cw: "client_Write (serve_write True ?h) ''u1'' 3 ?d demo_server = (3, v)"
    and cr: "client_Read (serve_get True ?h ?al) ''u1'' 3 3 v = (3, ?d, u)"
    by (auto split: prod.splits)
  have ad: "node_adapter True ?h ?al ?mk (map Recv_bytes [?b, ?d]) demo_server = Replied (str_bytes (''OK|3'' @ [CHR 0x0A])) v"
    using adapter_write_request [OF fid, of ?b "[?d]" 3 ?d ?mk "serve_write True ?h" "serve_get True ?h ?al" "serve_remove True ?h" demo_server] lines
    by (simp add: node_adapter_def cw write_answer_def dec_3)
  have rd: "node_adapter True ?h ?al ?mk [Recv_bytes (str_bytes (request_line ''READ'' ''u1'' 3 3))] v = Replied ?d u"
    unfolding node_adapter_def adapter_read_request [OF fid] cr by simp
  have "write_served demo_put ''u1'' 3 ?d demo_server v"
    unfolding write_served_def Let_def
    by (intro conjI exI [of _ ?b] exI [of _ "[?d]"] exI [of _ True] exI [of _ ?h] exI [of _ ?al] exI [of _ ?mk] exI [of _ "str_bytes (''OK|3'' @ [CHR 0x0A])"])
      (use ad lines in \<open>simp_all add: demo_put_def demo_tcp_env_def\<close>)
  moreover have "read_served demo_fetch ''u1'' 3 3 v"
    unfolding read_served_def Let_def
    by (intro conjI exI [of _ ?h] exI [of _ ?al] exI [of _ ?mk] exI [of _ ?d] exI [of _ u] exI [of _ "[[7], [8, 9]]"])
      (use rd lines in \<open>simp_all add: demo_fetch_def demo_tcp_env_def connect_to_storage_node_def\<close>)
  ultimately show ?thesis using that by blast
qed

end
