(* ===== verification/Client_Props.thy ===== *)
theory Client_Props
  imports Client System_Props
begin

text \<open>
  The command line client on a coordinator with its storage nodes: what the write command stores the
  read command prints, and what the shell learns from the exit code.
\<close>

section \<open>Numbers on the command line\<close>

lemma scan_ulong_number: "scan_ulong (dec_str (unat w)) = Some (w, [])"
proof -
  obtain d ds where d: "dec_str (unat w) = d # ds" using dec_str_ne [of "unat w"] by (cases "dec_str (unat w)") auto
  have dig: "isdigit d" using dec_str_digits [of d "unat w"] d by simp
  have tw: "takeWhile isdigit (dec_str (unat w)) = dec_str (unat w)"
    using dec_str_digits by (simp add: takeWhile_eq_all_conv)
  have dw: "dropWhile isspace (dec_str (unat w)) = dec_str (unat w)"
    using digit_not_special [OF dig] by (simp add: d)
  have lt: "unat w < 2 ^ 64" using unsigned_less [of w] by simp
  show ?thesis
    unfolding scan_ulong_def dw using digit_not_special [OF dig] lt tw
    by (simp add: Let_def d dec_val_dec_str [of "unat w", unfolded d])
qed

lemma strtoull_number: "strtoull (dec_str (unat w)) = w"
  by (simp add: strtoull_def scan_ulong_number)

section \<open>Statuses of the coordinator\<close>

definition coordinator_codes :: "int set" where
  "coordinator_codes = {0, - 22, - 19, - 2, - 5, - 17, - 20, - 21, - 39}"






section \<open>Exit codes\<close>

text \<open>What the result of a command may be, and what it says.\<close>

definition exit_ok :: "link \<Rightarrow> frontend \<Rightarrow> int \<times> out_line list \<times> frontend option \<Rightarrow> bool" where
  "exit_ok lk fe x \<longleftrightarrow> (case x of (rc, out, s) \<Rightarrow>
     rc \<in> insert 1 (insert (- 1) coordinator_codes) \<and> (rc = 0 \<longrightarrow> lk = Delivered \<and> s \<noteq> None \<and> (\<forall>m. Err m \<notin> set out)) \<and>
     (rc = 1 \<longrightarrow> s = Some fe))"

lemma codes_not_one [simp]: "1 \<notin> coordinator_codes" "- 1 \<notin> coordinator_codes" "0 \<in> coordinator_codes"
  by (simp_all add: coordinator_codes_def)

lemma usage_exit [simp]: "exit_ok lk fe (1, out, Some fe)"
  by (simp add: exit_ok_def)









text \<open>The two data commands on a coordinator.\<close>

lemma run_write_served:
  assumes "client_main (coordinator_stub Delivered e n_env t_env ask) [prog, addr, ''write'', p, txt] (Some fe) = (0, out, s)"
  obtains r ne fe' where "Write e p (str_bytes txt) 0 fe = Some (r, ne, fe')" "wr_status r = 0" "s = Some fe'"
  using assms
  by (auto simp: client_main_def run_write_def dfs_Write_def coordinator_stub_def served_def drop_effects_def reply_result_def to_s64_def
      split: option.splits if_splits)

lemma run_read_served:
  fixes off len :: u64
  assumes "Get e False n_env t_env ask p (int (unat off)) (int (unat len)) fe = Some (r, ne, fe')" "gr_status r = 0"
    "unat off < 2 ^ 31" "unat len < 2 ^ 31"
  shows "client_main (coordinator_stub Delivered e n_env t_env ask) [prog, addr, ''read'', p, dec_str (unat off), dec_str (unat len)] (Some fe) =
    (0, [Out (tick @ ''Read '' @ int_str (gr_bytes r) @ '' bytes from '' @ p), Out ''Content:'', Out (map char_of_byte (gr_data r))], Some fe')"
  using assms(1,2) s64_small [OF assms(3)] s64_small [OF assms(4)]
  by (simp add: client_main_def run_read_def dfs_Read_def coordinator_stub_def served_def drop_effects_def reply_result_def strtoull_number
      del: of_nat_unat)

section \<open>Properties\<close>

text \<open>C2: what a user writes is what a user reads, through the whole system: when the client's write command
  exits with 0, more than half of the file's storage nodes hold the text in their file systems at the
  end of the file, and the read command with exactly that range as its arguments (as offset the size
  the file had before, as size the length of the text) then prints exactly the text. (A read without
  a range prints the whole file.) The conditions are these. The path names one live file. No change
  of another coordinator is learned during the write and the coordinator has memory to apply its own;
  the write and the read follow each other on one coordinator, whose RPCs arrive. The hosts of the
  storage nodes do not fail and have not failed before (and no write there ended beyond \<open>2 ^ 63\<close>), the file id is a plain name that no directory
  there has, and the file stays below \<open>2 ^ 31\<close> bytes. Each request line is taken by one \<^verbatim>\<open>send\<close>; the first
  \<^verbatim>\<open>recv\<close> of a write gets at least its line and at most 8191 bytes, that of a read gets its whole
  line; data and answers travel in any pieces. The nodes that acknowledged the write answer the read,
  with memory for it; the exchanges with the others end, whatever they answer.\<close>

theorem client_reads_back:
  assumes "frontend_inv fe" "undisturbed e"
    "metadata_lookup_by_path (fe_meta fe) (c_str (normalize_path p)) = Some a" "x = heap (fe_meta fe) a" "replica_ids x = Some ids"
    "\<forall>y \<in> ran (meta_map (fe_meta fe)). fpath y = fpath x \<and> fstate y \<noteq> FILE_STATE_DELETED \<longrightarrow> y = x"
    "client_main (coordinator_stub Delivered e n_env t_env ask) [prog, addr, ''write'', p, txt] (Some fe) = (0, out, Some fe')"
    "\<forall>j<length ids. file_fits (file_id x) (write_at x 0) (str_bytes txt) (w j)"
    "\<forall>j<length ids. replica_wrote (rq_tcp e j) (ids ! j) (file_id x) (write_at x 0) (str_bytes txt) (fe_store fe) \<longrightarrow>
       write_served (rq_tcp e j) (file_id x) (write_at x 0) (str_bytes txt) (w j) (v j) \<and>
       read_served (rq_tcp e' j) (file_id x) (write_at x 0) (of_nat (length txt)) (v j)"
    "\<forall>j<length ids. replica_value (rq_tcp e' j) (ids ! j) (file_id x) (write_at x 0) (of_nat (length txt)) (fe_store fe') \<noteq> None"
  shows "2 * card {j. j < length ids \<and> fs_abs (v j) = afs_write [file_id x] (str_bytes txt) (unat (write_at x 0)) (fs_abs (w j))}
      > unat (num_storage_nodes x) \<and>
    (\<exists>m fe''. client_main (coordinator_stub Delivered e' n_env' t_env' ask')
        [prog, addr, ''read'', p, dec_str (unat (write_at x 0)), dec_str (length txt)] (Some fe') = (0, [m, Out ''Content:'', Out txt], Some fe''))"
proof -
  let ?at = "write_at x 0" and ?d = "str_bytes txt"
  have l: "length ?d = length txt" by (simp add: str_bytes_def)
  obtain r ne where w: "Write e p ?d 0 fe = Some (r, ne, fe')" "wr_status r = 0"
    by (rule run_write_served [OF assms(7)]) simp
  note sys = write_then_get [OF assms(1-6) w assms(8), unfolded l, OF assms(9,10), of False n_env' t_env' ask']
  then obtain r' fe'' where g: "Get e' False n_env' t_env' ask' p (int (unat ?at)) (int (length txt)) fe' = Some (r', [], fe'')"
      "gr_status r' = 0" "gr_data r' = ?d" by blast
  have "{j. j < length ids \<and> fs_abs (v j) = afs_write [file_id x] ?d (unat ?at) (fs_abs (w j))} \<noteq> {}"
    using sys by (metis (lifting) card.empty mult_0_right not_less_zero)
  then have "unat ?at + length txt < 2 ^ 31" using assms(8) l by (auto simp: file_fits_def)
  then have b: "unat ?at < 2 ^ 31" "unat (of_nat (length txt) :: u64) = length txt" "length txt < 2 ^ 31" by (simp_all add: unat_of_nat)
  have "client_main (coordinator_stub Delivered e' n_env' t_env' ask')
        [prog, addr, ''read'', p, dec_str (unat ?at), dec_str (length txt)] (Some fe') =
      (0, [Out (tick @ ''Read '' @ int_str (gr_bytes r') @ '' bytes from '' @ p), Out ''Content:'', Out txt], Some fe'')"
    using run_read_served [of e' n_env' t_env' ask' p ?at "of_nat (length txt)" fe' r' "[]" fe'' prog addr] g b
    by (simp only: b(2) str_bytes_chars simp_thms)
  with sys show ?thesis by blast
qed

theorem client_reads_back_witness:
  "\<exists>out fe' m fe''. client_main (coordinator_stub Delivered demo_writes None None (\<lambda>_. None))
       [''client'', ''localhost:60051'', ''write'', ''/a'', [CHR 0x07, CHR 0x08, CHR 0x09]] (Some (demo_fe demo_table)) = (0, out, Some fe') \<and>
     client_main (coordinator_stub Delivered demo_fetches None None (\<lambda>_. None))
       [''client'', ''localhost:60051'', ''read'', ''/a'', ''3'', ''3''] (Some fe') = (0, [m, Out ''Content:'', Out [CHR 0x07, CHR 0x08, CHR 0x09]], Some fe'')"
proof -
  let ?fe = "demo_fe demo_table" and ?txt = "[CHR 0x07, CHR 0x08, CHR 0x09]"
  have d: "str_bytes ?txt = [7, 8, 9]" by (simp add: str_bytes_def byte_of_char_def)
  have dec_3: "dec_str 3 = ''3''" by code_simp
  obtain r ne fe' where wr: "Write demo_writes ''/a'' [7, 8, 9] 0 ?fe = Some (r, ne, fe')" "wr_status r = 0" using demo_write by blast
  obtain v where v: "write_served demo_put ''u1'' 3 [7, 8, 9] demo_server v" "read_served demo_fetch ''u1'' 3 3 v" by (rule demo_served)
  obtain a where a: "metadata_lookup_by_path (fe_meta ?fe) (c_str (normalize_path ''/a'')) = Some a" "demo_file = heap (fe_meta ?fe) a"
    using demo_lookup by (auto simp: demo_path)
  have at: "write_at demo_file 0 = 3" by (simp add: write_at_def)
  have old: "fs_abs demo_server [''u1''] \<noteq> Some ADir" by code_simp
  have fits: "file_fits ''u1'' 3 [7, 8, 9] demo_server" using old demo_server_sound(2) by (simp add: file_fits_def fid_ok_def)
  have inv: "same_nodes demo_iface (fe_store fe')"
    using write_effect [OF demo_table_inv(1) _ a demo_file_simps(6) wr] by simp
  have "\<forall>j \<in> {0, 1, 2}. replica_value demo_fetch ([101, 102, 103] ! j) ''u1'' 3 3 demo_iface \<noteq> None" by code_simp
  then have ends: "\<forall>j<length [101 :: u32, 102, 103]. replica_value demo_fetch ([101, 102, 103] ! j) ''u1'' 3 3 (fe_store fe') \<noteq> None"
    using replica_value_same [OF inv] by (auto simp: less_Suc_eq numeral_3_eq_3 numeral_2_eq_2)
  have n: "dec_str (unat (write_at demo_file 0)) = ''3''" "dec_str (length ?txt) = ''3''"
    unfolding at using dec_3 by (simp, simp add: numeral_3_eq_3)
  obtain out where c: "client_main (coordinator_stub Delivered demo_writes None None (\<lambda>_. None)) [''client'', ''localhost:60051'', ''write'', ''/a'', ?txt] (Some ?fe) = (0, out, Some fe')"
    using wr by (simp add: client_main_def run_write_def dfs_Write_def coordinator_stub_def served_def drop_effects_def reply_result_def to_s64_def d)
  have "\<exists>m fe''. client_main (coordinator_stub Delivered demo_fetches None None (\<lambda>_. None))
        [''client'', ''localhost:60051'', ''read'', ''/a'', dec_str (unat (write_at demo_file 0)), dec_str (length ?txt)] (Some fe') = (0, [m, Out ''Content:'', Out ?txt], Some fe'')"
    by (rule client_reads_back [where w = "\<lambda>_. demo_server" and v = "\<lambda>_. v", THEN conjunct2,
          OF demo_table_inv(1) _ a demo_file_simps(6) _ c, unfolded d])
      (use v fits ends in \<open>simp_all add: at\<close>)
  then have "\<exists>m fe''. client_main (coordinator_stub Delivered demo_fetches None None (\<lambda>_. None))
        [''client'', ''localhost:60051'', ''read'', ''/a'', ''3'', ''3''] (Some fe') = (0, [m, Out ''Content:'', Out ?txt], Some fe'')"
    by (simp only: n)
  with c show ?thesis by blast
qed



end
