(* ===== verification/Spec2Isabelle.thy ===== *)
theory Spec2Isabelle
  imports Grpc_Props Metadata_Props Network_Props Frontend_Cluster Frontend_Refinement Process_Props Client_Props
begin

text \<open>
  A verification library of FUSED, a distributed file system in C and C++.

  \<^bold>\<open>The program.\<close> A user runs the command line client (\<^verbatim>\<open>src/src/distributed_client.cpp\<close>), which calls a
  coordinator over gRPC. A coordinator (\<^verbatim>\<open>src/src/distributed_frontend.cpp\<close>) is one of a few metadata
  nodes. It keeps a table of files (\<^verbatim>\<open>metadata_manager.c\<close>, with a write-ahead log), agrees on every
  change of the table with the other coordinators (\<^verbatim>\<open>paxos.c\<close>, over \<^verbatim>\<open>network_engine.c\<close>) and keeps the
  bytes of a file on up to three storage nodes, which it reaches over a line protocol
  (\<^verbatim>\<open>storage_interface.c\<close>). A storage node is a TCP adapter (\<^verbatim>\<open>src/src/storage_tcp_adapter.cpp\<close>) in front of
  an RPC server (\<^verbatim>\<open>src/src/fused_rpc_server.cpp\<close>) in front of an append-only file system with an inode
  table in memory (\<^verbatim>\<open>src/src/fused_ops.c\<close>), which can also be mounted with FUSE (\<^verbatim>\<open>fused_main.c\<close>). A demo
  program (\<^verbatim>\<open>src/proto/grpc_client.cc\<close>) calls the RPC server directly.

  \<^bold>\<open>How code becomes definitions.\<close> A struct is a record, a C array an index function with its length,
  a machine integer a word of its width (or an \<^typ>\<open>int\<close> with the conversion written out), a struct on
  the wire or in the log its x86-64 bytes. An operation takes the state and returns the result with
  the new state; its error returns are values. What the host does (allocation, \<^verbatim>\<open>stdio\<close>, sockets,
  clock, UUIDs, name resolution) is an environment argument that answers each call, so every failure
  path is a branch and theorems hold for all answers unless a hypothesis says otherwise. Reading or
  writing out of bounds and not returning are distinguished results (\<^term>\<open>None\<close> or an error of their own).

  \<^bold>\<open>The theories\<close>, in the order of their imports:

  \<^item> \<open>Fused_Prelude\<close>: words, arrays and the loops on them, C strings; the collections \<open>arr_simps\<close>,
    \<open>codec_simps\<close> and \<open>path_simps\<close>. \<open>Byte_Codec\<close>: byte encodings and the locale \<open>fixed_codec\<close> of encodings
    of fixed width, interpreted for integers and character arrays, and later for the log entry and the
    message header. \<open>Id_Table\<close>: the locale \<open>id_registry\<close> of tables of ids, interpreted by the peers of
    the network engine and the nodes of the storage interface.

  \<^item> \<open>Fused_Ops\<close>: \<^verbatim>\<open>fused_fs.h\<close>, \<^verbatim>\<open>fused_ops.c\<close> and the dispatch table of \<^verbatim>\<open>fused_main.c\<close>; the state is
    \<open>fused_world\<close> (\<^verbatim>\<open>g_state\<close> and the backing files), one definition per callback, \<open>fs_reachable\<close> the states
    of a mounted file system. \<open>Fused_Inv\<close>, \<open>Fused_Paths\<close>, \<open>Fused_Steps\<close>: the invariant of the inode table,
    path resolution, and that every callback keeps the invariant. \<open>Fused_View\<close>: the abstract file
    system \<open>fs_abs\<close>, a map from path components to directories and files with their bytes.
    \<open>Fused_Data\<close>: reads and writes on a host without failures. \<open>Fused_Props\<close>: each callback refines its
    operation on \<open>fs_abs\<close>, reading returns what was written, failed creations roll back, and the
    defects of the code as theorems. \<open>Fused_Outcome\<close>: exactly when creating a file or a directory
    succeeds, and with which error it fails otherwise.

  \<^item> \<open>Paxos\<close>: \<^verbatim>\<open>paxos.h\<close>, \<^verbatim>\<open>paxos.c\<close>; \<^verbatim>\<open>paxos_propose\<close> is three steps separated by its two waits, because
    messages are handled while it waits. \<open>Paxos_Props\<close>: promises, persistence before acknowledging,
    quorums (locale \<open>majority_quorums\<close>), unique proposal ids, the wire format, and a run of two nodes
    that commits two values for one sequence number.

  \<^item> \<open>Crc32\<close>, \<open>Metadata\<close>: \<^verbatim>\<open>metadata_manager.h\<close>, \<^verbatim>\<open>metadata_manager.c\<close>; the hash map with its entries in a
    heap (callers keep pointers to them) and the log as bytes. \<open>Metadata_Props\<close>: applying a committed
    entry is a map update (locale \<open>keyed_store\<close>), replicas that apply the same entries agree, the log
    holds what was appended, and what replay makes of it.

  \<^item> \<open>Network\<close>, \<open>Network_Props\<close>: \<^verbatim>\<open>network_engine.h\<close>, \<^verbatim>\<open>network_engine.c\<close>; peers, sending, broadcasting and one
    iteration of the event loop; a frame that is sent and received in one piece is delivered intact.

  \<^item> \<open>Storage\<close>, \<open>Storage_Props\<close>: \<^verbatim>\<open>storage_interface.h\<close>, \<^verbatim>\<open>storage_interface.c\<close>; the node table, the selection
    of replicas (correct, and it ends), the exchanges with a storage node (they end when each \<^verbatim>\<open>send\<close>
    takes a byte).

  \<^item> \<open>Rpc_Server\<close>, \<open>Rpc_Props\<close>: \<^verbatim>\<open>fused_rpc_server.cpp\<close>; its handlers are sequences of the callbacks
    (locale \<open>callback_closed\<close>), so its states are states of the mounted file system. The
    texts of its error answers are part of the handlers. \<open>Grpc_Client\<close>, \<open>Grpc_Props\<close>: \<^verbatim>\<open>grpc_client.cc\<close>
    against the handlers of the server; what its script prints, and what a listing contains.

  \<^item> \<open>Tcp_Adapter\<close>, \<open>Storage_Node_Props\<close>: \<^verbatim>\<open>storage_tcp_adapter.cpp\<close>; the adapter parses what the storage
    interface prints, and a write reported as successful is in the node's file system and is read back,
    in whatever pieces data and answers arrive (the request lines arrive whole).

  \<^item> \<open>Frontend\<close>: \<^verbatim>\<open>distributed_frontend.cpp\<close>; the state \<open>frontend\<close> is the four global components, one
    definition per request, per Paxos callback and for the message handler and the initialisation.
    \<open>Frontend_Table\<close>: the table as a set of entries, paths, listings. \<open>Frontend_Consensus\<close>: what a proposal
    and the messages handled meanwhile do to table and slots. \<open>Frontend_Liveness\<close>: a proposal returns,
    and succeeds when a quorum answers in time among any other messages. \<open>Frontend_Inv\<close>: the invariant
    of a coordinator and that every request keeps it (\<open>fe_reachable\<close>, where learned entries are well typed).
    \<open>Frontend_Props\<close>: write and read quorums meet, a read returns exactly the value of a majority, a
    quorum commits, a created file is visible. \<open>Frontend_Namespace\<close>: under sequential requests the live
    entries form a tree and a listing shows exactly the children of a directory. \<open>Frontend_Progress\<close>:
    every request returns an answer when its proposal's waits end (locale \<open>table_preorder\<close> of relations
    between tables that requests respect). \<open>Frontend_Cluster\<close>: several coordinators that send frames to
    each other (\<open>member\<close>); all their tables are well typed, with nothing assumed of learned entries.
    \<open>Frontend_Refinement\<close>: sequential requests refine an abstract name service, a map from paths to
    directories and sized files.

  \<^item> \<open>System_Props\<close>: coordinator and storage nodes together; the locale \<open>durable_replicas\<close> is the contract
    between them, interpreted by the exchanges that a node serves. \<open>Client\<close>: \<^verbatim>\<open>distributed_client.cpp\<close>, its
    stub instantiated by the coordinator. \<open>Client_Props\<close>: what the write command stores the read
    command prints, through all components; the exit code.

  \<^item> \<open>Processes\<close>: the destructors of all components, \<^verbatim>\<open>cleanup_distributed_system\<close>, \<^verbatim>\<open>RunServer\<close>, the accept loop
    of the adapter and the four \<^verbatim>\<open>main\<close> functions, each as its exit code with the sequence of what it
    releases. \<open>Process_Props\<close>: the coordinator frees all its memory and none of it twice; which accepted
    connections get a handler.

  \<^bold>\<open>Concurrency and bounds.\<close> A function that holds its component's lock is one step. Between the steps
  of a request the coordinator's network thread may handle messages; these are explicit lists of
  deliveries, during the waits and between them, and \<open>Create\<close> and \<open>Mkdir\<close> see one state when they check
  and another when they hold the lock. The exchanges of one request with storage nodes are taken to
  finish before the next message is handled. \<open>paxos_propose_accept\<close> is one step, although the code
  releases its lock between accepting its own proposal, the persist callback and the count
  (\<^verbatim>\<open>paxos.c\<close> 241-264). The handlers of the storage node's RPC server run one
  after the other here, and so do the FUSE callbacks; the code runs both in threads without a lock
  (\<^verbatim>\<open>fuse_main\<close> is multithreaded by default). No definition has fuel: a wait
  consumes the list of its wake-ups and a transfer the list of results of \<^verbatim>\<open>send\<close> or \<^verbatim>\<open>recv\<close>, and running out
  of them is the result \<^term>\<open>None\<close>; theorems that an operation returns say how many suffice.

  \<^bold>\<open>What the theorems do not show.\<close> Agreement of the coordinators: it does not hold, and
  \<open>Paxos_Props\<close> has the run. Recovery: replay restores nothing (\<open>Metadata_Props\<close>). Other defects are theorems
  beside the properties: lost or doubled bytes after a failed write,
  bytes lost in \<^verbatim>\<open>fclose\<close>, slots that are never reused, a
  directory moved into itself, stale handles (\<open>Fused_Props\<close>); frames cut or joined by TCP and a socket
  closed twice (\<open>Network_Props\<close>); a delete without an answer that counts as done, replication that
  cannot succeed (\<open>Storage_Props\<close>); failed reads that look like empty files (\<open>Storage_Node_Props\<close>,
  \<open>Frontend_Props\<close>); two creations of one path (\<open>Frontend_Props\<close>).

  \<^bold>\<open>Simplifications.\<close> The unchecked \<^verbatim>\<open>calloc\<close> of a PROMISE or ACCEPTED answer (\<^verbatim>\<open>paxos.c\<close> 332, 382) always
  succeeds; in the code a failure is a null dereference. A character array without NUL that a peer
  sends is cut at its end when it is decoded, where C string functions would read on. The adapter's
  answer to a read is one whole \<^verbatim>\<open>send\<close> (\<^verbatim>\<open>storage_tcp_adapter.cpp\<close> 236, which ignores how much was taken).

  \<^bold>\<open>Not modelled.\<close> gRPC and the stubs \<^verbatim>\<open>protoc\<close> generates (they are parameters), \<^verbatim>\<open>log_message\<close> and
  diagnostic output (what the two clients print is modelled), socket options, locks (see above),
  tests, benchmarks and deployment scripts.
\<close>

end
